theory Spec2Isabelle
  imports Main "HOL-Library.Word"
begin

unbundle bit_operations_syntax

section \<open>Constants\<close>

type_synonym byte = "8 word"

text \<open>glc.h: stream version, file signature, message types.\<close>

definition GLC_STREAM_VERSION :: "32 word" where
  "GLC_STREAM_VERSION = 0x2"

definition GLC_SIGNATURE :: "32 word" where
  "GLC_SIGNATURE = 0x00434c47"

definition GLC_MESSAGE_CLOSE :: byte where
  "GLC_MESSAGE_CLOSE = 0x01"

definition GLC_MESSAGE_CONTAINER :: byte where
  "GLC_MESSAGE_CONTAINER = 0x09"

text \<open>glc.h: log levels.\<close>

definition GLC_ERROR :: nat where
  "GLC_ERROR = 0"

definition GLC_INFORMATION :: nat where
  "GLC_INFORMATION = 3"

definition GLC_DEBUG :: nat where
  "GLC_DEBUG = 4"

text \<open>file.c: the lifecycle flags kept in \<open>file->flags\<close>.\<close>

definition FILE_READING :: "32 word" where
  "FILE_READING = 0x1"

definition FILE_WRITING :: "32 word" where
  "FILE_WRITING = 0x2"

definition FILE_RUNNING :: "32 word" where
  "FILE_RUNNING = 0x4"

definition FILE_INFO_WRITTEN :: "32 word" where
  "FILE_INFO_WRITTEN = 0x8"

definition FILE_INFO_READ :: "32 word" where
  "FILE_INFO_READ = 0x10"

definition FILE_INFO_VALID :: "32 word" where
  "FILE_INFO_VALID = 0x20"

text \<open>errno.h (Linux values) and sys/stat.h mode bits.\<close>

definition EINTR :: int where
  "EINTR = 4"

definition EAGAIN :: int where
  "EAGAIN = 11"

definition EBUSY :: int where
  "EBUSY = 16"

definition EINVAL :: int where
  "EINVAL = 22"

definition EBADMSG :: int where
  "EBADMSG = 74"

definition ENOTSUP :: int where
  "ENOTSUP = 95"

definition S_IXGRP :: "32 word" where
  "S_IXGRP = 0x8"

definition S_ISGID :: "32 word" where
  "S_ISGID = 0x400"

section \<open>Byte order\<close>

text \<open>
  The structures are written and read as raw memory, so the byte order on disk is the
  host's. The model fixes little-endian (the x86 hosts glc runs on); reader and writer
  share the choice.
\<close>

fun word_of_le :: "byte list \<Rightarrow> 'a::len word" where
  "word_of_le [] = 0"
| "word_of_le (b # bs) = ucast b OR push_bit 8 (word_of_le bs)"

definition le32 :: "32 word \<Rightarrow> byte list" where
  "le32 w = [ucast w, ucast (drop_bit 8 w), ucast (drop_bit 16 w), ucast (drop_bit 24 w)]"

definition le64 :: "64 word \<Rightarrow> byte list" where
  "le64 w = [ucast w, ucast (drop_bit 8 w), ucast (drop_bit 16 w), ucast (drop_bit 24 w),
     ucast (drop_bit 32 w), ucast (drop_bit 40 w), ucast (drop_bit 48 w), ucast (drop_bit 56 w)]"

section \<open>The environment: errno, injected OS failures, the log, the cancellation flag\<close>

text \<open>
  A log line is the level, the format string and the numeric arguments (the texts of
  \<open>strerror\<close> and file names are left out).
\<close>

type_synonym log_line = "nat \<times> string \<times> int list"

text \<open>
  Everything outside \<open>struct file_s\<close> that file.c reads or writes:
  \<^item> \<open>errno\<close>, the C variable;
  \<^item> \<open>faults\<close>: the outcome the operating system and the packet buffer library will
    give to the coming fallible calls, in call order: 0 lets the call succeed, any other
    value makes it fail with that error; an exhausted list means success;
  \<^item> \<open>logged\<close>: the lines given to \<open>glc_log\<close>;
  \<^item> \<open>cancel_seq\<close>, \<open>polls\<close>: \<open>GLC_STATE_CANCEL\<close> is set by other threads, so the value
    seen by the k-th call of \<open>glc_state_test\<close> is \<open>cancel_seq k\<close>, and \<open>polls\<close> counts
    the calls made;
  \<^item> \<open>released\<close>: the files closed so far, as they were left on disk.
\<close>

record os_file =
  st_mode :: "32 word"
  contents :: "byte list"
  offset :: nat
  locked :: bool
  lock_conflict :: bool

record world =
  errno :: int
  faults :: "int list"
  logged :: "log_line list"
  cancel_seq :: "nat \<Rightarrow> bool"
  polls :: nat
  released :: "os_file list"

definition next_fault :: "world \<Rightarrow> int \<times> world" where
  "next_fault w = (case faults w of [] \<Rightarrow> (0, w) | e # es \<Rightarrow> (e, w\<lparr>faults := es\<rparr>))"

definition glc_log :: "nat \<Rightarrow> string \<Rightarrow> int list \<Rightarrow> world \<Rightarrow> world" where
  "glc_log lvl msg args w = w\<lparr>logged := logged w @ [(lvl, msg, args)]\<rparr>"

definition glc_state_test_cancel :: "world \<Rightarrow> bool \<times> world" where
  "glc_state_test_cancel w = (cancel_seq w (polls w), w\<lparr>polls := Suc (polls w)\<rparr>)"

section \<open>stdio streams over a descriptor\<close>

text \<open>
  \<open>os_file\<close> is what the kernel holds for an open descriptor: mode bits, contents, file
  offset, whether this descriptor holds the write lock and whether another process holds
  a conflicting one. Only reads and writes move the offset, so it never passes the end.

  A \<open>FILE *\<close> wraps the descriptor and buffers writes: \<open>fwrite\<close> appends to \<open>wbuf\<close>,
  \<open>fflush\<close> and \<open>fclose\<close> hand the buffer to the descriptor. (stdio may flush earlier
  when its buffer fills; what is on disk after a flush or close is the same.)
\<close>

record stream =
  fd :: os_file
  wbuf :: "byte list"

definition os_write :: "byte list \<Rightarrow> os_file \<Rightarrow> os_file" where
  "os_write data f =
     f\<lparr>contents := take (offset f) (contents f) @ data @ drop (offset f + length data) (contents f),
       offset := offset f + length data\<rparr>"

text \<open>
  \<open>fwrite_unlocked(ptr, size, 1, handle)\<close> with \<open>data\<close> the \<open>size\<close> bytes at \<open>ptr\<close>. The
  result is the number of items written, 0 or 1. C defines the result as 0 when
  \<open>size\<close> is 0, and the stream and errno are left alone.
\<close>

definition fwrite_unlocked :: "byte list \<Rightarrow> stream \<Rightarrow> world \<Rightarrow> nat \<times> stream \<times> world" where
  "fwrite_unlocked data s w =
     (if data = [] then (0, s, w)
      else case next_fault w of (e, w') \<Rightarrow>
        if e \<noteq> 0 then (0, s, w'\<lparr>errno := e\<rparr>)
        else (1, s\<lparr>wbuf := wbuf s @ data\<rparr>, w'))"

definition fflush_unlocked :: "stream \<Rightarrow> world \<Rightarrow> int \<times> stream \<times> world" where
  "fflush_unlocked s w =
     (case next_fault w of (e, w') \<Rightarrow>
        if e \<noteq> 0 then (- 1, s, w'\<lparr>errno := e\<rparr>)
        else (0, s\<lparr>fd := os_write (wbuf s) (fd s), wbuf := []\<rparr>, w'))"

text \<open>
  \<open>fclose\<close>: flushes, closes the descriptor (which drops its lock) and leaves the file
  on disk. When the flush fails the buffered bytes are lost.
\<close>

definition fclose :: "stream \<Rightarrow> world \<Rightarrow> int \<times> world" where
  "fclose s w =
     (case next_fault w of (e, w') \<Rightarrow>
        if e \<noteq> 0 then (- 1, w'\<lparr>errno := e, released := released w' @ [(fd s)\<lparr>locked := False\<rparr>]\<rparr>)
        else (0, w'\<lparr>released := released w' @ [(os_write (wbuf s) (fd s))\<lparr>locked := False\<rparr>]\<rparr>))"

text \<open>
  \<open>fread_unlocked(ptr, size, 1, handle)\<close>: \<open>Some\<close> of the \<open>size\<close> bytes when one item was
  read, \<open>None\<close> when the result is 0: \<open>size\<close> is 0 (C defines the result as 0, the stream
  untouched), the read failed, or fewer than \<open>size\<close> bytes were left (they are consumed).
\<close>

definition fread_unlocked :: "nat \<Rightarrow> stream \<Rightarrow> world \<Rightarrow> byte list option \<times> stream \<times> world" where
  "fread_unlocked n s w =
     (if n = 0 then (None, s, w)
      else case next_fault w of (e, w') \<Rightarrow>
        if e \<noteq> 0 then (None, s, w'\<lparr>errno := e\<rparr>)
        else if offset (fd s) + n \<le> length (contents (fd s))
          then (Some (take n (drop (offset (fd s)) (contents (fd s)))),
                s\<lparr>fd := (fd s)\<lparr>offset := offset (fd s) + n\<rparr>\<rparr>, w')
          else (None, s\<lparr>fd := (fd s)\<lparr>offset := length (contents (fd s))\<rparr>\<rparr>, w'))"

section \<open>The packet buffer (packetstream, an external library)\<close>

text \<open>
  The destination buffer holds the packets committed to it, oldest first, and whether it
  has been cancelled. A packet under construction is private to its writer until
  \<open>ps_packet_close\<close> commits it. Calls on a cancelled buffer return \<open>EINTR\<close>; calls on a
  packet that is not open return \<open>EINVAL\<close>; otherwise a call fails when the environment
  injects a failure.
\<close>

record ps_buffer =
  packets :: "byte list list"
  cancelled :: bool

record ps_packet =
  is_open :: bool
  pdata :: "byte list"

definition ps_packet_init :: ps_packet where
  "ps_packet_init = \<lparr>is_open = False, pdata = []\<rparr>"

definition ps_packet_open :: "ps_packet \<Rightarrow> ps_buffer \<Rightarrow> world \<Rightarrow> int \<times> ps_packet \<times> world" where
  "ps_packet_open pkt to w =
     (if cancelled to then (EINTR, pkt, w)
      else case next_fault w of (e, w') \<Rightarrow>
        if e \<noteq> 0 then (e, pkt, w')
        else (0, pkt\<lparr>is_open := True, pdata := []\<rparr>, w'))"

definition ps_packet_write :: "ps_packet \<Rightarrow> byte list \<Rightarrow> ps_buffer \<Rightarrow> world \<Rightarrow> int \<times> ps_packet \<times> world" where
  "ps_packet_write pkt data to w =
     (if cancelled to then (EINTR, pkt, w)
      else if \<not> is_open pkt then (EINVAL, pkt, w)
      else case next_fault w of (e, w') \<Rightarrow>
        if e \<noteq> 0 then (e, pkt, w')
        else (0, pkt\<lparr>pdata := pdata pkt @ data\<rparr>, w'))"

text \<open>
  \<open>ps_packet_dma\<close> reserves the requested number of bytes inside the packet and returns their address;
  the caller fills them.
\<close>

definition ps_packet_dma :: "ps_packet \<Rightarrow> nat \<Rightarrow> ps_buffer \<Rightarrow> world \<Rightarrow> int \<times> ps_packet \<times> world" where
  "ps_packet_dma pkt n to w =
     (if cancelled to then (EINTR, pkt, w)
      else if \<not> is_open pkt then (EINVAL, pkt, w)
      else case next_fault w of (e, w') \<Rightarrow>
        if e \<noteq> 0 then (e, pkt, w') else (0, pkt, w'))"

definition ps_packet_close :: "ps_packet \<Rightarrow> ps_buffer \<Rightarrow> world \<Rightarrow> int \<times> ps_packet \<times> ps_buffer \<times> world" where
  "ps_packet_close pkt to w =
     (if cancelled to then (EINTR, pkt, to, w)
      else if \<not> is_open pkt then (EINVAL, pkt, to, w)
      else case next_fault w of (e, w') \<Rightarrow>
        if e \<noteq> 0 then (e, pkt, to, w')
        else (0, pkt\<lparr>is_open := False, pdata := []\<rparr>, to\<lparr>packets := packets to @ [pdata pkt]\<rparr>, w'))"

definition ps_buffer_cancel :: "ps_buffer \<Rightarrow> ps_buffer" where
  "ps_buffer_cancel to = to\<lparr>cancelled := True\<rparr>"

section \<open>The stream file controller\<close>

text \<open>
  \<open>struct file_s\<close>. \<open>handle = None\<close> is the NULL handle. The callback is a function
  pointer: the field holds which callback is installed (\<open>'cb\<close>), and calling it is the
  parameter \<open>invoke\<close> of the write pump. The worker descriptor \<open>thread\<close> is constant
  after \<open>file_init\<close> and left out.

  Modelled from the spec: the state tracker (glc/core/tracker.c) is not part of the
  sources at hand; it observes every frame the write pump sees, and the model keeps the
  observed frames, in order.
\<close>

record 'cb file_s =
  flags :: "32 word"
  handle :: "stream option"
  sync :: int
  stream_version :: "32 word"
  callback :: "'cb option"
  state_tracker :: "(byte \<times> byte list) list"

definition file_init :: "'cb file_s" where
  "file_init = \<lparr>flags = 0, handle = None, sync = 0, stream_version = 0,
                callback = None, state_tracker = []\<rparr>"

definition file_set_sync :: "'cb file_s \<Rightarrow> int \<Rightarrow> int \<times> 'cb file_s" where
  "file_set_sync file s = (0, file\<lparr>sync := s\<rparr>)"

definition file_set_callback :: "'cb file_s \<Rightarrow> 'cb option \<Rightarrow> int \<times> 'cb file_s" where
  "file_set_callback file cb = (0, file\<lparr>callback := cb\<rparr>)"

subsection \<open>The stream info header\<close>

text \<open>
  \<open>glc_stream_info_t\<close>, 32 bytes on disk. \<open>fps\<close> is a double; the model keeps its 64 bits
  as they are.
\<close>

record glc_stream_info =
  signature :: "32 word"
  version :: "32 word"
  fps :: "64 word"
  info_flags :: "32 word"
  pid :: "32 word"
  name_size :: "32 word"
  date_size :: "32 word"

definition GLC_STREAM_INFO_SIZE :: nat where
  "GLC_STREAM_INFO_SIZE = 32"

definition info_bytes :: "glc_stream_info \<Rightarrow> byte list" where
  "info_bytes info = le32 (signature info) @ le32 (version info) @ le64 (fps info) @
     le32 (info_flags info) @ le32 (pid info) @ le32 (name_size info) @ le32 (date_size info)"

definition info_of_bytes :: "byte list \<Rightarrow> glc_stream_info" where
  "info_of_bytes bs =
     \<lparr>signature = word_of_le (take 4 bs),
      version = word_of_le (take 4 (drop 4 bs)),
      fps = word_of_le (take 8 (drop 8 bs)),
      info_flags = word_of_le (take 4 (drop 16 bs)),
      pid = word_of_le (take 4 (drop 20 bs)),
      name_size = word_of_le (take 4 (drop 24 bs)),
      date_size = word_of_le (take 4 (drop 28 bs))\<rparr>"

subsection \<open>Attaching and closing a source\<close>

text \<open>
  System calls on a descriptor. Each fails when the environment injects a failure, and
  then sets errno.
\<close>

definition lseek_set0 :: "os_file \<Rightarrow> world \<Rightarrow> int \<times> os_file \<times> world" where
  "lseek_set0 f w =
     (case next_fault w of (e, w') \<Rightarrow>
        if e \<noteq> 0 then (- 1, f, w'\<lparr>errno := e\<rparr>) else (0, f\<lparr>offset := 0\<rparr>, w'))"

definition fdopen :: "os_file \<Rightarrow> world \<Rightarrow> stream option \<times> world" where
  "fdopen f w =
     (case next_fault w of (e, w') \<Rightarrow>
        if e \<noteq> 0 then (None, w'\<lparr>errno := e\<rparr>) else (Some \<lparr>fd = f, wbuf = []\<rparr>, w'))"

text \<open>
  \<open>file_set_source\<close>. The descriptor belongs to the caller until it is wrapped, so its
  state after the call is part of the result.
\<close>

definition file_set_source :: "'cb file_s \<Rightarrow> os_file \<Rightarrow> world \<Rightarrow> int \<times> os_file \<times> 'cb file_s \<times> world" where
  "file_set_source file f w =
     (if handle file \<noteq> None then (EBUSY, f, file, w)
      else case lseek_set0 f w of (_, f1, w1) \<Rightarrow>
        case fdopen f1 w1 of
          (None, w2) \<Rightarrow> (errno w2, f1, file, glc_log GLC_ERROR ''fdopen error: %s (%d)'' [errno w2] w2)
        | (Some h, w2) \<Rightarrow> (0, f1, file\<lparr>handle := Some h, flags := flags file OR FILE_READING\<rparr>, w2))"

definition file_close_source :: "'cb file_s \<Rightarrow> world \<Rightarrow> int \<times> 'cb file_s \<times> world" where
  "file_close_source file w =
     (case handle file of
        None \<Rightarrow> (EAGAIN, file, w)
      | Some h \<Rightarrow>
          if flags file AND FILE_READING = 0 then (EAGAIN, file, w)
          else case fclose h w of (r, w1) \<Rightarrow>
            (0, file\<lparr>handle := None,
                     flags := flags file AND NOT (FILE_READING OR FILE_INFO_READ OR FILE_INFO_VALID)\<rparr>,
             if r \<noteq> 0 then glc_log GLC_ERROR ''can't close file: %s (%d)'' [errno w1] w1 else w1))"

subsection \<open>Reading the stream info\<close>

definition file_test_stream_version :: "32 word \<Rightarrow> int" where
  "file_test_stream_version v =
     (if v = GLC_STREAM_VERSION then 0
      else if v = 0x03 then 0
      else ENOTSUP)"

text \<open>
  \<open>if (size > 0) { *block = malloc(size); if (fread(*block, size, 1, handle) != 1) return errno; }\<close>:
  the flag says whether \<open>file_read_info\<close> goes on. (\<open>malloc\<close> is taken to succeed. After a
  failed read the code leaves the allocated block, its contents indeterminate, in the
  out-parameter; the result here has \<open>None\<close> in its place.)
\<close>

definition read_info_block :: "32 word \<Rightarrow> stream \<Rightarrow> world \<Rightarrow> bool \<times> byte list option \<times> stream \<times> world" where
  "read_info_block n h w =
     (if 0 < n then
        (case fread_unlocked (unat n) h w of
           (None, h1, w1) \<Rightarrow> (False, None, h1, w1)
         | (Some bs, h1, w1) \<Rightarrow> (True, Some bs, h1, w1))
      else (True, None, h, w))"

text \<open>
  \<open>file_read_info\<close>. The out-parameters \<open>info\<close>, \<open>*info_name\<close>, \<open>*info_date\<close> are the second
  component of the result (\<open>None\<close>: not filled, resp. NULL).
\<close>

definition file_read_info ::
  "'cb file_s \<Rightarrow> world \<Rightarrow>
   int \<times> (glc_stream_info option \<times> byte list option \<times> byte list option) \<times> 'cb file_s \<times> world" where
  "file_read_info file w =
     (case handle file of
        None \<Rightarrow> (EAGAIN, (None, None, None), file, w)
      | Some h \<Rightarrow>
        if flags file AND FILE_READING = 0 then (EAGAIN, (None, None, None), file, w)
        else case fread_unlocked GLC_STREAM_INFO_SIZE h w of
          (None, h1, w1) \<Rightarrow>
            (errno w1, (None, None, None), file\<lparr>handle := Some h1\<rparr>,
             glc_log GLC_ERROR ''can't read stream info header'' [] w1)
        | (Some bs, h1, w1) \<Rightarrow>
            let info = info_of_bytes bs;
                file1 = file\<lparr>handle := Some h1, flags := flags file OR FILE_INFO_READ\<rparr>
            in
            if signature info \<noteq> GLC_SIGNATURE then
              (EINVAL, (Some info, None, None), file1,
               glc_log GLC_ERROR ''signature 0x%08x does not match 0x%08x''
                 [uint (signature info), uint GLC_SIGNATURE] w1)
            else if file_test_stream_version (version info) \<noteq> 0 then
              (ENOTSUP, (Some info, None, None), file1,
               glc_log GLC_ERROR ''unsupported stream version 0x%02x'' [uint (version info)] w1)
            else
              let w2 = glc_log GLC_INFORMATION ''stream version 0x%02x'' [uint (version info)] w1;
                  file2 = file1\<lparr>stream_version := version info\<rparr>
              in
              case read_info_block (name_size info) h1 w2 of
                (False, nm, h2, w3) \<Rightarrow> (errno w3, (Some info, nm, None), file2\<lparr>handle := Some h2\<rparr>, w3)
              | (True, nm, h2, w3) \<Rightarrow>
                  case read_info_block (date_size info) h2 w3 of
                    (False, dt, h3, w4) \<Rightarrow> (errno w4, (Some info, nm, dt), file2\<lparr>handle := Some h3\<rparr>, w4)
                  | (True, dt, h3, w4) \<Rightarrow>
                      (0, (Some info, nm, dt),
                       file2\<lparr>handle := Some h3, flags := flags file2 OR FILE_INFO_VALID\<rparr>, w4))"

subsection \<open>The read pump\<close>

text \<open>
  The two header reads of one loop round, in the order the stream version dictates.
  \<open>None\<close> is \<open>goto send_eof\<close>.
\<close>

definition file_read_header :: "32 word \<Rightarrow> stream \<Rightarrow> world \<Rightarrow> (byte \<times> 64 word) option \<times> stream \<times> world" where
  "file_read_header ver h w =
     (if ver = 0x03 then
        (case fread_unlocked 1 h w of
           (None, h1, w1) \<Rightarrow> (None, h1, w1)
         | (Some hb, h1, w1) \<Rightarrow>
             case fread_unlocked 8 h1 w1 of
               (None, h2, w2) \<Rightarrow> (None, h2, w2)
             | (Some sb, h2, w2) \<Rightarrow> (Some (word_of_le hb, word_of_le sb), h2, w2))
      else
        (case fread_unlocked 8 h w of
           (None, h1, w1) \<Rightarrow> (None, h1, w1)
         | (Some sb, h1, w1) \<Rightarrow>
             case fread_unlocked 1 h1 w1 of
               (None, h2, w2) \<Rightarrow> (None, h2, w2)
             | (Some hb, h2, w2) \<Rightarrow> (Some (word_of_le hb, word_of_le sb), h2, w2)))"

text \<open>
  How one round of the \<open>do ... while\<close> loop ends: the frame was forwarded (with its
  \<open>header.type\<close>), or the round left through \<open>send_eof\<close>, or through \<open>err\<close> with \<open>ret\<close> and
  \<open>packet_size\<close> (\<open>read_fail\<close> enters \<open>err\<close> with \<open>EBADMSG\<close>).
\<close>

datatype frame_result = Completed byte | SendEof | Err int nat

definition file_read_frame ::
  "32 word \<Rightarrow> stream \<Rightarrow> ps_packet \<Rightarrow> ps_buffer \<Rightarrow> world \<Rightarrow>
   frame_result \<times> stream \<times> ps_packet \<times> ps_buffer \<times> world" where
  "file_read_frame ver h pkt to w =
     (case file_read_header ver h w of
        (None, h1, w1) \<Rightarrow> (SendEof, h1, pkt, to, w1)
      | (Some (htype, glc_ps), h1, w1) \<Rightarrow>
          let packet_size = unat glc_ps in
          case ps_packet_open pkt to w1 of (r1, pkt1, w2) \<Rightarrow>
          if r1 \<noteq> 0 then (Err r1 packet_size, h1, pkt1, to, w2) else
          case ps_packet_write pkt1 [htype] to w2 of (r2, pkt2, w3) \<Rightarrow>
          if r2 \<noteq> 0 then (Err r2 packet_size, h1, pkt2, to, w3) else
          case ps_packet_dma pkt2 packet_size to w3 of (r3, pkt3, w4) \<Rightarrow>
          if r3 \<noteq> 0 then (Err r3 packet_size, h1, pkt3, to, w4) else
          case fread_unlocked packet_size h1 w4 of
            (None, h2, w5) \<Rightarrow> (Err EBADMSG packet_size, h2, pkt3, to, w5)
          | (Some payload, h2, w5) \<Rightarrow>
              case ps_packet_close (pkt3\<lparr>pdata := pdata pkt3 @ payload\<rparr>) to w5 of
                (r4, pkt4, to1, w6) \<Rightarrow>
                if r4 \<noteq> 0 then (Err r4 packet_size, h2, pkt4, to1, w6)
                else (Completed htype, h2, pkt4, to1, w6))"

definition remaining :: "stream \<Rightarrow> nat" where
  "remaining h = length (contents (fd h)) - offset (fd h)"

text \<open>
  The \<open>do ... while\<close> loop of \<open>file_read\<close>. A \<open>Completed\<close> result is the loop ending by its
  condition (control falls into \<open>finish\<close>); the cancellation flag is only consulted when
  the frame was not a close frame (\<open>&&\<close> is short-circuit).
\<close>

function file_read_loop ::
  "32 word \<Rightarrow> stream \<Rightarrow> ps_packet \<Rightarrow> ps_buffer \<Rightarrow> world \<Rightarrow>
   frame_result \<times> stream \<times> ps_packet \<times> ps_buffer \<times> world" where
  "file_read_loop ver h pkt to w =
     (case file_read_frame ver h pkt to w of
        (Completed htype, h1, pkt1, to1, w1) \<Rightarrow>
          if htype \<noteq> GLC_MESSAGE_CLOSE then
            (case glc_state_test_cancel w1 of (c, w2) \<Rightarrow>
               if \<not> c then file_read_loop ver h1 pkt1 to1 w2
               else (Completed htype, h1, pkt1, to1, w2))
          else (Completed htype, h1, pkt1, to1, w1)
      | r \<Rightarrow> r)"
  by pat_completeness auto

text \<open>Label \<open>finish\<close>.\<close>

definition file_read_finish ::
  "'cb file_s \<Rightarrow> stream \<Rightarrow> ps_buffer \<Rightarrow> world \<Rightarrow> int \<times> 'cb file_s \<times> ps_buffer \<times> world" where
  "file_read_finish file h to w =
     (0, file\<lparr>handle := Some h, flags := flags file AND NOT (FILE_INFO_READ OR FILE_INFO_VALID)\<rparr>, to, w)"

text \<open>Label \<open>send_eof\<close>: the results of the three packet calls are not looked at.\<close>

definition file_read_send_eof ::
  "'cb file_s \<Rightarrow> stream \<Rightarrow> ps_packet \<Rightarrow> ps_buffer \<Rightarrow> world \<Rightarrow> int \<times> 'cb file_s \<times> ps_buffer \<times> world" where
  "file_read_send_eof file h pkt to w =
     (case ps_packet_open pkt to w of (_, pkt1, w1) \<Rightarrow>
      case ps_packet_write pkt1 [GLC_MESSAGE_CLOSE] to w1 of (_, pkt2, w2) \<Rightarrow>
      case ps_packet_close pkt2 to w2 of (_, pkt3, to1, w3) \<Rightarrow>
        file_read_finish file h to1 (glc_log GLC_ERROR ''unexpected EOF'' [] w3))"

text \<open>Label \<open>err\<close>.\<close>

definition file_read_err ::
  "'cb file_s \<Rightarrow> int \<Rightarrow> nat \<Rightarrow> stream \<Rightarrow> ps_buffer \<Rightarrow> world \<Rightarrow> int \<times> 'cb file_s \<times> ps_buffer \<times> world" where
  "file_read_err file ret packet_size h to w =
     (if ret = EINTR then file_read_finish file h to w
      else
        (ret,
         file\<lparr>handle := Some h, flags := flags file AND NOT (FILE_INFO_READ OR FILE_INFO_VALID)\<rparr>,
         ps_buffer_cancel to,
         glc_log GLC_DEBUG ''packet size is %zd'' [int packet_size]
           (glc_log GLC_ERROR ''%s (%d)'' [ret] w)))"

definition file_read :: "'cb file_s \<Rightarrow> ps_buffer \<Rightarrow> world \<Rightarrow> int \<times> 'cb file_s \<times> ps_buffer \<times> world" where
  "file_read file to w =
     (case handle file of
        None \<Rightarrow> (EAGAIN, file, to, w)
      | Some h \<Rightarrow>
        if flags file AND FILE_READING = 0 then (EAGAIN, file, to, w)
        else if flags file AND FILE_INFO_READ = 0 then
          (EAGAIN, file, to, glc_log GLC_ERROR ''stream info header not read'' [] w)
        else if flags file AND FILE_INFO_VALID = 0 then
          (EINVAL, file\<lparr>flags := flags file AND NOT FILE_INFO_READ\<rparr>, to,
           glc_log GLC_ERROR ''stream info header not valid'' [] w)
        else
          case file_read_loop (stream_version file) h ps_packet_init to w of
            (Completed _, h1, pkt1, to1, w1) \<Rightarrow> file_read_finish file h1 to1 w1
          | (SendEof, h1, pkt1, to1, w1) \<Rightarrow> file_read_send_eof file h1 pkt1 to1 w1
          | (Err ret packet_size, h1, pkt1, to1, w1) \<Rightarrow> file_read_err file ret packet_size h1 to1 w1)"

subsection \<open>Attaching and closing a target\<close>

definition fstat :: "os_file \<Rightarrow> world \<Rightarrow> int \<times> 32 word \<times> world" where
  "fstat f w =
     (case next_fault w of (e, w') \<Rightarrow>
        if e \<noteq> 0 then (- 1, 0, w'\<lparr>errno := e\<rparr>) else (0, st_mode f, w'))"

definition fchmod :: "os_file \<Rightarrow> 32 word \<Rightarrow> world \<Rightarrow> int \<times> os_file \<times> world" where
  "fchmod f m w =
     (case next_fault w of (e, w') \<Rightarrow>
        if e \<noteq> 0 then (- 1, f, w'\<lparr>errno := e\<rparr>) else (0, f\<lparr>st_mode := m\<rparr>, w'))"

definition ftruncate0 :: "os_file \<Rightarrow> world \<Rightarrow> int \<times> os_file \<times> world" where
  "ftruncate0 f w =
     (case next_fault w of (e, w') \<Rightarrow>
        if e \<noteq> 0 then (- 1, f, w'\<lparr>errno := e\<rparr>) else (0, f\<lparr>contents := []\<rparr>, w'))"

text \<open>
  \<open>lock_reg\<close> with \<open>type = F_WRLCK\<close> over the whole file, as \<open>lockfile\<close> calls it.
  \<open>fcntl\<close> with \<open>F_SETLK\<close> fails at once (\<open>EAGAIN\<close>) when another process holds a
  conflicting lock; with \<open>F_SETLKW\<close> it would wait for the holder, and as long as the
  conflict stands it does not return: that is the result \<open>None\<close>.
\<close>

datatype lock_cmd = F_SETLK | F_SETLKW

definition lock_reg :: "os_file \<Rightarrow> lock_cmd \<Rightarrow> world \<Rightarrow> (int \<times> os_file \<times> world) option" where
  "lock_reg f cmd w =
     (case next_fault w of (e, w') \<Rightarrow>
        if e \<noteq> 0 then Some (- 1, f, w'\<lparr>errno := e\<rparr>)
        else if lock_conflict f then
          (case cmd of F_SETLK \<Rightarrow> Some (- 1, f, w'\<lparr>errno := EAGAIN\<rparr>) | F_SETLKW \<Rightarrow> None)
        else Some (0, f\<lparr>locked := True\<rparr>, w'))"

definition lockfile :: "os_file \<Rightarrow> world \<Rightarrow> (int \<times> os_file \<times> world) option" where
  "lockfile f w = lock_reg f F_SETLK w"

text \<open>
  \<open>file_set_target\<close>. \<open>None\<close> would be a call that never returns. The results of \<open>lseek\<close>
  and \<open>ftruncate\<close> are not looked at.
\<close>

definition file_set_target ::
  "'cb file_s \<Rightarrow> os_file \<Rightarrow> world \<Rightarrow> (int \<times> os_file \<times> 'cb file_s \<times> world) option" where
  "file_set_target file f w =
     (if handle file \<noteq> None then Some (EBUSY, f, file, w)
      else case fstat f w of (r1, mode, w1) \<Rightarrow>
        if r1 < 0 then Some (errno w1, f, file, glc_log GLC_ERROR ''fstat error: %s (%d)'' [errno w1] w1)
        else case fchmod f ((mode AND NOT S_IXGRP) OR S_ISGID) w1 of (r2, f2, w2) \<Rightarrow>
        if r2 < 0 then Some (errno w2, f2, file, glc_log GLC_ERROR ''fchmod error: %s (%d)'' [errno w2] w2)
        else case lockfile f2 w2 of
          None \<Rightarrow> None
        | Some (r3, f3, w3) \<Rightarrow>
        if r3 < 0 then Some (errno w3, f3, file, glc_log GLC_ERROR ''can't lock file: %s (%d)'' [errno w3] w3)
        else case lseek_set0 f3 w3 of (_, f4, w4) \<Rightarrow>
        case ftruncate0 f4 w4 of (_, f5, w5) \<Rightarrow>
        case fdopen f5 w5 of
          (None, w6) \<Rightarrow> Some (errno w6, f5, file, glc_log GLC_ERROR ''fdopen error: %s (%d)'' [errno w6] w6)
        | (Some h, w6) \<Rightarrow> Some (0, f5, file\<lparr>handle := Some h, flags := flags file OR FILE_WRITING\<rparr>, w6))"

definition file_close_target :: "'cb file_s \<Rightarrow> world \<Rightarrow> int \<times> 'cb file_s \<times> world" where
  "file_close_target file w =
     (case handle file of
        None \<Rightarrow> (EAGAIN, file, w)
      | Some h \<Rightarrow>
          if flags file AND FILE_RUNNING \<noteq> 0 \<or> flags file AND FILE_WRITING = 0 then (EAGAIN, file, w)
          else case fclose h w of (r, w1) \<Rightarrow>
            (0, file\<lparr>handle := None,
                     flags := flags file AND NOT (FILE_RUNNING OR FILE_WRITING OR FILE_INFO_WRITTEN)\<rparr>,
             if r \<noteq> 0 then glc_log GLC_ERROR ''can't close file: %s (%d)'' [errno w1] w1 else w1))"

subsection \<open>Writing the stream info, messages and the end of the stream\<close>

text \<open>Label \<open>err\<close> of \<open>file_write_info\<close>.\<close>

definition file_write_info_err :: "'cb file_s \<Rightarrow> stream \<Rightarrow> world \<Rightarrow> int \<times> 'cb file_s \<times> world" where
  "file_write_info_err file h w =
     (errno w, file\<lparr>handle := Some h\<rparr>,
      glc_log GLC_ERROR ''can't write stream information: %s (%d)'' [errno w] w)"

text \<open>
  \<open>file_write_info\<close>. \<open>info_name\<close> and \<open>info_date\<close> are the caller's buffers, of which
  \<open>info->name_size\<close> and \<open>info->date_size\<close> bytes are written (the caller provides at
  least that many).
\<close>

definition file_write_info ::
  "'cb file_s \<Rightarrow> glc_stream_info \<Rightarrow> byte list \<Rightarrow> byte list \<Rightarrow> world \<Rightarrow> int \<times> 'cb file_s \<times> world" where
  "file_write_info file info info_name info_date w =
     (case handle file of
        None \<Rightarrow> (EAGAIN, file, w)
      | Some h \<Rightarrow>
        if flags file AND FILE_RUNNING \<noteq> 0 \<or> flags file AND FILE_WRITING = 0 then (EAGAIN, file, w)
        else case fwrite_unlocked (info_bytes info) h w of (n1, h1, w1) \<Rightarrow>
        if n1 \<noteq> 1 then file_write_info_err file h1 w1
        else case fwrite_unlocked (take (unat (name_size info)) info_name) h1 w1 of (n2, h2, w2) \<Rightarrow>
        if n2 \<noteq> 1 then file_write_info_err file h2 w2
        else case fwrite_unlocked (take (unat (date_size info)) info_date) h2 w2 of (n3, h3, w3) \<Rightarrow>
        if n3 \<noteq> 1 then file_write_info_err file h3 w3
        else if sync file \<noteq> 0 then
          (case fflush_unlocked h3 w3 of (r, h4, w4) \<Rightarrow>
             if r \<noteq> 0 then file_write_info_err file h4 w4
             else (0, file\<lparr>handle := Some h4, flags := flags file OR FILE_INFO_WRITTEN\<rparr>, w4))
        else (0, file\<lparr>handle := Some h3, flags := flags file OR FILE_INFO_WRITTEN\<rparr>, w3))"

text \<open>
  \<open>file_write_message\<close>, on the stream its callers have checked to be there;
  \<open>message_size\<close> is the length of \<open>message\<close>.
\<close>

definition file_write_message ::
  "stream \<Rightarrow> int \<Rightarrow> byte \<Rightarrow> byte list \<Rightarrow> world \<Rightarrow> int \<times> stream \<times> world" where
  "file_write_message h snc htype message w =
     (case fwrite_unlocked (le64 (word_of_nat (length message))) h w of (n1, h1, w1) \<Rightarrow>
      if n1 \<noteq> 1 then (errno w1, h1, w1)
      else case fwrite_unlocked [htype] h1 w1 of (n2, h2, w2) \<Rightarrow>
      if n2 \<noteq> 1 then (errno w2, h2, w2)
      else case (if 0 < length message then fwrite_unlocked message h2 w2 else (1, h2, w2)) of (n3, h3, w3) \<Rightarrow>
      if n3 \<noteq> 1 then (errno w3, h3, w3)
      else if snc \<noteq> 0 then
        (case fflush_unlocked h3 w3 of (r, h4, w4) \<Rightarrow>
           if r \<noteq> 0 then (errno w4, h4, w4) else (0, h4, w4))
      else (0, h3, w3))"

definition file_write_eof :: "'cb file_s \<Rightarrow> world \<Rightarrow> int \<times> 'cb file_s \<times> world" where
  "file_write_eof file w =
     (case handle file of
        None \<Rightarrow> (EAGAIN, file, glc_log GLC_ERROR ''can't write eof: %s (%d)'' [EAGAIN] w)
      | Some h \<Rightarrow>
        if flags file AND FILE_RUNNING \<noteq> 0 \<or> flags file AND FILE_WRITING = 0 then
          (EAGAIN, file, glc_log GLC_ERROR ''can't write eof: %s (%d)'' [EAGAIN] w)
        else case file_write_message h (sync file) GLC_MESSAGE_CLOSE [] w of (ret, h1, w1) \<Rightarrow>
          if ret \<noteq> 0 then
            (ret, file\<lparr>handle := Some h1\<rparr>, glc_log GLC_ERROR ''can't write eof: %s (%d)'' [ret] w1)
          else (0, file\<lparr>handle := Some h1\<rparr>, w1))"

subsection \<open>The write pump\<close>

text \<open>
  Modelled from the spec: the worker thread (glc/common/thread.c) is not part of the
  sources at hand. \<open>glc_thread_create\<close> starts it (and can fail), \<open>glc_thread_wait\<close>
  joins it; in between it hands every frame arriving from the shared buffer to the read
  callback, in order, and stops at the first error.
\<close>

definition glc_thread_create :: "world \<Rightarrow> int \<times> world" where
  "glc_thread_create w = next_fault w"

definition file_write_process_start :: "'cb file_s \<Rightarrow> world \<Rightarrow> int \<times> 'cb file_s \<times> world" where
  "file_write_process_start file w =
     (if handle file = None \<or> flags file AND FILE_RUNNING \<noteq> 0 \<or> flags file AND FILE_WRITING = 0
         \<or> flags file AND FILE_INFO_WRITTEN = 0 then (EAGAIN, file, w)
      else case glc_thread_create w of (ret, w1) \<Rightarrow>
        if ret \<noteq> 0 then (ret, file, w1)
        else (0, file\<lparr>flags := flags file OR FILE_RUNNING\<rparr>, w1))"

definition file_write_process_wait :: "'cb file_s \<Rightarrow> world \<Rightarrow> int \<times> 'cb file_s \<times> world" where
  "file_write_process_wait file w =
     (if handle file = None \<or> flags file AND FILE_RUNNING = 0 \<or> flags file AND FILE_WRITING = 0
         \<or> flags file AND FILE_INFO_WRITTEN = 0 then (EAGAIN, file, w)
      else (0, file\<lparr>flags := flags file AND NOT (FILE_RUNNING OR FILE_INFO_WRITTEN)\<rparr>, w))"

text \<open>
  \<open>glc_thread_state_t\<close> as the read callback sees it: the frame's header and payload;
  \<open>read_size\<close> is the length of \<open>read_data\<close>.
\<close>

record glc_thread_state =
  header_type :: byte
  read_data :: "byte list"

definition read_size :: "glc_thread_state \<Rightarrow> nat" where
  "read_size state = length (read_data state)"

definition tracker_submit :: "'cb file_s \<Rightarrow> glc_thread_state \<Rightarrow> 'cb file_s" where
  "tracker_submit file state =
     file\<lparr>state_tracker := state_tracker file @ [(header_type state, read_data state)]\<rparr>"

text \<open>
  Modelled from the spec: \<open>glc_callback_request_t\<close>, \<open>glc_container_message_header_t\<close> and
  the value of \<open>GLC_CALLBACK_REQUEST\<close> are declared outside the sources at hand. A
  callback request carries one opaque, pointer-sized argument; a container header is
  \<open>inner_length(8) | inner_tag(1)\<close>, 9 bytes; the callback-request tag is the parameter
  \<open>creq\<close> below.
\<close>

definition callback_request_arg :: "byte list \<Rightarrow> 64 word" where
  "callback_request_arg bs = word_of_le (take 8 bs)"

definition container_size :: "byte list \<Rightarrow> nat" where
  "container_size bs = unat (word_of_le (take 8 bs) :: 64 word)"

definition GLC_CONTAINER_MESSAGE_HEADER_SIZE :: nat where
  "GLC_CONTAINER_MESSAGE_HEADER_SIZE = 9"

text \<open>Label \<open>err\<close> of \<open>file_read_callback\<close>.\<close>

definition file_read_callback_err :: "'cb file_s \<Rightarrow> stream \<Rightarrow> world \<Rightarrow> int \<times> 'cb file_s \<times> world" where
  "file_read_callback_err file h w =
     (errno w, file\<lparr>handle := Some h\<rparr>, glc_log GLC_ERROR ''%s (%d)'' [errno w] w)"

text \<open>
  \<open>if (file->sync) if (fflush_unlocked(file->handle)) goto err;\<close> followed by \<open>return 0\<close>.
\<close>

definition file_read_callback_sync :: "'cb file_s \<Rightarrow> stream \<Rightarrow> world \<Rightarrow> int \<times> 'cb file_s \<times> world" where
  "file_read_callback_sync file h w =
     (if sync file \<noteq> 0 then
        (case fflush_unlocked h w of (r, h1, w1) \<Rightarrow>
           if r \<noteq> 0 then file_read_callback_err file h1 w1
           else (0, file\<lparr>handle := Some h1\<rparr>, w1))
      else (0, file\<lparr>handle := Some h\<rparr>, w))"

text \<open>
  \<open>file_read_callback\<close>, the read callback of the write pump. \<open>invoke cb arg\<close> is the call
  \<open>file->callback(arg)\<close>: the callback may use the controller and the environment.
  The two writing branches use \<open>file->handle\<close> unchecked; where it is NULL (undefined
  behaviour in C) the model reports \<open>EINVAL\<close>.
\<close>

definition file_read_callback ::
  "('cb \<Rightarrow> 64 word \<Rightarrow> 'cb file_s \<Rightarrow> world \<Rightarrow> 'cb file_s \<times> world) \<Rightarrow> byte \<Rightarrow>
   'cb file_s \<Rightarrow> glc_thread_state \<Rightarrow> world \<Rightarrow> int \<times> 'cb file_s \<times> world" where
  "file_read_callback invoke creq file0 state w =
     (let file = tracker_submit file0 state in
      if header_type state = creq then
        (case callback file of
           Some cb \<Rightarrow>
             (case invoke cb (callback_request_arg (read_data state))
                     (file\<lparr>flags := flags file AND NOT FILE_RUNNING\<rparr>) w of
                (file1, w1) \<Rightarrow> (0, file1\<lparr>flags := flags file1 OR FILE_RUNNING\<rparr>, w1))
         | None \<Rightarrow> (0, file, w))
      else case handle file of
        None \<Rightarrow> (EINVAL, file, w)
      | Some h \<Rightarrow>
        if header_type state = GLC_MESSAGE_CONTAINER then
          (case fwrite_unlocked
                  (take (GLC_CONTAINER_MESSAGE_HEADER_SIZE + container_size (read_data state))
                     (read_data state)) h w of
             (n1, h1, w1) \<Rightarrow>
               if n1 \<noteq> 1 then file_read_callback_err file h1 w1
               else file_read_callback_sync file h1 w1)
        else
          (case fwrite_unlocked (le64 (word_of_nat (read_size state))) h w of (n1, h1, w1) \<Rightarrow>
           if n1 \<noteq> 1 then file_read_callback_err file h1 w1
           else case fwrite_unlocked [header_type state] h1 w1 of (n2, h2, w2) \<Rightarrow>
           if n2 \<noteq> 1 then file_read_callback_err file h2 w2
           else case fwrite_unlocked (read_data state) h2 w2 of (n3, h3, w3) \<Rightarrow>
           if n3 \<noteq> 1 then file_read_callback_err file h3 w3
           else file_read_callback_sync file h3 w3))"

fun file_write_pump ::
  "('cb \<Rightarrow> 64 word \<Rightarrow> 'cb file_s \<Rightarrow> world \<Rightarrow> 'cb file_s \<times> world) \<Rightarrow> byte \<Rightarrow>
   'cb file_s \<Rightarrow> glc_thread_state list \<Rightarrow> world \<Rightarrow> int \<times> 'cb file_s \<times> world" where
  "file_write_pump invoke creq file [] w = (0, file, w)"
| "file_write_pump invoke creq file (state # states) w =
     (case file_read_callback invoke creq file state w of
        (ret, file1, w1) \<Rightarrow>
          if ret \<noteq> 0 then (ret, file1, w1)
          else file_write_pump invoke creq file1 states w1)"

section \<open>Notions used in the properties\<close>

text \<open>
  A packet of the destination buffer is the one-byte message header followed by the
  payload. A data frame is a packet whose type is not \<open>GLC_MESSAGE_CLOSE\<close>.
\<close>

definition is_data_frame :: "byte list \<Rightarrow> bool" where
  "is_data_frame p = (case p of [] \<Rightarrow> False | t # _ \<Rightarrow> t \<noteq> GLC_MESSAGE_CLOSE)"

text \<open>
  The lifecycle flags agree with each other and with the handle. This holds after
  \<open>file_init\<close> and is kept by attaching and closing a source or a target, by reading and
  writing the stream info, by \<open>file_read\<close>, by \<open>file_write_eof\<close> and by starting and
  waiting for the write pump.
\<close>

definition file_consistent :: "'cb file_s \<Rightarrow> bool" where
  "file_consistent file \<longleftrightarrow>
     (flags file AND FILE_INFO_VALID \<noteq> 0 \<longrightarrow> flags file AND FILE_INFO_READ \<noteq> 0) \<and>
     (flags file AND FILE_INFO_READ \<noteq> 0 \<longrightarrow> flags file AND FILE_READING \<noteq> 0) \<and>
     (flags file AND FILE_READING \<noteq> 0 \<longrightarrow> handle file \<noteq> None \<and> flags file AND FILE_WRITING = 0) \<and>
     (flags file AND FILE_WRITING \<noteq> 0 \<longrightarrow> handle file \<noteq> None)"

text \<open>
  The on-disk layout of a frame as the spec gives it: \<open>length(8) | tag(1) | payload\<close>,
  and for the legacy version 0x03 \<open>tag(1) | length(8) | payload\<close>.
\<close>

definition frame_bytes :: "32 word \<Rightarrow> glc_thread_state \<Rightarrow> byte list" where
  "frame_bytes ver fr =
     (if ver = 0x03 then [header_type fr] @ le64 (word_of_nat (length (read_data fr))) @ read_data fr
      else le64 (word_of_nat (length (read_data fr))) @ [header_type fr] @ read_data fr)"

definition packet_of :: "glc_thread_state \<Rightarrow> byte list" where
  "packet_of fr = header_type fr # read_data fr"

text \<open>Inputs for the examples: a quiet environment, an empty buffer, a file on disk.\<close>

definition quiet_world :: world where
  "quiet_world = \<lparr>errno = 0, faults = [], logged = [], cancel_seq = (\<lambda>k. False), polls = 0, released = []\<rparr>"

definition empty_buffer :: ps_buffer where
  "empty_buffer = \<lparr>packets = [], cancelled = False\<rparr>"

definition disk_file :: "byte list \<Rightarrow> os_file" where
  "disk_file bs = \<lparr>st_mode = 0x1A4, contents = bs, offset = 0, locked = False, lock_conflict = False\<rparr>"

text \<open>A controller attached to a source whose info header has been read and accepted.\<close>

definition reader :: "32 word \<Rightarrow> byte list \<Rightarrow> unit file_s" where
  "reader ver bs = \<lparr>flags = FILE_READING OR FILE_INFO_READ OR FILE_INFO_VALID,
     handle = Some \<lparr>fd = disk_file bs, wbuf = []\<rparr>, sync = 0, stream_version = ver,
     callback = None, state_tracker = []\<rparr>"

text \<open>The components of the result of \<open>file_read\<close>.\<close>

definition read_ret :: "int \<times> 'cb file_s \<times> ps_buffer \<times> world \<Rightarrow> int" where
  "read_ret r = fst r"
definition read_file :: "int \<times> 'cb file_s \<times> ps_buffer \<times> world \<Rightarrow> 'cb file_s" where
  "read_file r = fst (snd r)"
definition read_buffer :: "int \<times> 'cb file_s \<times> ps_buffer \<times> world \<Rightarrow> ps_buffer" where
  "read_buffer r = fst (snd (snd r))"
definition read_world :: "int \<times> 'cb file_s \<times> ps_buffer \<times> world \<Rightarrow> world" where
  "read_world r = snd (snd (snd r))"

text \<open>
  Two files of one frame each, in the current layout: a picture frame with a one-byte
  payload, and a close frame that carries one byte of payload.
\<close>

definition picture_frame :: "byte list" where
  "picture_frame = [1, 0, 0, 0, 0, 0, 0, 0, 2, 0xAA]"

definition long_close_frame :: "byte list" where
  "long_close_frame = [1, 0, 0, 0, 0, 0, 0, 0, 1, 0]"

fun le_bytes :: "nat \<Rightarrow> 'a::len word \<Rightarrow> byte list" where
  "le_bytes 0 w = []"
| "le_bytes (Suc n) w = ucast w # le_bytes n (drop_bit 8 w)"

definition unread :: "stream \<Rightarrow> byte list" where
  "unread h = drop (offset (fd h)) (contents (fd h))"

definition advance :: "nat \<Rightarrow> stream \<Rightarrow> stream" where
  "advance n h = h\<lparr>fd := (fd h)\<lparr>offset := offset (fd h) + n\<rparr>\<rparr>"

definition data_frame :: "glc_thread_state \<Rightarrow> bool" where
  "data_frame fr \<longleftrightarrow>
     header_type fr \<noteq> GLC_MESSAGE_CLOSE \<and> read_data fr \<noteq> [] \<and> length (read_data fr) < 2 ^ 64"

definition frame_header :: "32 word \<Rightarrow> byte \<Rightarrow> 64 word \<Rightarrow> byte list" where
  "frame_header ver t sz = (if ver = 0x03 then t # le64 sz else le64 sz @ [t])"

definition truncated_payload_file :: "byte list" where
  "truncated_payload_file = [2, 0, 0, 0, 0, 0, 0, 0, 2, 0xAA]"

definition truncated_header_file :: "byte list" where
  "truncated_header_file = picture_frame @ [1, 0, 0]"

definition info_ret :: "int \<times> 'o \<times> 'cb file_s \<times> world \<Rightarrow> int" where
  "info_ret r = fst r"

definition info_file :: "int \<times> 'o \<times> 'cb file_s \<times> world \<Rightarrow> 'cb file_s" where
  "info_file r = fst (snd (snd r))"

definition source :: "byte list \<Rightarrow> unit file_s" where
  "source bs = \<lparr>flags = FILE_READING, handle = Some \<lparr>fd = disk_file bs, wbuf = []\<rparr>, sync = 0,
     stream_version = 0, callback = None, state_tracker = []\<rparr>"

definition legacy_info_file :: "byte list" where
  "legacy_info_file = [0x47, 0x4c, 0x43, 0,  3, 0, 0, 0,  0, 0, 0, 0, 0, 0, 0x3e, 0x40,
     0, 0, 0, 0,  1, 0, 0, 0,  2, 0, 0, 0,  1, 0, 0, 0,  0x61, 0,  0]"

definition bad_magic_file :: "byte list" where
  "bad_magic_file = [0, 0, 0, 0,  0, 0, 0, 0,  0, 0, 0, 0, 0, 0, 0, 0,
     0, 0, 0, 0,  0, 0, 0, 0,  0, 0, 0, 0,  0, 0, 0, 0]"

text \<open>The components of the result of an operation that returns a status, the controller and the environment.\<close>

definition op_ret :: "int \<times> 'cb file_s \<times> world \<Rightarrow> int" where
  "op_ret r = fst r"

definition op_file :: "int \<times> 'cb file_s \<times> world \<Rightarrow> 'cb file_s" where
  "op_file r = fst (snd r)"

definition op_world :: "int \<times> 'cb file_s \<times> world \<Rightarrow> world" where
  "op_world r = snd (snd r)"

text \<open>
  What the file holds up to the write position once the stdio buffer is flushed.
\<close>

definition stream_image :: "stream \<Rightarrow> byte list" where
  "stream_image h = take (offset (fd h)) (contents (fd h)) @ wbuf h"

text \<open>A controller attached to an empty, locked target, with the given flags and sync mode.\<close>

definition target :: "32 word \<Rightarrow> int \<Rightarrow> unit file_s" where
  "target fl snc = \<lparr>flags = fl,
     handle = Some \<lparr>fd = (disk_file [])\<lparr>locked := True\<rparr>, wbuf = []\<rparr>, sync = snc,
     stream_version = 0, callback = None, state_tracker = []\<rparr>"

definition demo_info :: glc_stream_info where
  "demo_info = \<lparr>signature = GLC_SIGNATURE, version = GLC_STREAM_VERSION, fps = 0x403e000000000000,
     info_flags = 0, pid = 1, name_size = 2, date_size = 2\<rparr>"

text \<open>
  A callback for the examples: it leaves the controller alone and logs its argument
  and whether it found the running flag set (1) or clear (0).
\<close>

definition noting_callback :: "unit \<Rightarrow> 64 word \<Rightarrow> unit file_s \<Rightarrow> world \<Rightarrow> unit file_s \<times> world" where
  "noting_callback cb arg file w =
     (file, glc_log GLC_INFORMATION ''callback'' [uint arg, if flags file AND FILE_RUNNING = 0 then 0 else 1] w)"

definition callback_request :: "byte \<Rightarrow> glc_thread_state" where
  "callback_request creq = \<lparr>header_type = creq, read_data = [7, 0, 0, 0, 0, 0, 0, 0]\<rparr>"

text \<open>The components of the result of \<open>file_set_target\<close> and \<open>file_set_source\<close>.\<close>

definition attach_ret :: "int \<times> os_file \<times> 'cb file_s \<times> world \<Rightarrow> int" where
  "attach_ret r = fst r"

definition attach_fd :: "int \<times> os_file \<times> 'cb file_s \<times> world \<Rightarrow> os_file" where
  "attach_fd r = fst (snd r)"

definition attach_file :: "int \<times> os_file \<times> 'cb file_s \<times> world \<Rightarrow> 'cb file_s" where
  "attach_file r = fst (snd (snd r))"

definition attach_world :: "int \<times> os_file \<times> 'cb file_s \<times> world \<Rightarrow> world" where
  "attach_world r = snd (snd (snd r))"

text \<open>The mode \<open>fchmod\<close> is given: group-execute off, set-group-ID on.\<close>

definition lock_mode :: "32 word \<Rightarrow> 32 word" where
  "lock_mode m = (m AND NOT S_IXGRP) OR S_ISGID"

definition fresh_file :: "unit file_s" where
  "fresh_file = file_init"

text \<open>The write position is at or past the end of the file: nothing will be overwritten.\<close>

definition at_end :: "stream \<Rightarrow> bool" where
  "at_end h \<longleftrightarrow> length (contents (fd h)) \<le> offset (fd h)"

text \<open>The frames a data-only round trip is about: data frames the write pump re-wraps.\<close>

definition plain_frame :: "byte \<Rightarrow> glc_thread_state \<Rightarrow> bool" where
  "plain_frame creq fr \<longleftrightarrow>
     data_frame fr \<and> header_type fr \<noteq> creq \<and> header_type fr \<noteq> GLC_MESSAGE_CONTAINER"

definition info_world :: "int \<times> 'o \<times> 'cb file_s \<times> world \<Rightarrow> world" where
  "info_world r = snd (snd (snd r))"

definition picture :: glc_thread_state where
  "picture = \<lparr>header_type = 2, read_data = [0xAA]\<rparr>"

text \<open>
  A recorded session, step by step: a fresh controller is attached to a file on disk,
  the stream info (with the given version) is written, the pump is started, handed one
  picture frame and joined, the end of the stream is written and the target closed;
  then a fresh controller is attached to the file left on disk, reads the stream info
  and reads the frames into an empty buffer.
\<close>

definition demo_attached :: "int \<times> os_file \<times> unit file_s \<times> world" where
  "demo_attached = the (file_set_target (snd (file_set_sync file_init 0)) (disk_file [9, 9, 9]) quiet_world)"

definition demo_info_written :: "32 word \<Rightarrow> int \<times> unit file_s \<times> world" where
  "demo_info_written v =
     file_write_info (attach_file demo_attached) (demo_info\<lparr>version := v\<rparr>) [0x61, 0] [0x62, 0]
       (attach_world demo_attached)"

definition demo_started :: "32 word \<Rightarrow> int \<times> unit file_s \<times> world" where
  "demo_started v = file_write_process_start (op_file (demo_info_written v)) (op_world (demo_info_written v))"

definition demo_pumped :: "32 word \<Rightarrow> int \<times> unit file_s \<times> world" where
  "demo_pumped v = file_write_pump noting_callback 0x0b (op_file (demo_started v)) [picture] (op_world (demo_started v))"

definition demo_waited :: "32 word \<Rightarrow> int \<times> unit file_s \<times> world" where
  "demo_waited v = file_write_process_wait (op_file (demo_pumped v)) (op_world (demo_pumped v))"

definition demo_eof :: "32 word \<Rightarrow> int \<times> unit file_s \<times> world" where
  "demo_eof v = file_write_eof (op_file (demo_waited v)) (op_world (demo_waited v))"

definition demo_closed :: "32 word \<Rightarrow> int \<times> unit file_s \<times> world" where
  "demo_closed v = file_close_target (op_file (demo_eof v)) (op_world (demo_eof v))"

definition demo_source :: "32 word \<Rightarrow> int \<times> os_file \<times> unit file_s \<times> world" where
  "demo_source v =
     file_set_source file_init (last (released (op_world (demo_closed v)))) (op_world (demo_closed v))"

definition demo_info_read ::
  "32 word \<Rightarrow> int \<times> (glc_stream_info option \<times> byte list option \<times> byte list option) \<times> unit file_s \<times> world" where
  "demo_info_read v = file_read_info (attach_file (demo_source v)) (attach_world (demo_source v))"

definition demo_read :: "32 word \<Rightarrow> int \<times> unit file_s \<times> ps_buffer \<times> world" where
  "demo_read v = file_read (info_file (demo_info_read v)) empty_buffer (info_world (demo_info_read v))"

text \<open>
  The state in which round \<open>k\<close> of the \<open>do ... while\<close> loop of \<open>file_read\<close> begins (rounds
  are counted from 0), \<open>None\<close> when the loop ends before. A round is followed by another
  when its frame was forwarded, was not a close frame, and the cancellation flag was
  seen clear.
\<close>

fun file_read_round ::
  "nat \<Rightarrow> 32 word \<Rightarrow> stream \<Rightarrow> ps_packet \<Rightarrow> ps_buffer \<Rightarrow> world \<Rightarrow>
   (stream \<times> ps_packet \<times> ps_buffer \<times> world) option" where
  "file_read_round 0 ver h pkt to w = Some (h, pkt, to, w)"
| "file_read_round (Suc k) ver h pkt to w =
     (case file_read_frame ver h pkt to w of
        (Completed htype, h1, pkt1, to1, w1) \<Rightarrow>
          if htype \<noteq> GLC_MESSAGE_CLOSE then
            (case glc_state_test_cancel w1 of (c, w2) \<Rightarrow>
               if \<not> c then file_read_round k ver h1 pkt1 to1 w2 else None)
          else None
      | _ \<Rightarrow> None)"

text \<open>
  What the caller sees of a read that left the loop through \<open>err\<close> with \<open>ret = e\<close> and
  \<open>packet_size = n\<close>, where \<open>to\<close> is the buffer as the failing round found it and \<open>w\<close> the
  environment the read started in: nothing more is forwarded and both info flags are
  clear; for \<open>EINTR\<close> the read returns 0, logs nothing and leaves the buffer's cancelled
  state alone; for any other error it returns the error, cancels the buffer and logs
  the error and the packet size.
\<close>

definition read_failed ::
  "int \<Rightarrow> nat \<Rightarrow> ps_buffer \<Rightarrow> world \<Rightarrow> int \<times> 'cb file_s \<times> ps_buffer \<times> world \<Rightarrow> bool" where
  "read_failed e n to w r \<longleftrightarrow>
     packets (read_buffer r) = packets to \<and>
     flags (read_file r) AND FILE_INFO_READ = 0 \<and> flags (read_file r) AND FILE_INFO_VALID = 0 \<and>
     (if e = EINTR
      then read_ret r = 0 \<and> cancelled (read_buffer r) = cancelled to \<and>
           logged (read_world r) = logged w
      else read_ret r = e \<and> cancelled (read_buffer r) \<and>
           logged (read_world r) = logged w @
             [(GLC_ERROR, ''%s (%d)'', [e]), (GLC_DEBUG, ''packet size is %zd'', [int n])])"

text \<open>More inputs for the examples: two picture frames, and a stream info without its blocks.\<close>

definition two_pictures :: "byte list" where
  "two_pictures = picture_frame @ picture_frame"

definition info_without_blocks :: "byte list" where
  "info_without_blocks = [0x47, 0x4c, 0x43, 0,  2, 0, 0, 0,  0, 0, 0, 0, 0, 0, 0x3e, 0x40,
     0, 0, 0, 0,  1, 0, 0, 0,  2, 0, 0, 0,  1, 0, 0, 0]"

section \<open>Basic facts\<close>

lemma fread_Some_remaining:
  "fread_unlocked n h w = (Some bs, h1, w1) \<Longrightarrow> remaining h1 < remaining h"
  by (auto simp: fread_unlocked_def remaining_def split: if_splits prod.splits)

lemma file_read_header_remaining:
  "file_read_header ver h w = (Some x, h1, w1) \<Longrightarrow> remaining h1 < remaining h"
  by (auto simp: file_read_header_def split: if_splits prod.splits option.splits
      dest!: fread_Some_remaining)

lemma file_read_frame_remaining:
  "file_read_frame ver h pkt to w = (Completed t, h1, pkt1, to1, w1) \<Longrightarrow> remaining h1 < remaining h"
  by (auto simp: file_read_frame_def Let_def split: if_splits prod.splits option.splits
      dest!: fread_Some_remaining file_read_header_remaining)

termination file_read_loop
  apply (relation "measure (\<lambda>(ver, h, pkt, to, w). remaining h)")
   apply simp
  apply (auto dest: file_read_frame_remaining[OF sym])
  done

lemma errno_nonzero [simp]:
  "EINTR \<noteq> 0" "EAGAIN \<noteq> 0" "EBUSY \<noteq> 0" "EINVAL \<noteq> 0" "EBADMSG \<noteq> 0" "ENOTSUP \<noteq> 0"
  "0 \<noteq> EINTR" "0 \<noteq> EAGAIN" "0 \<noteq> EBUSY" "0 \<noteq> EINVAL" "0 \<noteq> EBADMSG" "0 \<noteq> ENOTSUP"
  "EBADMSG \<noteq> EINTR"
  by (simp_all add: EINTR_def EAGAIN_def EBUSY_def EINVAL_def EBADMSG_def ENOTSUP_def)

lemma next_fault_nil: "faults w = [] \<Longrightarrow> next_fault w = (0, w)"
  by (simp add: next_fault_def)

lemma next_fault_keeps:
  "next_fault w = (e, w1) \<Longrightarrow>
     polls w1 = polls w \<and> cancel_seq w1 = cancel_seq w \<and> logged w1 = logged w \<and> released w1 = released w"
  by (auto simp: next_fault_def split: list.splits)

lemma fread_keeps:
  "fread_unlocked n h w = (r, h1, w1) \<Longrightarrow>
     polls w1 = polls w \<and> cancel_seq w1 = cancel_seq w \<and> logged w1 = logged w"
  by (auto simp: fread_unlocked_def split: if_splits prod.splits dest!: next_fault_keeps)

lemma file_read_header_keeps:
  "file_read_header ver h w = (r, h1, w1) \<Longrightarrow>
     polls w1 = polls w \<and> cancel_seq w1 = cancel_seq w \<and> logged w1 = logged w"
  by (auto simp: file_read_header_def split: if_splits prod.splits option.splits dest!: fread_keeps)

lemma ps_packet_open_keeps:
  "ps_packet_open pkt to w = (r, pkt1, w1) \<Longrightarrow>
     polls w1 = polls w \<and> cancel_seq w1 = cancel_seq w \<and> logged w1 = logged w \<and>
     (r = 0 \<longrightarrow> is_open pkt1 \<and> pdata pkt1 = [] \<and> \<not> cancelled to)"
  by (auto simp: ps_packet_open_def split: if_splits prod.splits dest!: next_fault_keeps)

lemma ps_packet_write_keeps:
  "ps_packet_write pkt data to w = (r, pkt1, w1) \<Longrightarrow>
     polls w1 = polls w \<and> cancel_seq w1 = cancel_seq w \<and> logged w1 = logged w \<and>
     (r = 0 \<longrightarrow> is_open pkt1 \<and> pdata pkt1 = pdata pkt @ data)"
  by (auto simp: ps_packet_write_def split: if_splits prod.splits dest!: next_fault_keeps)

lemma ps_packet_dma_keeps:
  "ps_packet_dma pkt n to w = (r, pkt1, w1) \<Longrightarrow>
     polls w1 = polls w \<and> cancel_seq w1 = cancel_seq w \<and> logged w1 = logged w \<and> pkt1 = pkt"
  by (auto simp: ps_packet_dma_def split: if_splits prod.splits dest!: next_fault_keeps)

lemma ps_packet_close_keeps:
  "ps_packet_close pkt to w = (r, pkt1, to1, w1) \<Longrightarrow>
     polls w1 = polls w \<and> cancel_seq w1 = cancel_seq w \<and> logged w1 = logged w \<and>
     cancelled to1 = cancelled to \<and>
     (if r = 0 then packets to1 = packets to @ [pdata pkt] else to1 = to)"
  by (auto simp: ps_packet_close_def split: if_splits prod.splits dest!: next_fault_keeps)

lemma file_read_frame_effect:
  assumes "file_read_frame ver h pkt to w = (r, h1, pkt1, to1, w1)"
  shows "polls w1 = polls w \<and> cancel_seq w1 = cancel_seq w \<and> logged w1 = logged w \<and>
         cancelled to1 = cancelled to \<and>
         (case r of Completed t \<Rightarrow> (\<exists>payload. packets to1 = packets to @ [t # payload])
          | _ \<Rightarrow> to1 = to)"
  using assms
  apply (simp add: file_read_frame_def Let_def split: prod.splits option.splits if_splits)
  apply (auto dest!: file_read_header_keeps ps_packet_open_keeps ps_packet_write_keeps
      ps_packet_dma_keeps ps_packet_close_keeps fread_keeps)
  done

lemma file_read_loop_effect:
  "file_read_loop ver h pkt to w = (r, h1, pkt1, to1, w1) \<Longrightarrow>
     cancel_seq w1 = cancel_seq w \<and> logged w1 = logged w \<and> cancelled to1 = cancelled to \<and>
     (\<exists>ps. packets to1 = packets to @ ps \<and>
        polls w1 = polls w + length (filter is_data_frame ps) \<and>
        (case r of
           Completed t \<Rightarrow> (\<exists>qs payload. ps = qs @ [t # payload] \<and> (\<forall>p\<in>set qs. is_data_frame p))
         | _ \<Rightarrow> \<forall>p\<in>set ps. is_data_frame p) \<and>
        (\<forall>k. polls w \<le> k \<and> k < polls w1 \<and> cancel_seq w k \<longrightarrow>
           Suc k = polls w1 \<and> (\<exists>t. r = Completed t \<and> t \<noteq> GLC_MESSAGE_CLOSE)))"
proof (induction ver h pkt to w arbitrary: r h1 pkt1 to1 w1 rule: file_read_loop.induct)
  case (1 ver h pkt to w)
  obtain r0 h0 pkt0 to0 w0 where fr: "file_read_frame ver h pkt to w = (r0, h0, pkt0, to0, w0)"
    by (metis prod_cases5)
  note eff = file_read_frame_effect[OF fr]
  show ?case
  proof (cases r0)
    case (Completed t)
    from eff Completed obtain payload where pk: "packets to0 = packets to @ [t # payload]"
      by auto
    show ?thesis
    proof (cases "t = GLC_MESSAGE_CLOSE")
      case True
      with "1.prems" fr Completed have "r = Completed t \<and> h1 = h0 \<and> pkt1 = pkt0 \<and> to1 = to0 \<and> w1 = w0"
        by (subst (asm) file_read_loop.simps) simp
      with eff pk True show ?thesis by (auto simp: is_data_frame_def)
    next
      case False
      show ?thesis
      proof (cases "cancel_seq w0 (polls w0)")
        case True
        with "1.prems" fr Completed False
        have "r = Completed t \<and> h1 = h0 \<and> pkt1 = pkt0 \<and> to1 = to0 \<and> w1 = w0\<lparr>polls := Suc (polls w0)\<rparr>"
          by (subst (asm) file_read_loop.simps) (auto simp: glc_state_test_cancel_def)
        with eff pk False True show ?thesis by (auto simp: less_Suc_eq_le is_data_frame_def)
      next
        case nc: False
        let ?w2 = "w0\<lparr>polls := Suc (polls w0)\<rparr>"
        from "1.prems" fr Completed False nc
        have rec: "file_read_loop ver h0 pkt0 to0 ?w2 = (r, h1, pkt1, to1, w1)"
          by (subst (asm) file_read_loop.simps) (auto simp: glc_state_test_cancel_def)
        have poll: "(False, ?w2) = glc_state_test_cancel w0"
          using nc by (simp add: glc_state_test_cancel_def)
        have ih: "cancel_seq w1 = cancel_seq ?w2 \<and> logged w1 = logged ?w2 \<and> cancelled to1 = cancelled to0 \<and>
          (\<exists>ps. packets to1 = packets to0 @ ps \<and>
            polls w1 = polls ?w2 + length (filter is_data_frame ps) \<and>
            (case r of
               Completed t \<Rightarrow> (\<exists>qs payload. ps = qs @ [t # payload] \<and> (\<forall>p\<in>set qs. is_data_frame p))
             | _ \<Rightarrow> \<forall>p\<in>set ps. is_data_frame p) \<and>
            (\<forall>k. polls ?w2 \<le> k \<and> k < polls w1 \<and> cancel_seq ?w2 k \<longrightarrow>
               Suc k = polls w1 \<and> (\<exists>t. r = Completed t \<and> t \<noteq> GLC_MESSAGE_CLOSE)))"
          by (rule "1.IH"[OF fr[symmetric] Completed refl refl refl False poll _ rec]) simp
        then obtain ps where ps: "packets to1 = packets to0 @ ps"
            "polls w1 = polls ?w2 + length (filter is_data_frame ps)"
            "(case r of
               Completed t \<Rightarrow> (\<exists>qs payload. ps = qs @ [t # payload] \<and> (\<forall>p\<in>set qs. is_data_frame p))
             | _ \<Rightarrow> \<forall>p\<in>set ps. is_data_frame p)"
            "\<forall>k. polls ?w2 \<le> k \<and> k < polls w1 \<and> cancel_seq ?w2 k \<longrightarrow>
               Suc k = polls w1 \<and> (\<exists>t. r = Completed t \<and> t \<noteq> GLC_MESSAGE_CLOSE)"
          by blast
        have df: "is_data_frame (t # payload)"
          using False by (simp add: is_data_frame_def)
        have basics: "cancel_seq w1 = cancel_seq w \<and> logged w1 = logged w \<and> cancelled to1 = cancelled to"
          using ih eff by simp
        have a: "packets to1 = packets to @ ((t # payload) # ps)"
          using ps(1) pk by simp
        have b: "polls w1 = polls w + length (filter is_data_frame ((t # payload) # ps))"
          using ps(2) eff df by simp
        have c: "(case r of
               Completed t' \<Rightarrow> (\<exists>qs payload'. (t # payload) # ps = qs @ [t' # payload'] \<and>
                  (\<forall>p\<in>set qs. is_data_frame p))
             | _ \<Rightarrow> \<forall>p\<in>set ((t # payload) # ps). is_data_frame p)"
        proof (cases r)
          case (Completed t')
          with ps(3) obtain qs payload' where "ps = qs @ [t' # payload']" "\<forall>p\<in>set qs. is_data_frame p"
            by auto
          then have "(t # payload) # ps = ((t # payload) # qs) @ [t' # payload'] \<and>
              (\<forall>p\<in>set ((t # payload) # qs). is_data_frame p)"
            using df by simp
          then show ?thesis using Completed by (simp del: append_Cons)
        qed (use ps(3) df in auto)
        have d: "\<forall>k. polls w \<le> k \<and> k < polls w1 \<and> cancel_seq w k \<longrightarrow>
               Suc k = polls w1 \<and> (\<exists>t. r = Completed t \<and> t \<noteq> GLC_MESSAGE_CLOSE)"
        proof (intro allI impI)
          fix k assume k: "polls w \<le> k \<and> k < polls w1 \<and> cancel_seq w k"
          have "k \<noteq> polls w" using k nc eff by auto
          with k have "polls ?w2 \<le> k" using eff by simp
          moreover have "cancel_seq ?w2 k" using k eff by simp
          ultimately show "Suc k = polls w1 \<and> (\<exists>t. r = Completed t \<and> t \<noteq> GLC_MESSAGE_CLOSE)"
            using ps(4) k by blast
        qed
        from basics a b c d show ?thesis by blast
      qed
    qed
  next
    case SendEof
    with "1.prems" fr have "r = SendEof \<and> h1 = h0 \<and> pkt1 = pkt0 \<and> to1 = to0 \<and> w1 = w0"
      by (subst (asm) file_read_loop.simps) simp
    with eff SendEof show ?thesis by auto
  next
    case (Err e n)
    with "1.prems" fr have "r = Err e n \<and> h1 = h0 \<and> pkt1 = pkt0 \<and> to1 = to0 \<and> w1 = w0"
      by (subst (asm) file_read_loop.simps) simp
    with eff Err show ?thesis by auto
  qed
qed

lemma flag_pow:
  "FILE_READING = 2 ^ 0" "FILE_WRITING = 2 ^ 1" "FILE_RUNNING = 2 ^ 2"
  "FILE_INFO_WRITTEN = 2 ^ 3" "FILE_INFO_READ = 2 ^ 4" "FILE_INFO_VALID = 2 ^ 5"
  by (simp_all add: FILE_READING_def FILE_WRITING_def FILE_RUNNING_def
      FILE_INFO_WRITTEN_def FILE_INFO_READ_def FILE_INFO_VALID_def)

lemma flag_test:
  "(x AND FILE_READING = 0) = (\<not> bit x 0)"
  "(x AND FILE_WRITING = 0) = (\<not> bit x 1)"
  "(x AND FILE_RUNNING = 0) = (\<not> bit x 2)"
  "(x AND FILE_INFO_WRITTEN = 0) = (\<not> bit x 3)"
  "(x AND FILE_INFO_READ = 0) = (\<not> bit x 4)"
  "(x AND FILE_INFO_VALID = 0) = (\<not> bit x 5)"
  unfolding flag_pow by (rule and_exp_eq_0_iff_not_bit)+

lemma bit_pow32: "m < 32 \<Longrightarrow> bit (2 ^ m :: 32 word) n = (n = m)"
  by (auto simp: bit_exp_iff)

lemma flag_bit:
  "bit FILE_READING n = (n = 0)"
  "bit FILE_WRITING n = (n = 1)"
  "bit FILE_RUNNING n = (n = 2)"
  "bit FILE_INFO_WRITTEN n = (n = 3)"
  "bit FILE_INFO_READ n = (n = 4)"
  "bit FILE_INFO_VALID n = (n = 5)"
  using bit_pow32[of 0 n] bit_pow32[of 1 n] bit_pow32[of 2 n] bit_pow32[of 3 n]
    bit_pow32[of 4 n] bit_pow32[of 5 n]
  unfolding flag_pow by simp_all

lemmas flag_simps = flag_test flag_bit bit_or_iff bit_and_iff bit_not_iff

lemma file_consistent_init: "file_consistent file_init"
  by (simp add: file_consistent_def file_init_def)

lemma file_consistent_set_source:
  "file_consistent file \<Longrightarrow> file_set_source file f w = (ret, f1, file1, w1) \<Longrightarrow> file_consistent file1"
  by (auto simp: file_consistent_def file_set_source_def flag_simps split: if_splits prod.splits option.splits)

lemma file_consistent_close_source:
  "file_consistent file \<Longrightarrow> file_close_source file w = (ret, file1, w1) \<Longrightarrow> file_consistent file1"
  by (auto simp: file_consistent_def file_close_source_def flag_simps split: if_splits prod.splits option.splits)

lemma file_read_info_flags:
  assumes "file_read_info file w = (ret, out, file1, w1)"
  shows "(flags file1 = flags file \<or>
          (handle file \<noteq> None \<and> flags file AND FILE_READING \<noteq> 0 \<and>
            (flags file1 = flags file OR FILE_INFO_READ \<or>
             flags file1 = (flags file OR FILE_INFO_READ) OR FILE_INFO_VALID))) \<and>
         (handle file1 = None \<longleftrightarrow> handle file = None)"
  using assms
  apply (simp add: file_read_info_def Let_def split: option.splits if_splits prod.splits bool.splits)
                apply auto
  done

lemma file_consistent_read_info:
  "file_consistent file \<Longrightarrow> file_read_info file w = (ret, out, file1, w1) \<Longrightarrow> file_consistent file1"
  apply (drule file_read_info_flags)
  apply (auto simp: file_consistent_def flag_simps)
  done

lemma file_read_cases:
  assumes "file_read file to w = (ret, file1, to1, w1)"
  shows "(file1 = file \<and> to1 = to \<and> ret = EAGAIN \<and>
            (handle file = None \<or> flags file AND FILE_READING = 0 \<or> flags file AND FILE_INFO_READ = 0))
       \<or> (file1 = file\<lparr>flags := flags file AND NOT FILE_INFO_READ\<rparr> \<and> to1 = to \<and> ret = EINVAL \<and>
            handle file \<noteq> None \<and> flags file AND FILE_READING \<noteq> 0 \<and> flags file AND FILE_INFO_READ \<noteq> 0 \<and>
            flags file AND FILE_INFO_VALID = 0)
       \<or> (\<exists>h1. file1 = file\<lparr>handle := Some h1, flags := flags file AND NOT (FILE_INFO_READ OR FILE_INFO_VALID)\<rparr>
             \<and> handle file \<noteq> None \<and> flags file AND FILE_READING \<noteq> 0 \<and> flags file AND FILE_INFO_READ \<noteq> 0
             \<and> flags file AND FILE_INFO_VALID \<noteq> 0)"
proof (cases "handle file")
  case None
  with assms show ?thesis by (simp add: file_read_def)
next
  case (Some h)
  show ?thesis
  proof (cases "flags file AND FILE_READING = 0 \<or> flags file AND FILE_INFO_READ = 0 \<or> flags file AND FILE_INFO_VALID = 0")
    case True
    with assms Some show ?thesis by (auto simp: file_read_def split: if_splits)
  next
    case False
    obtain r h1 pkt1 to0 w0 where
      lp: "file_read_loop (stream_version file) h ps_packet_init to w = (r, h1, pkt1, to0, w0)"
      by (metis prod_cases5)
    with assms Some False show ?thesis
      by (cases r)
         (auto simp: file_read_def file_read_finish_def file_read_send_eof_def file_read_err_def
            split: if_splits prod.splits)
  qed
qed

lemma file_consistent_read:
  "file_consistent file \<Longrightarrow> file_read file to w = (ret, file1, to1, w1) \<Longrightarrow> file_consistent file1"
  by (drule file_read_cases) (auto simp: file_consistent_def flag_simps)

lemma file_read_not_ready:
  assumes "flags file AND FILE_INFO_READ = 0"
  shows "\<exists>w1. file_read file to w = (EAGAIN, file, to, w1)"
  using assms by (simp add: file_read_def split: option.splits)

lemma file_read_not_valid:
  assumes "flags file AND FILE_INFO_VALID = 0"
  shows "\<exists>ret file1 w1. file_read file to w = (ret, file1, to, w1) \<and> (ret = EAGAIN \<or> ret = EINVAL) \<and>
           handle file1 = handle file \<and> flags file1 AND FILE_INFO_VALID = 0"
proof -
  obtain ret file1 to1 w1 where rd: "file_read file to w = (ret, file1, to1, w1)"
    by (metis prod_cases4)
  from file_read_cases[OF rd] assms
  have "to1 = to \<and> (ret = EAGAIN \<or> ret = EINVAL) \<and> handle file1 = handle file \<and>
      flags file1 AND FILE_INFO_VALID = 0"
    by (auto simp: flag_simps)
  with rd show ?thesis by blast
qed

lemma file_read_info_failed:
  assumes "file_read_info file w = (ret, out, file1, w1)" and "ret \<noteq> 0"
    and "flags file AND FILE_INFO_VALID = 0"
  shows "flags file1 AND FILE_INFO_VALID = 0"
proof -
  from assms(1,2) have "flags file1 = flags file \<or> flags file1 = flags file OR FILE_INFO_READ"
    apply (simp add: file_read_info_def Let_def split: option.splits if_splits prod.splits bool.splits)
                  apply auto
    done
  with assms(3) show ?thesis by (auto simp: flag_simps)
qed

lemma file_consistent_set_target:
  "file_consistent file \<Longrightarrow> file_set_target file f w = Some (ret, f1, file1, w1) \<Longrightarrow> file_consistent file1"
  by (auto simp: file_consistent_def file_set_target_def flag_simps
      split: if_splits prod.splits option.splits)

lemma file_consistent_close_target:
  "file_consistent file \<Longrightarrow> file_close_target file w = (ret, file1, w1) \<Longrightarrow> file_consistent file1"
  by (auto simp: file_consistent_def file_close_target_def flag_simps
      split: if_splits prod.splits option.splits)

lemma file_write_info_keeps:
  "file_write_info file info nm dt w = (ret, file1, w1) \<Longrightarrow>
     (handle file1 = None \<longleftrightarrow> handle file = None) \<and>
     (flags file1 = flags file \<or> flags file1 = flags file OR FILE_INFO_WRITTEN)"
  by (auto simp: file_write_info_def file_write_info_err_def
      split: if_splits prod.splits option.splits)

lemma file_consistent_write_info:
  "file_consistent file \<Longrightarrow> file_write_info file info nm dt w = (ret, file1, w1) \<Longrightarrow> file_consistent file1"
  by (drule file_write_info_keeps) (auto simp: file_consistent_def flag_simps)

lemma file_write_eof_keeps:
  "file_write_eof file w = (ret, file1, w1) \<Longrightarrow>
     (handle file1 = None \<longleftrightarrow> handle file = None) \<and> flags file1 = flags file"
  by (auto simp: file_write_eof_def split: if_splits prod.splits option.splits)

lemma file_consistent_write_eof:
  "file_consistent file \<Longrightarrow> file_write_eof file w = (ret, file1, w1) \<Longrightarrow> file_consistent file1"
  by (drule file_write_eof_keeps) (auto simp: file_consistent_def)

lemma file_consistent_write_process_start:
  "file_consistent file \<Longrightarrow> file_write_process_start file w = (ret, file1, w1) \<Longrightarrow> file_consistent file1"
  by (auto simp: file_consistent_def file_write_process_start_def flag_simps
      split: if_splits prod.splits)

lemma file_consistent_write_process_wait:
  "file_consistent file \<Longrightarrow> file_write_process_wait file w = (ret, file1, w1) \<Longrightarrow> file_consistent file1"
  by (auto simp: file_consistent_def file_write_process_wait_def flag_simps
      split: if_splits prod.splits)

lemma file_read_frame_closed:
  "file_read_frame ver h pkt to w = (r, h1, pkt1, to1, w1) \<Longrightarrow> \<not> is_open pkt \<Longrightarrow>
     r = SendEof \<or> (\<exists>t. r = Completed t) \<Longrightarrow> \<not> is_open pkt1"
  by (auto simp: file_read_frame_def Let_def ps_packet_close_def
      split: prod.splits option.splits if_splits)

lemma file_read_loop_closed:
  "file_read_loop ver h pkt to w = (SendEof, h1, pkt1, to1, w1) \<Longrightarrow> \<not> is_open pkt \<Longrightarrow> \<not> is_open pkt1"
proof (induction ver h pkt to w rule: file_read_loop.induct)
  case (1 ver h pkt to w)
  obtain r0 h0 pkt0 to0 w0 where fr: "file_read_frame ver h pkt to w = (r0, h0, pkt0, to0, w0)"
    by (metis prod_cases5)
  show ?case
  proof (cases r0)
    case (Completed t)
    with file_read_frame_closed[OF fr "1.prems"(2)] have cl: "\<not> is_open pkt0" by simp
    let ?w2 = "w0\<lparr>polls := Suc (polls w0)\<rparr>"
    from "1.prems"(1) fr Completed
    have c: "t \<noteq> GLC_MESSAGE_CLOSE \<and> \<not> cancel_seq w0 (polls w0) \<and>
      file_read_loop ver h0 pkt0 to0 ?w2 = (SendEof, h1, pkt1, to1, w1)"
      by (subst (asm) file_read_loop.simps) (auto simp: glc_state_test_cancel_def split: if_splits)
    then have poll: "(False, ?w2) = glc_state_test_cancel w0"
      by (simp add: glc_state_test_cancel_def)
    from c have ne: "t \<noteq> GLC_MESSAGE_CLOSE" and rec: "file_read_loop ver h0 pkt0 to0 ?w2 = (SendEof, h1, pkt1, to1, w1)"
      by simp_all
    show ?thesis
      by (rule "1.IH"[OF fr[symmetric] Completed refl refl refl ne poll _ rec cl]) simp
  next
    case SendEof
    with "1.prems"(1) fr have "pkt1 = pkt0"
      by (subst (asm) file_read_loop.simps) simp
    with file_read_frame_closed[OF fr "1.prems"(2)] SendEof show ?thesis by simp
  next
    case (Err e n)
    with "1.prems"(1) fr show ?thesis
      by (subst (asm) file_read_loop.simps) simp
  qed
qed

lemma file_read_send_eof_effect:
  assumes "file_read_send_eof file h pkt to w = (ret, file1, to1, w1)" and "\<not> is_open pkt"
  shows "ret = 0 \<and> flags file1 = flags file AND NOT (FILE_INFO_READ OR FILE_INFO_VALID) \<and>
         cancelled to1 = cancelled to \<and> polls w1 = polls w \<and> cancel_seq w1 = cancel_seq w \<and>
         logged w1 = logged w @ [(GLC_ERROR, ''unexpected EOF'', [])] \<and>
         (\<exists>ex. packets to1 = packets to @ ex \<and> filter is_data_frame ex = [])"
proof -
  obtain r1 pkt1 wa where o: "ps_packet_open pkt to w = (r1, pkt1, wa)" by (metis prod_cases3)
  obtain r2 pkt2 wb where wr: "ps_packet_write pkt1 [GLC_MESSAGE_CLOSE] to wa = (r2, pkt2, wb)"
    by (metis prod_cases3)
  obtain r3 pkt3 to3 wc where cl: "ps_packet_close pkt2 to wb = (r3, pkt3, to3, wc)"
    by (metis prod_cases4)
  note ko = ps_packet_open_keeps[OF o] and kw = ps_packet_write_keeps[OF wr]
    and kc = ps_packet_close_keeps[OF cl]
  have res: "ret = 0 \<and> file1 = file\<lparr>handle := Some h, flags := flags file AND NOT (FILE_INFO_READ OR FILE_INFO_VALID)\<rparr>
      \<and> to1 = to3 \<and> w1 = glc_log GLC_ERROR ''unexpected EOF'' [] wc"
    using assms(1) o wr cl by (simp add: file_read_send_eof_def file_read_finish_def)
  have pd: "pdata pkt2 = [] \<or> pdata pkt2 = [GLC_MESSAGE_CLOSE] \<or> r3 \<noteq> 0"
    using o wr cl assms(2)
    by (auto simp: ps_packet_open_def ps_packet_write_def ps_packet_close_def
        split: if_splits prod.splits)
  have "\<exists>ex. packets to3 = packets to @ ex \<and> filter is_data_frame ex = []"
  proof (cases "r3 = 0")
    case True
    with kc pd have "packets to3 = packets to @ [pdata pkt2]" "filter is_data_frame [pdata pkt2] = []"
      by (auto simp: is_data_frame_def)
    then show ?thesis by blast
  next
    case False
    with kc show ?thesis by auto
  qed
  with res ko kw kc show ?thesis by (auto simp: glc_log_def)
qed

lemma file_read_pump:
  assumes "handle file = Some h" "flags file AND FILE_READING \<noteq> 0"
    "flags file AND FILE_INFO_READ \<noteq> 0" "flags file AND FILE_INFO_VALID \<noteq> 0"
  shows "file_read file to w =
    (case file_read_loop (stream_version file) h ps_packet_init to w of
            (Completed _, h1, pkt1, to1, w1) \<Rightarrow> file_read_finish file h1 to1 w1
          | (SendEof, h1, pkt1, to1, w1) \<Rightarrow> file_read_send_eof file h1 pkt1 to1 w1
          | (Err ret packet_size, h1, pkt1, to1, w1) \<Rightarrow> file_read_err file ret packet_size h1 to1 w1)"
  using assms by (simp add: file_read_def)

lemma info_result4: "r = (info_ret r, fst (snd r), info_file r, info_world r)"
  by (simp add: info_ret_def info_file_def info_world_def)

lemma read_result: "r = (read_ret r, read_file r, read_buffer r, read_world r)"
  by (simp add: read_ret_def read_file_def read_buffer_def read_world_def)

lemmas flag_defs = FILE_READING_def FILE_WRITING_def FILE_RUNNING_def
  FILE_INFO_WRITTEN_def FILE_INFO_READ_def FILE_INFO_VALID_def

lemma reader_pre:
  "handle (reader ver bs) = Some \<lparr>fd = disk_file bs, wbuf = []\<rparr>"
  "flags (reader ver bs) AND FILE_READING \<noteq> 0"
  "flags (reader ver bs) AND FILE_INFO_READ \<noteq> 0"
  "flags (reader ver bs) AND FILE_INFO_VALID \<noteq> 0"
  by (simp_all add: reader_def flag_defs)

lemma file_read_round_step:
  assumes "file_read_round (Suc k) ver h pkt to w = Some s"
  shows "\<exists>t h1 pkt1 to1 w1.
           file_read_frame ver h pkt to w = (Completed t, h1, pkt1, to1, w1) \<and>
           t \<noteq> GLC_MESSAGE_CLOSE \<and> \<not> cancel_seq w1 (polls w1) \<and>
           file_read_round k ver h1 pkt1 to1 (w1\<lparr>polls := Suc (polls w1)\<rparr>) = Some s"
proof -
  obtain r0 h0 pkt0 to0 w0 where fr: "file_read_frame ver h pkt to w = (r0, h0, pkt0, to0, w0)"
    by (metis prod_cases5)
  with assms show ?thesis
    by (cases r0) (auto simp: glc_state_test_cancel_def split: if_splits)
qed

lemma file_read_round_loop:
  "file_read_round k ver h pkt to w = Some (hk, pk, tok, wk) \<Longrightarrow>
     file_read_loop ver h pkt to w = file_read_loop ver hk pk tok wk"
proof (induction k arbitrary: h pkt to w)
  case 0
  then show ?case by simp
next
  case (Suc k)
  from file_read_round_step[OF Suc.prems]
  obtain t h1 pkt1 to1 w1 where
    fr: "file_read_frame ver h pkt to w = (Completed t, h1, pkt1, to1, w1)"
    and ne: "t \<noteq> GLC_MESSAGE_CLOSE" and nc: "\<not> cancel_seq w1 (polls w1)"
    and rest: "file_read_round k ver h1 pkt1 to1 (w1\<lparr>polls := Suc (polls w1)\<rparr>) = Some (hk, pk, tok, wk)"
    by blast
  have "file_read_loop ver h pkt to w = file_read_loop ver h1 pkt1 to1 (w1\<lparr>polls := Suc (polls w1)\<rparr>)"
    using fr ne nc by (subst file_read_loop.simps) (simp add: glc_state_test_cancel_def)
  with Suc.IH[OF rest] show ?case by simp
qed

lemma file_read_round_effect:
  "file_read_round k ver h pkt to w = Some (hk, pk, tok, wk) \<Longrightarrow>
     cancelled tok = cancelled to \<and> logged wk = logged w \<and> cancel_seq wk = cancel_seq w \<and>
     polls wk = polls w + k \<and> (\<not> is_open pkt \<longrightarrow> \<not> is_open pk) \<and>
     (\<exists>ps. packets tok = packets to @ ps \<and> length ps = k \<and> (\<forall>p\<in>set ps. is_data_frame p))"
proof (induction k arbitrary: h pkt to w)
  case 0
  then show ?case by simp
next
  case (Suc k)
  from file_read_round_step[OF Suc.prems]
  obtain t h1 pkt1 to1 w1 where
    fr: "file_read_frame ver h pkt to w = (Completed t, h1, pkt1, to1, w1)"
    and ne: "t \<noteq> GLC_MESSAGE_CLOSE"
    and rest: "file_read_round k ver h1 pkt1 to1 (w1\<lparr>polls := Suc (polls w1)\<rparr>) = Some (hk, pk, tok, wk)"
    by blast
  from file_read_frame_effect[OF fr] obtain payload where
    e: "polls w1 = polls w" "cancel_seq w1 = cancel_seq w" "logged w1 = logged w"
       "cancelled to1 = cancelled to" "packets to1 = packets to @ [t # payload]"
    by auto
  from file_read_frame_closed[OF fr] have cl: "\<not> is_open pkt \<Longrightarrow> \<not> is_open pkt1" by simp
  from Suc.IH[OF rest] obtain ps where
    i: "cancelled tok = cancelled to1" "logged wk = logged w1" "cancel_seq wk = cancel_seq w1"
       "polls wk = Suc (polls w1) + k" "\<not> is_open pkt1 \<longrightarrow> \<not> is_open pk"
       "packets tok = packets to1 @ ps" "length ps = k" "\<forall>p\<in>set ps. is_data_frame p"
    by auto
  have "packets tok = packets to @ ((t # payload) # ps) \<and> length ((t # payload) # ps) = Suc k \<and>
      (\<forall>p\<in>set ((t # payload) # ps). is_data_frame p)"
    using e i ne by (simp add: is_data_frame_def)
  then have "\<exists>ps. packets tok = packets to @ ps \<and> length ps = Suc k \<and> (\<forall>p\<in>set ps. is_data_frame p)"
    by blast
  with e i cl show ?case by simp
qed

lemma file_read_round_err:
  assumes "handle file = Some h" "flags file AND FILE_READING \<noteq> 0"
    "flags file AND FILE_INFO_READ \<noteq> 0" "flags file AND FILE_INFO_VALID \<noteq> 0"
    and "file_read_round k (stream_version file) h ps_packet_init to w = Some (hk, pk, tok, wk)"
    and "file_read_frame (stream_version file) hk pk tok wk = (Err e n, h', p', to', w')"
  shows "read_failed e n tok w (file_read file to w)"
proof -
  have "file_read_loop (stream_version file) hk pk tok wk = (Err e n, h', p', to', w')"
    using assms(6) by (subst file_read_loop.simps) simp
  with file_read_round_loop[OF assms(5)] file_read_pump[OF assms(1-4), of to w]
  have rd: "file_read file to w = file_read_err file e n h' to' w'" by simp
  from file_read_frame_effect[OF assms(6)] have f: "to' = tok" "logged w' = logged wk" by simp_all
  from file_read_round_effect[OF assms(5)] have r: "logged wk = logged w" by simp
  show ?thesis
    unfolding rd using f r
    by (simp add: read_failed_def file_read_err_def file_read_finish_def read_ret_def read_file_def
        read_buffer_def read_world_def ps_buffer_cancel_def glc_log_def flag_simps)
qed

lemma file_read_round_eof:
  assumes "handle file = Some h" "flags file AND FILE_READING \<noteq> 0"
    "flags file AND FILE_INFO_READ \<noteq> 0" "flags file AND FILE_INFO_VALID \<noteq> 0"
    and "file_read_round k (stream_version file) h ps_packet_init to w = Some (hk, pk, tok, wk)"
    and "file_read_header (stream_version file) hk wk = (None, h1, wa)"
  shows "file_read file to w = file_read_send_eof file h1 pk tok wa"
proof -
  have "file_read_frame (stream_version file) hk pk tok wk = (SendEof, h1, pk, tok, wa)"
    using assms(6) by (simp add: file_read_frame_def)
  then have "file_read_loop (stream_version file) hk pk tok wk = (SendEof, h1, pk, tok, wa)"
    by (subst file_read_loop.simps) simp
  with file_read_round_loop[OF assms(5)] file_read_pump[OF assms(1-4), of to w]
  show ?thesis by simp
qed

section \<open>The read pump: error returns\<close>

text \<open>
  C2, as amended. Take a read that has passed the state checks and reaches round \<open>k\<close> of
  its loop, where the length and tag fields are read.
  \<^item> When \<open>ps_packet_open\<close>, \<open>ps_packet_write\<close>, \<open>ps_packet_dma\<close> or \<open>ps_packet_close\<close> of
    that round fails with an error other than \<open>EINTR\<close>, or the payload read comes up
    short (the error is then \<open>EBADMSG\<close>), \<open>file_read\<close> returns that error, cancels the
    buffer, logs the error and the packet size, clears both info flags and forwards
    nothing more: no close frame.
  \<^item> When the failing call returns \<open>EINTR\<close>, \<open>file_read\<close> returns 0, logs nothing and does
    not cancel the buffer.
  \<^item> When the length and tag fields cannot be read, the read goes through \<open>send_eof\<close>,
    whose packet calls are not checked: whatever they return, \<open>file_read\<close> returns 0,
    logs "unexpected EOF" and does not cancel the buffer.
  The \<open>k\<close> packets forwarded before that round are data frames.
\<close>
theorem file_read_error_return:
  assumes "handle file = Some h" and "flags file AND FILE_READING \<noteq> 0"
    and "flags file AND FILE_INFO_READ \<noteq> 0" and "flags file AND FILE_INFO_VALID \<noteq> 0"
    and "file_read_round k (stream_version file) h ps_packet_init to w = Some (hk, pk, tok, wk)"
  shows "(\<forall>t sz h1 wa. file_read_header (stream_version file) hk wk = (Some (t, sz), h1, wa) \<longrightarrow>
            (\<forall>e p w'. ps_packet_open pk tok wa = (e, p, w') \<and> e \<noteq> 0 \<longrightarrow>
               read_failed e (unat sz) tok w (file_read file to w)) \<and>
            (\<forall>p1 wb e p w'. ps_packet_open pk tok wa = (0, p1, wb) \<and>
               ps_packet_write p1 [t] tok wb = (e, p, w') \<and> e \<noteq> 0 \<longrightarrow>
               read_failed e (unat sz) tok w (file_read file to w)) \<and>
            (\<forall>p1 wb p2 wc e p w'. ps_packet_open pk tok wa = (0, p1, wb) \<and>
               ps_packet_write p1 [t] tok wb = (0, p2, wc) \<and>
               ps_packet_dma p2 (unat sz) tok wc = (e, p, w') \<and> e \<noteq> 0 \<longrightarrow>
               read_failed e (unat sz) tok w (file_read file to w)) \<and>
            (\<forall>p1 wb p2 wc p3 wd h2 w'. ps_packet_open pk tok wa = (0, p1, wb) \<and>
               ps_packet_write p1 [t] tok wb = (0, p2, wc) \<and>
               ps_packet_dma p2 (unat sz) tok wc = (0, p3, wd) \<and>
               fread_unlocked (unat sz) h1 wd = (None, h2, w') \<longrightarrow>
               read_failed EBADMSG (unat sz) tok w (file_read file to w)) \<and>
            (\<forall>p1 wb p2 wc p3 wd payload h2 we e p to' w'. ps_packet_open pk tok wa = (0, p1, wb) \<and>
               ps_packet_write p1 [t] tok wb = (0, p2, wc) \<and>
               ps_packet_dma p2 (unat sz) tok wc = (0, p3, wd) \<and>
               fread_unlocked (unat sz) h1 wd = (Some payload, h2, we) \<and>
               ps_packet_close (p3\<lparr>pdata := pdata p3 @ payload\<rparr>) tok we = (e, p, to', w') \<and> e \<noteq> 0 \<longrightarrow>
               read_failed e (unat sz) tok w (file_read file to w))) \<and>
         (\<forall>h1 wa. file_read_header (stream_version file) hk wk = (None, h1, wa) \<longrightarrow>
            read_ret (file_read file to w) = 0 \<and>
            cancelled (read_buffer (file_read file to w)) = cancelled tok \<and>
            logged (read_world (file_read file to w)) = logged w @ [(GLC_ERROR, ''unexpected EOF'', [])]) \<and>
         (\<exists>ps. packets tok = packets to @ ps \<and> length ps = k \<and> (\<forall>p\<in>set ps. is_data_frame p))"
proof -
  let ?ver = "stream_version file"
  let ?R = "file_read file to w"
  note eff = file_read_round_effect[OF assms(5)]
  note err = file_read_round_err[OF assms(1-5)]
  have o: "read_failed e (unat sz) tok w ?R"
    if "file_read_header ?ver hk wk = (Some (t, sz), h1, wa)"
       "ps_packet_open pk tok wa = (e, p, w')" "e \<noteq> 0" for t sz h1 wa e p w'
  proof -
    from that have "file_read_frame ?ver hk pk tok wk = (Err e (unat sz), h1, p, tok, w')"
      by (simp add: file_read_frame_def Let_def)
    then show ?thesis by (rule err)
  qed
  have wr: "read_failed e (unat sz) tok w ?R"
    if "file_read_header ?ver hk wk = (Some (t, sz), h1, wa)"
       "ps_packet_open pk tok wa = (0, p1, wb)"
       "ps_packet_write p1 [t] tok wb = (e, p, w')" "e \<noteq> 0" for t sz h1 wa p1 wb e p w'
  proof -
    from that have "file_read_frame ?ver hk pk tok wk = (Err e (unat sz), h1, p, tok, w')"
      by (simp add: file_read_frame_def Let_def)
    then show ?thesis by (rule err)
  qed
  have dm: "read_failed e (unat sz) tok w ?R"
    if "file_read_header ?ver hk wk = (Some (t, sz), h1, wa)"
       "ps_packet_open pk tok wa = (0, p1, wb)"
       "ps_packet_write p1 [t] tok wb = (0, p2, wc)"
       "ps_packet_dma p2 (unat sz) tok wc = (e, p, w')" "e \<noteq> 0" for t sz h1 wa p1 wb p2 wc e p w'
  proof -
    from that have "file_read_frame ?ver hk pk tok wk = (Err e (unat sz), h1, p, tok, w')"
      by (simp add: file_read_frame_def Let_def)
    then show ?thesis by (rule err)
  qed
  have pl: "read_failed EBADMSG (unat sz) tok w ?R"
    if "file_read_header ?ver hk wk = (Some (t, sz), h1, wa)"
       "ps_packet_open pk tok wa = (0, p1, wb)"
       "ps_packet_write p1 [t] tok wb = (0, p2, wc)"
       "ps_packet_dma p2 (unat sz) tok wc = (0, p3, wd)"
       "fread_unlocked (unat sz) h1 wd = (None, h2, w')" for t sz h1 wa p1 wb p2 wc p3 wd h2 w'
  proof -
    from that have "file_read_frame ?ver hk pk tok wk = (Err EBADMSG (unat sz), h2, p3, tok, w')"
      by (simp add: file_read_frame_def Let_def)
    then show ?thesis by (rule err)
  qed
  have cl: "read_failed e (unat sz) tok w ?R"
    if "file_read_header ?ver hk wk = (Some (t, sz), h1, wa)"
       "ps_packet_open pk tok wa = (0, p1, wb)"
       "ps_packet_write p1 [t] tok wb = (0, p2, wc)"
       "ps_packet_dma p2 (unat sz) tok wc = (0, p3, wd)"
       "fread_unlocked (unat sz) h1 wd = (Some payload, h2, we)"
       "ps_packet_close (p3\<lparr>pdata := pdata p3 @ payload\<rparr>) tok we = (e, p, to', w')" "e \<noteq> 0"
    for t sz h1 wa p1 wb p2 wc p3 wd payload h2 we e p to' w'
  proof -
    from that have "file_read_frame ?ver hk pk tok wk = (Err e (unat sz), h2, p, to', w')"
      by (simp add: file_read_frame_def Let_def)
    then show ?thesis by (rule err)
  qed
  have eof: "read_ret ?R = 0 \<and> cancelled (read_buffer ?R) = cancelled tok \<and>
      logged (read_world ?R) = logged w @ [(GLC_ERROR, ''unexpected EOF'', [])]"
    if "file_read_header ?ver hk wk = (None, h1, wa)" for h1 wa
  proof -
    from file_read_round_eof[OF assms(1-5) that]
    have rd: "?R = file_read_send_eof file h1 pk tok wa" .
    from eff have op: "\<not> is_open pk" and lg: "logged wk = logged w"
      by (simp_all add: ps_packet_init_def)
    from file_read_header_keeps[OF that] have lw: "logged wa = logged wk" by simp
    obtain r f1 t1 v1 where se: "file_read_send_eof file h1 pk tok wa = (r, f1, t1, v1)"
      by (metis prod_cases4)
    from file_read_send_eof_effect[OF se op] lg lw show ?thesis
      unfolding rd se by (simp add: read_ret_def read_buffer_def read_world_def)
  qed
  have ps: "\<exists>ps. packets tok = packets to @ ps \<and> length ps = k \<and> (\<forall>p\<in>set ps. is_data_frame p)"
    using eff by simp
  have hd: "(\<forall>e p w'. ps_packet_open pk tok wa = (e, p, w') \<and> e \<noteq> 0 \<longrightarrow>
               read_failed e (unat sz) tok w ?R) \<and>
            (\<forall>p1 wb e p w'. ps_packet_open pk tok wa = (0, p1, wb) \<and>
               ps_packet_write p1 [t] tok wb = (e, p, w') \<and> e \<noteq> 0 \<longrightarrow>
               read_failed e (unat sz) tok w ?R) \<and>
            (\<forall>p1 wb p2 wc e p w'. ps_packet_open pk tok wa = (0, p1, wb) \<and>
               ps_packet_write p1 [t] tok wb = (0, p2, wc) \<and>
               ps_packet_dma p2 (unat sz) tok wc = (e, p, w') \<and> e \<noteq> 0 \<longrightarrow>
               read_failed e (unat sz) tok w ?R) \<and>
            (\<forall>p1 wb p2 wc p3 wd h2 w'. ps_packet_open pk tok wa = (0, p1, wb) \<and>
               ps_packet_write p1 [t] tok wb = (0, p2, wc) \<and>
               ps_packet_dma p2 (unat sz) tok wc = (0, p3, wd) \<and>
               fread_unlocked (unat sz) h1 wd = (None, h2, w') \<longrightarrow>
               read_failed EBADMSG (unat sz) tok w ?R) \<and>
            (\<forall>p1 wb p2 wc p3 wd payload h2 we e p to' w'. ps_packet_open pk tok wa = (0, p1, wb) \<and>
               ps_packet_write p1 [t] tok wb = (0, p2, wc) \<and>
               ps_packet_dma p2 (unat sz) tok wc = (0, p3, wd) \<and>
               fread_unlocked (unat sz) h1 wd = (Some payload, h2, we) \<and>
               ps_packet_close (p3\<lparr>pdata := pdata p3 @ payload\<rparr>) tok we = (e, p, to', w') \<and> e \<noteq> 0 \<longrightarrow>
               read_failed e (unat sz) tok w ?R)"
    if h: "file_read_header ?ver hk wk = (Some (t, sz), h1, wa)" for t sz h1 wa
  proof (intro conjI allI impI)
    fix e p w' assume "ps_packet_open pk tok wa = (e, p, w') \<and> e \<noteq> 0"
    then show "read_failed e (unat sz) tok w ?R" using o[OF h] by blast
  next
    fix p1 wb e p w'
    assume "ps_packet_open pk tok wa = (0, p1, wb) \<and> ps_packet_write p1 [t] tok wb = (e, p, w') \<and> e \<noteq> 0"
    then show "read_failed e (unat sz) tok w ?R" using wr[OF h] by blast
  next
    fix p1 wb p2 wc e p w'
    assume "ps_packet_open pk tok wa = (0, p1, wb) \<and> ps_packet_write p1 [t] tok wb = (0, p2, wc) \<and>
               ps_packet_dma p2 (unat sz) tok wc = (e, p, w') \<and> e \<noteq> 0"
    then show "read_failed e (unat sz) tok w ?R" using dm[OF h] by blast
  next
    fix p1 wb p2 wc p3 wd h2 w'
    assume "ps_packet_open pk tok wa = (0, p1, wb) \<and> ps_packet_write p1 [t] tok wb = (0, p2, wc) \<and>
               ps_packet_dma p2 (unat sz) tok wc = (0, p3, wd) \<and>
               fread_unlocked (unat sz) h1 wd = (None, h2, w')"
    then show "read_failed EBADMSG (unat sz) tok w ?R" using pl[OF h] by blast
  next
    fix p1 wb p2 wc p3 wd payload h2 we e p to' w'
    assume "ps_packet_open pk tok wa = (0, p1, wb) \<and> ps_packet_write p1 [t] tok wb = (0, p2, wc) \<and>
               ps_packet_dma p2 (unat sz) tok wc = (0, p3, wd) \<and>
               fread_unlocked (unat sz) h1 wd = (Some payload, h2, we) \<and>
               ps_packet_close (p3\<lparr>pdata := pdata p3 @ payload\<rparr>) tok we = (e, p, to', w') \<and> e \<noteq> 0"
    then show "read_failed e (unat sz) tok w ?R" using cl[OF h] by blast
  qed
  show ?thesis
    apply (rule conjI)
     apply (intro allI impI)
     apply (rule hd)
     apply assumption
    apply (rule conjI)
     apply (intro allI impI)
     apply (rule eof)
     apply assumption
    apply (rule ps)
    done
qed

theorem file_read_error_return_witness:
  "read_ret (file_read (reader GLC_STREAM_VERSION two_pictures) empty_buffer
      (quiet_world\<lparr>faults := [0, 0, 0, 0, 0, 0, 0, 0, 0, 0, 5]\<rparr>)) = 5
   \<and> cancelled (read_buffer (file_read (reader GLC_STREAM_VERSION two_pictures) empty_buffer
      (quiet_world\<lparr>faults := [0, 0, 0, 0, 0, 0, 0, 0, 0, 0, 5]\<rparr>)))
   \<and> packets (read_buffer (file_read (reader GLC_STREAM_VERSION two_pictures) empty_buffer
      (quiet_world\<lparr>faults := [0, 0, 0, 0, 0, 0, 0, 0, 0, 0, 5]\<rparr>))) = [[2, 0xAA]]
   \<and> logged (read_world (file_read (reader GLC_STREAM_VERSION two_pictures) empty_buffer
      (quiet_world\<lparr>faults := [0, 0, 0, 0, 0, 0, 0, 0, 0, 0, 5]\<rparr>))) =
        [(GLC_ERROR, ''%s (%d)'', [5]), (GLC_DEBUG, ''packet size is %zd'', [1])]"
proof -
  let ?w = "quiet_world\<lparr>faults := [0, 0, 0, 0, 0, 0, 0, 0, 0, 0, 5]\<rparr>"
  let ?F = "reader GLC_STREAM_VERSION two_pictures"
  let ?R = "file_read ?F empty_buffer ?w"
  let ?hk = "\<lparr>fd = (disk_file two_pictures)\<lparr>offset := 10\<rparr>, wbuf = []\<rparr>"
  let ?h1 = "\<lparr>fd = (disk_file two_pictures)\<lparr>offset := 19\<rparr>, wbuf = []\<rparr>"
  let ?tok = "\<lparr>packets = [[2, 0xAA]], cancelled = False\<rparr>"
  let ?p1 = "\<lparr>is_open = True, pdata = []\<rparr>"
  have sv: "stream_version ?F = GLC_STREAM_VERSION" by (simp add: reader_def)
  have rnd: "file_read_round 1 (stream_version ?F) \<lparr>fd = disk_file two_pictures, wbuf = []\<rparr>
      ps_packet_init empty_buffer ?w =
    Some (?hk, ps_packet_init, ?tok, quiet_world\<lparr>faults := [0, 0, 0, 5], polls := 1\<rparr>)"
    unfolding sv
    by (simp add: file_read_frame_def file_read_header_def fread_unlocked_def next_fault_def
      ps_packet_open_def ps_packet_write_def ps_packet_dma_def ps_packet_close_def
      ps_packet_init_def empty_buffer_def quiet_world_def disk_file_def two_pictures_def
      picture_frame_def GLC_STREAM_VERSION_def GLC_MESSAGE_CLOSE_def glc_state_test_cancel_def Let_def)
  have hdr: "file_read_header (stream_version ?F) ?hk (quiet_world\<lparr>faults := [0, 0, 0, 5], polls := 1\<rparr>) =
      (Some (2, 1), ?h1, quiet_world\<lparr>faults := [0, 5], polls := 1\<rparr>)"
    unfolding sv
    by (simp add: file_read_header_def fread_unlocked_def next_fault_def quiet_world_def disk_file_def
        two_pictures_def picture_frame_def GLC_STREAM_VERSION_def)
  have op: "ps_packet_open ps_packet_init ?tok (quiet_world\<lparr>faults := [0, 5], polls := 1\<rparr>) =
      (0, ?p1, quiet_world\<lparr>faults := [5], polls := 1\<rparr>)"
    by (simp add: ps_packet_open_def ps_packet_init_def next_fault_def quiet_world_def)
  have wr: "ps_packet_write ?p1 [2] ?tok (quiet_world\<lparr>faults := [5], polls := 1\<rparr>) =
      (5, ?p1, quiet_world\<lparr>faults := [], polls := 1\<rparr>)"
    by (simp add: ps_packet_write_def next_fault_def quiet_world_def)
  note t = file_read_error_return[OF reader_pre rnd]
  have ne: "(5 :: int) \<noteq> 0" by simp
  note b = t[THEN conjunct1, rule_format, OF hdr]
  note c = b[THEN conjunct2, THEN conjunct1, rule_format, OF conjI[OF op conjI[OF wr ne]]]
  from c have "read_failed 5 (unat (1 :: 64 word)) ?tok ?w ?R" .
  then show ?thesis
    by (simp add: read_failed_def EINTR_def quiet_world_def)
qed

theorem file_read_error_return_counterexample:
  "read_ret (file_read (reader GLC_STREAM_VERSION picture_frame) empty_buffer (quiet_world\<lparr>faults := [0, 0, 12]\<rparr>)) = 12
   \<and> cancelled (read_buffer (file_read (reader GLC_STREAM_VERSION picture_frame) empty_buffer (quiet_world\<lparr>faults := [0, 0, 12]\<rparr>)))
   \<and> packets (read_buffer (file_read (reader GLC_STREAM_VERSION picture_frame) empty_buffer (quiet_world\<lparr>faults := [0, 0, 12]\<rparr>))) = []"
  by code_simp

section \<open>The read pump: cancellation\<close>

text \<open>
  C9, as amended. In a read session the cancellation flag is consulted once after every
  forwarded data frame and not after a close frame: the number of polls equals the number
  of data frames forwarded. When a poll sees the flag set, it is the last poll of the
  session, \<open>file_read\<close> returns 0, logs nothing, leaves the buffer uncancelled, and has
  forwarded data frames only (no close frame).
\<close>
theorem file_read_cancel_poll:
  assumes "handle file = Some h" and "flags file AND FILE_READING \<noteq> 0"
    and "flags file AND FILE_INFO_READ \<noteq> 0" and "flags file AND FILE_INFO_VALID \<noteq> 0"
    and "file_read file to w = (ret, file1, to1, w1)"
  shows "\<exists>ps. packets to1 = packets to @ ps \<and>
           polls w1 = polls w + length (filter is_data_frame ps) \<and>
           (\<forall>k. polls w \<le> k \<and> k < polls w1 \<and> cancel_seq w k \<longrightarrow>
              Suc k = polls w1 \<and> ret = 0 \<and> logged w1 = logged w \<and> cancelled to1 = cancelled to \<and>
              (\<forall>p\<in>set ps. is_data_frame p))"
proof -
  obtain r h0 pkt0 to0 w0 where
    lp: "file_read_loop (stream_version file) h ps_packet_init to w = (r, h0, pkt0, to0, w0)"
    by (metis prod_cases5)
  from file_read_loop_effect[OF lp] obtain ps where
    basics: "cancel_seq w0 = cancel_seq w" "logged w0 = logged w" "cancelled to0 = cancelled to"
    and ps: "packets to0 = packets to @ ps" "polls w0 = polls w + length (filter is_data_frame ps)"
      "(case r of
           Completed t \<Rightarrow> (\<exists>qs payload. ps = qs @ [t # payload] \<and> (\<forall>p\<in>set qs. is_data_frame p))
         | _ \<Rightarrow> \<forall>p\<in>set ps. is_data_frame p)"
      "\<forall>k. polls w \<le> k \<and> k < polls w0 \<and> cancel_seq w k \<longrightarrow>
           Suc k = polls w0 \<and> (\<exists>t. r = Completed t \<and> t \<noteq> GLC_MESSAGE_CLOSE)"
    by blast
  have rd: "file_read file to w =
    (case r of Completed _ \<Rightarrow> file_read_finish file h0 to0 w0
     | SendEof \<Rightarrow> file_read_send_eof file h0 pkt0 to0 w0
     | Err e n \<Rightarrow> file_read_err file e n h0 to0 w0)"
    using file_read_pump[OF assms(1-4), of to w] lp by (simp split: frame_result.splits)
  have cl: "r = SendEof \<Longrightarrow> \<not> is_open pkt0"
    using file_read_loop_closed[of "stream_version file" h ps_packet_init to w h0 pkt0 to0 w0] lp
    by (simp add: ps_packet_init_def)
  show ?thesis
  proof (cases r)
    case (Completed t)
    with rd assms(5) have res: "ret = 0" "to1 = to0" "w1 = w0" by (auto simp: file_read_finish_def)
    from ps(3) Completed obtain qs payload where
      qs: "ps = qs @ [t # payload]" "\<forall>p\<in>set qs. is_data_frame p" by auto
    have "\<forall>k. polls w \<le> k \<and> k < polls w1 \<and> cancel_seq w k \<longrightarrow>
              Suc k = polls w1 \<and> ret = 0 \<and> logged w1 = logged w \<and> cancelled to1 = cancelled to \<and>
              (\<forall>p\<in>set ps. is_data_frame p)"
      using ps(4) res basics qs Completed by (auto simp: is_data_frame_def)
    with ps(1,2) res show ?thesis by blast
  next
    case SendEof
    with rd assms(5) have "file_read_send_eof file h0 pkt0 to0 w0 = (ret, file1, to1, w1)" by simp
    from file_read_send_eof_effect[OF this cl[OF SendEof]] obtain ex where
      se: "polls w1 = polls w0" "packets to1 = packets to0 @ ex" "filter is_data_frame ex = []"
      by blast
    have a: "packets to1 = packets to @ (ps @ ex)" using se ps by simp
    have b: "polls w1 = polls w + length (filter is_data_frame (ps @ ex))" using se ps by simp
    have c: "\<forall>k. polls w \<le> k \<and> k < polls w1 \<and> cancel_seq w k \<longrightarrow>
              Suc k = polls w1 \<and> ret = 0 \<and> logged w1 = logged w \<and> cancelled to1 = cancelled to \<and>
              (\<forall>p\<in>set (ps @ ex). is_data_frame p)"
      using ps(4) se(1) SendEof by auto
    from a b c show ?thesis by blast
  next
    case (Err e n)
    with rd assms(5) have er: "file_read_err file e n h0 to0 w0 = (ret, file1, to1, w1)" by simp
    then have res: "packets to1 = packets to0" "polls w1 = polls w0"
      by (auto simp: file_read_err_def file_read_finish_def ps_buffer_cancel_def glc_log_def split: if_splits)
    have "\<forall>k. polls w \<le> k \<and> k < polls w1 \<and> cancel_seq w k \<longrightarrow>
              Suc k = polls w1 \<and> ret = 0 \<and> logged w1 = logged w \<and> cancelled to1 = cancelled to \<and>
              (\<forall>p\<in>set ps. is_data_frame p)"
      using ps(4) res Err by auto
    with ps(1,2) res show ?thesis by auto
  qed
qed

theorem file_read_cancel_poll_witness:
  "cancel_seq (quiet_world\<lparr>cancel_seq := (\<lambda>k. k = 0)\<rparr>) 0
   \<and> polls (read_world (file_read (reader GLC_STREAM_VERSION (picture_frame @ picture_frame)) empty_buffer
        (quiet_world\<lparr>cancel_seq := (\<lambda>k. k = 0)\<rparr>))) = 1
   \<and> read_ret (file_read (reader GLC_STREAM_VERSION (picture_frame @ picture_frame)) empty_buffer
        (quiet_world\<lparr>cancel_seq := (\<lambda>k. k = 0)\<rparr>)) = 0
   \<and> logged (read_world (file_read (reader GLC_STREAM_VERSION (picture_frame @ picture_frame)) empty_buffer
        (quiet_world\<lparr>cancel_seq := (\<lambda>k. k = 0)\<rparr>))) = []"
proof -
  let ?w = "quiet_world\<lparr>cancel_seq := (\<lambda>k. k = 0)\<rparr>"
  let ?R = "file_read (reader GLC_STREAM_VERSION (picture_frame @ picture_frame)) empty_buffer ?w"
  have p: "polls (read_world ?R) = 1" by code_simp
  have c: "cancel_seq ?w 0" "polls ?w = 0" "logged ?w = []" by (simp_all add: quiet_world_def)
  from file_read_cancel_poll[OF reader_pre read_result[of ?R]]
  obtain ps where "\<forall>k. polls ?w \<le> k \<and> k < polls (read_world ?R) \<and> cancel_seq ?w k \<longrightarrow>
              Suc k = polls (read_world ?R) \<and> read_ret ?R = 0 \<and> logged (read_world ?R) = logged ?w \<and>
              cancelled (read_buffer ?R) = cancelled empty_buffer \<and> (\<forall>p\<in>set ps. is_data_frame p)"
    by blast
  then have "read_ret ?R = 0 \<and> logged (read_world ?R) = logged ?w"
    using p c by (metis less_one le_refl)
  with p c show ?thesis by simp
qed

theorem file_read_cancel_poll_counterexample:
  "read_ret (file_read (reader GLC_STREAM_VERSION long_close_frame) empty_buffer quiet_world) = 0
   \<and> packets (read_buffer (file_read (reader GLC_STREAM_VERSION long_close_frame) empty_buffer quiet_world)) = [[1, 0]]
   \<and> polls (read_world (file_read (reader GLC_STREAM_VERSION long_close_frame) empty_buffer quiet_world)) = 0"
  by code_simp

section \<open>The info flags after a read\<close>

text \<open>
  C10. From a consistent controller state, every return of \<open>file_read\<close> leaves the
  info-read and the info-valid flag clear. A further \<open>file_read\<close> on the resulting
  controller, with any buffer and environment, returns \<open>EAGAIN\<close> and changes neither the
  controller nor the buffer. If a \<open>file_read_info\<close> that fails comes in between, the
  info-valid flag is still clear, and the following \<open>file_read\<close> returns \<open>EAGAIN\<close> or
  \<open>EINVAL\<close>, leaves the buffer and the handle as they were, so reads no frame.
\<close>
theorem file_read_clears_info_flags:
  assumes "file_consistent file" and "file_read file to w = (ret, file1, to1, w1)"
  shows "flags file1 AND FILE_INFO_READ = 0 \<and> flags file1 AND FILE_INFO_VALID = 0 \<and>
         (\<forall>to' w'. \<exists>w2. file_read file1 to' w' = (EAGAIN, file1, to', w2)) \<and>
         (\<forall>w' r out file2 w2. file_read_info file1 w' = (r, out, file2, w2) \<and> r \<noteq> 0 \<longrightarrow>
            flags file2 AND FILE_INFO_VALID = 0 \<and>
            (\<forall>to' w''. \<exists>ret3 file3 w3. file_read file2 to' w'' = (ret3, file3, to', w3) \<and>
               (ret3 = EAGAIN \<or> ret3 = EINVAL) \<and> handle file3 = handle file2 \<and>
               flags file3 AND FILE_INFO_VALID = 0))"
proof -
  from file_read_cases[OF assms(2)] assms(1)
  have fl: "flags file1 AND FILE_INFO_READ = 0 \<and> flags file1 AND FILE_INFO_VALID = 0"
    by (auto simp: file_consistent_def flag_simps)
  have a: "\<forall>to' w'. \<exists>w2. file_read file1 to' w' = (EAGAIN, file1, to', w2)"
    using fl file_read_not_ready[of file1] by blast
  have b: "flags file2 AND FILE_INFO_VALID = 0 \<and>
            (\<forall>to' w''. \<exists>ret3 file3 w3. file_read file2 to' w'' = (ret3, file3, to', w3) \<and>
               (ret3 = EAGAIN \<or> ret3 = EINVAL) \<and> handle file3 = handle file2 \<and>
               flags file3 AND FILE_INFO_VALID = 0)"
    if "file_read_info file1 w' = (r, out, file2, w2)" "r \<noteq> 0" for w' r out file2 w2
  proof -
    from file_read_info_failed[OF that] fl have v: "flags file2 AND FILE_INFO_VALID = 0" by simp
    with file_read_not_valid[OF v] show ?thesis by blast
  qed
  from fl a b show ?thesis by (intro conjI) (simp, simp, simp, blast)
qed

theorem file_read_clears_info_flags_witness:
  "file_consistent (reader GLC_STREAM_VERSION (long_close_frame @ bad_magic_file))
   \<and> read_ret (file_read (reader GLC_STREAM_VERSION (long_close_frame @ bad_magic_file)) empty_buffer quiet_world) = 0
   \<and> flags (read_file (file_read (reader GLC_STREAM_VERSION (long_close_frame @ bad_magic_file)) empty_buffer quiet_world))
        AND FILE_INFO_READ = 0
   \<and> flags (read_file (file_read (reader GLC_STREAM_VERSION (long_close_frame @ bad_magic_file)) empty_buffer quiet_world))
        AND FILE_INFO_VALID = 0
   \<and> read_ret (file_read (read_file (file_read (reader GLC_STREAM_VERSION (long_close_frame @ bad_magic_file))
        empty_buffer quiet_world)) empty_buffer quiet_world) = EAGAIN
   \<and> info_ret (file_read_info (read_file (file_read (reader GLC_STREAM_VERSION (long_close_frame @ bad_magic_file))
        empty_buffer quiet_world)) quiet_world) = EINVAL
   \<and> read_ret (file_read (info_file (file_read_info (read_file (file_read
        (reader GLC_STREAM_VERSION (long_close_frame @ bad_magic_file)) empty_buffer quiet_world)) quiet_world))
        empty_buffer quiet_world) = EINVAL
   \<and> read_buffer (file_read (info_file (file_read_info (read_file (file_read
        (reader GLC_STREAM_VERSION (long_close_frame @ bad_magic_file)) empty_buffer quiet_world)) quiet_world))
        empty_buffer quiet_world) = empty_buffer"
proof -
  let ?F = "reader GLC_STREAM_VERSION (long_close_frame @ bad_magic_file)"
  let ?R = "file_read ?F empty_buffer quiet_world"
  let ?I = "file_read_info (read_file ?R) quiet_world"
  let ?S = "file_read (info_file ?I) empty_buffer quiet_world"
  have c: "file_consistent ?F"
    by (simp add: file_consistent_def reader_def flag_defs)
  have r: "read_ret ?R = 0" by code_simp
  have i: "info_ret ?I = EINVAL" by code_simp
  have s: "read_ret ?S = EINVAL" by code_simp
  from i have n: "info_ret ?I \<noteq> 0" by simp
  from file_read_clears_info_flags[OF c read_result[of "?R"]]
  have a: "flags (read_file ?R) AND FILE_INFO_READ = 0" "flags (read_file ?R) AND FILE_INFO_VALID = 0"
    and e: "\<exists>w2. file_read (read_file ?R) empty_buffer quiet_world = (EAGAIN, read_file ?R, empty_buffer, w2)"
    and f: "\<forall>w' r out file2 w2. file_read_info (read_file ?R) w' = (r, out, file2, w2) \<and> r \<noteq> 0 \<longrightarrow>
            (\<forall>to' w''. \<exists>ret3 file3 w3. file_read file2 to' w'' = (ret3, file3, to', w3))"
    by blast+
  from e have g: "read_ret (file_read (read_file ?R) empty_buffer quiet_world) = EAGAIN"
    by (auto simp: read_ret_def)
  from f info_result4[of "?I"] n
  have "\<exists>ret3 file3 w3. ?S = (ret3, file3, empty_buffer, w3)" by blast
  then have b: "read_buffer ?S = empty_buffer" by (auto simp: read_buffer_def)
  from c r a g i s b show ?thesis by simp
qed

lemma word_of_le_byte: "word_of_le [b] = (b :: byte)"
  by simp

lemma word_of_le_le_bytes:
  "word_of_le (le_bytes n (w::'a::len word)) = (take_bit (8 * n) w :: 'a word)"
proof (induction n arbitrary: w)
  case 0
  show ?case by simp
next
  case (Suc n)
  have "(ucast (ucast w :: byte) :: 'a word) OR push_bit 8 (take_bit (8 * n) (drop_bit 8 w))
      = take_bit (8 * Suc n) w"
  proof (rule bit_word_eqI)
    fix k assume "k < LENGTH('a)"
    then show "bit ((ucast (ucast w :: byte) :: 'a word) OR push_bit 8 (take_bit (8 * n) (drop_bit 8 w))) k
        = bit (take_bit (8 * Suc n) w) k"
      by (cases "k < 8") (auto simp: bit_simps not_less)
  qed
  with Suc show ?case by simp
qed

lemma le64_le_bytes: "le64 w = le_bytes 8 w"
  by (simp add: le64_def eval_nat_numeral drop_bit_drop_bit)

lemma le32_le_bytes: "le32 w = le_bytes 4 w"
  by (simp add: le32_def eval_nat_numeral drop_bit_drop_bit)

lemma word_of_le_le64: "word_of_le (le64 w) = w"
  by (simp add: le64_le_bytes word_of_le_le_bytes take_bit_word_eq_self)

lemma word_of_le_le32: "word_of_le (le32 w) = w"
  by (simp add: le32_le_bytes word_of_le_le_bytes take_bit_word_eq_self)

lemma length_le64 [simp]: "length (le64 w) = 8"
  by (simp add: le64_def)

lemma length_le32 [simp]: "length (le32 w) = 4"
  by (simp add: le32_def)

lemma unat_size64: "n < 2 ^ 64 \<Longrightarrow> unat (word_of_nat n :: 64 word) = n"
  by (simp add: unat_of_nat)

lemma le64_nonempty: "le64 w \<noteq> []"
  by (simp add: le64_def)

lemma fread_prefix:
  assumes "faults w = []" "bs \<noteq> []" "unread h = bs @ rest"
  shows "fread_unlocked (length bs) h w = (Some bs, advance (length bs) h, w)"
proof -
  from assms(3) have "length (unread h) = length bs + length rest" by simp
  moreover have "0 < length bs" using assms(2) by simp
  ultimately have le: "offset (fd h) + length bs \<le> length (contents (fd h))"
    unfolding unread_def length_drop by arith
  have "take (length bs) (drop (offset (fd h)) (contents (fd h))) = bs"
    using assms(3) by (simp add: unread_def)
  with le assms(1,2) show ?thesis
    by (simp add: fread_unlocked_def next_fault_nil advance_def)
qed

lemma unread_advance: "unread (advance n h) = drop n (unread h)"
  by (simp add: unread_def advance_def add.commute)

lemma advance_advance: "advance m (advance n h) = advance (n + m) h"
  by (simp add: advance_def add.assoc)

lemma fread_short:
  assumes "faults w = []" "length (unread h) < n"
  shows "\<exists>h'. fread_unlocked n h w = (None, h', w)"
  using assms by (auto simp: fread_unlocked_def next_fault_nil unread_def)

lemma frame_bytes_length: "length (frame_bytes ver fr) = 9 + length (read_data fr)"
  by (simp add: frame_bytes_def)

lemma frame_bytes_header:
  "frame_bytes ver fr = frame_header ver (header_type fr) (word_of_nat (length (read_data fr))) @ read_data fr"
  by (simp add: frame_bytes_def frame_header_def)

lemma length_frame_header [simp]: "length (frame_header ver t sz) = 9"
  by (simp add: frame_header_def)

lemma file_read_header_ok:
  assumes "faults w = []" "unread h = frame_header ver t sz @ rest"
  shows "file_read_header ver h w = (Some (t, sz), advance 9 h, w)"
proof (cases "ver = 0x03")
  case True
  with assms(2) have u1: "unread h = [t] @ (le64 sz @ rest)"
    by (simp add: frame_header_def)
  have r1: "fread_unlocked 1 h w = (Some [t], advance 1 h, w)"
    using fread_prefix[OF assms(1) _ u1] by simp
  have u2: "unread (advance 1 h) = le64 sz @ rest"
    using u1 by (simp add: unread_advance)
  have r2: "fread_unlocked 8 (advance 1 h) w = (Some (le64 sz), advance 8 (advance 1 h), w)"
    using fread_prefix[OF assms(1) le64_nonempty u2] by simp
  from True r1 r2 show ?thesis
    by (simp add: file_read_header_def word_of_le_le64 advance_advance del: word_of_le.simps)
       simp
next
  case False
  with assms(2) have u1: "unread h = le64 sz @ ([t] @ rest)"
    by (simp add: frame_header_def)
  have r1: "fread_unlocked 8 h w = (Some (le64 sz), advance 8 h, w)"
    using fread_prefix[OF assms(1) le64_nonempty u1] by simp
  have u2: "unread (advance 8 h) = [t] @ rest"
    using u1 by (simp add: unread_advance)
  have r2: "fread_unlocked 1 (advance 8 h) w = (Some [t], advance 1 (advance 8 h), w)"
    using fread_prefix[OF assms(1) _ u2] by simp
  from False r1 r2 show ?thesis
    by (simp add: file_read_header_def word_of_le_le64 advance_advance del: word_of_le.simps)
       simp
qed

lemma file_read_header_short:
  assumes "faults w = []" "length (unread h) < 9"
  shows "\<exists>h'. file_read_header ver h w = (None, h', w)"
proof -
  have a: "\<And>h0. length (unread h0) < 8 \<Longrightarrow> \<exists>h'. fread_unlocked 8 h0 w = (None, h', w)"
    using fread_short[OF assms(1)] by blast
  have b: "\<And>h0. length (unread h0) < 1 \<Longrightarrow> \<exists>h'. fread_unlocked 1 h0 w = (None, h', w)"
    using fread_short[OF assms(1)] by blast
  have c: "\<And>n h0 bs h1 w1. fread_unlocked n h0 w = (Some bs, h1, w1) \<Longrightarrow>
      w1 = w \<and> length (unread h1) + n = length (unread h0)"
    using assms(1)
    by (auto simp: fread_unlocked_def next_fault_nil unread_def split: if_splits)
  show ?thesis
  proof (cases "ver = 0x03")
    case True
    show ?thesis
    proof (cases "fread_unlocked 1 h w")
      case (fields r h1 w1)
      show ?thesis
      proof (cases r)
        case None
        with fields fread_keeps[OF fields] assms(1) have "w1 = w"
          by (auto simp: fread_unlocked_def next_fault_nil split: if_splits)
        with None fields True show ?thesis by (simp add: file_read_header_def)
      next
        case (Some bs)
        with c[of 1 h bs h1 w1] fields have w1: "w1 = w" and "length (unread h1) + 1 = length (unread h)"
          by auto
        with assms(2) have "length (unread h1) < 8" by arith
        from a[OF this] obtain h2 where "fread_unlocked 8 h1 w = (None, h2, w)" by blast
        with Some fields True w1 show ?thesis by (simp add: file_read_header_def)
      qed
    qed
  next
    case False
    show ?thesis
    proof (cases "fread_unlocked 8 h w")
      case (fields r h1 w1)
      show ?thesis
      proof (cases r)
        case None
        with fields assms(1) have "w1 = w"
          by (auto simp: fread_unlocked_def next_fault_nil split: if_splits)
        with None fields False show ?thesis by (simp add: file_read_header_def)
      next
        case (Some bs)
        with c[of 8 h bs h1 w1] fields have w1: "w1 = w" and "length (unread h1) + 8 = length (unread h)"
          by auto
        with assms(2) have "length (unread h1) < 1" by arith
        from b[OF this] obtain h2 where "fread_unlocked 1 h1 w = (None, h2, w)" by blast
        with Some fields False w1 show ?thesis by (simp add: file_read_header_def)
      qed
    qed
  qed
qed

lemma file_read_frame_ok:
  assumes "faults w = []" "\<not> cancelled to" "unread h = frame_bytes ver fr @ rest"
    "read_data fr \<noteq> []" "length (read_data fr) < 2 ^ 64"
  shows "file_read_frame ver h pkt to w =
           (Completed (header_type fr), advance (length (frame_bytes ver fr)) h,
            pkt\<lparr>is_open := False, pdata := []\<rparr>,
            to\<lparr>packets := packets to @ [packet_of fr]\<rparr>, w)"
proof -
  have hd: "file_read_header ver h w =
           (Some (header_type fr, word_of_nat (length (read_data fr))), advance 9 h, w)"
    using file_read_header_ok[OF assms(1), of h ver "header_type fr" _ "read_data fr @ rest"] assms(3)
    by (simp add: frame_bytes_header)
  have u: "unread (advance 9 h) = read_data fr @ rest"
    using assms(3) by (simp add: unread_advance frame_bytes_header)
  have rd: "fread_unlocked (length (read_data fr)) (advance 9 h) w =
      (Some (read_data fr), advance (length (read_data fr)) (advance 9 h), w)"
    by (rule fread_prefix[OF assms(1,4) u])
  show ?thesis
    using hd rd assms(1,2,5)
    by (simp add: file_read_frame_def Let_def unat_size64 ps_packet_open_def ps_packet_write_def
        ps_packet_dma_def ps_packet_close_def next_fault_nil advance_advance frame_bytes_length
        packet_of_def)
qed

lemma file_read_frame_short_payload:
  assumes "faults w = []" "\<not> cancelled to" "unread h = frame_header ver t sz @ part"
    "length part < unat sz"
  shows "\<exists>h' pkt'. file_read_frame ver h pkt to w = (Err EBADMSG (unat sz), h', pkt', to, w)"
proof -
  have hd: "file_read_header ver h w = (Some (t, sz), advance 9 h, w)"
    by (rule file_read_header_ok[OF assms(1,3)])
  have u: "unread (advance 9 h) = part"
    using assms(3) by (simp add: unread_advance)
  from fread_short[OF assms(1), of "advance 9 h" "unat sz"] u assms(4)
  obtain h' where rd: "fread_unlocked (unat sz) (advance 9 h) w = (None, h', w)" by auto
  show ?thesis
    using hd rd assms(1,2)
    by (simp add: file_read_frame_def Let_def ps_packet_open_def ps_packet_write_def
        ps_packet_dma_def next_fault_nil)
qed

lemma file_read_loop_frames:
  assumes "faults w = []" "\<not> cancelled to" "\<forall>fr\<in>set frs. data_frame fr"
    "\<forall>k<length frs. \<not> cancel_seq w (polls w + k)"
    "unread h = concat (map (frame_bytes ver) frs) @ rest"
  shows "file_read_loop ver h pkt to w =
           file_read_loop ver (advance (length (concat (map (frame_bytes ver) frs))) h)
             (if frs = [] then pkt else pkt\<lparr>is_open := False, pdata := []\<rparr>)
             (to\<lparr>packets := packets to @ map packet_of frs\<rparr>)
             (w\<lparr>polls := polls w + length frs\<rparr>)"
  using assms
proof (induction frs arbitrary: h pkt to w)
  case Nil
  then show ?case by (simp add: advance_def)
next
  case (Cons fr frs)
  let ?h1 = "advance (length (frame_bytes ver fr)) h"
  let ?pkt1 = "pkt\<lparr>is_open := False, pdata := []\<rparr>"
  let ?to1 = "to\<lparr>packets := packets to @ [packet_of fr]\<rparr>"
  let ?w1 = "w\<lparr>polls := Suc (polls w)\<rparr>"
  from Cons.prems(3) have df: "data_frame fr" by simp
  have u: "unread h = frame_bytes ver fr @ (concat (map (frame_bytes ver) frs) @ rest)"
    using Cons.prems(5) by simp
  have fr: "file_read_frame ver h pkt to w = (Completed (header_type fr), ?h1, ?pkt1, ?to1, w)"
    using file_read_frame_ok[OF Cons.prems(1,2) u] df by (simp add: data_frame_def)
  have nc: "\<not> cancel_seq w (polls w)"
    using Cons.prems(4) by auto
  have step: "file_read_loop ver h pkt to w = file_read_loop ver ?h1 ?pkt1 ?to1 ?w1"
    using fr df nc
    by (subst file_read_loop.simps) (simp add: data_frame_def glc_state_test_cancel_def)
  have c: "\<forall>k<length frs. \<not> cancel_seq ?w1 (polls ?w1 + k)"
  proof (intro allI impI)
    fix k assume "k < length frs"
    then have "Suc k < length (fr # frs)" by simp
    with Cons.prems(4) have "\<not> cancel_seq w (polls w + Suc k)" by blast
    then show "\<not> cancel_seq ?w1 (polls ?w1 + k)" by simp
  qed
  have u1: "unread ?h1 = concat (map (frame_bytes ver) frs) @ rest"
    using u by (simp add: unread_advance)
  have ih: "file_read_loop ver ?h1 ?pkt1 ?to1 ?w1 =
           file_read_loop ver (advance (length (concat (map (frame_bytes ver) frs))) ?h1)
             (if frs = [] then ?pkt1 else ?pkt1\<lparr>is_open := False, pdata := []\<rparr>)
             (?to1\<lparr>packets := packets ?to1 @ map packet_of frs\<rparr>)
             (?w1\<lparr>polls := polls ?w1 + length frs\<rparr>)"
    by (rule Cons.IH) (use Cons.prems c u1 in simp_all)
  show ?case
    unfolding step ih by (simp add: advance_advance)
qed

lemma send_eof_ok:
  assumes "faults w = []" "\<not> cancelled to"
  shows "file_read_send_eof file h pkt to w =
    (0, file\<lparr>handle := Some h, flags := flags file AND NOT (FILE_INFO_READ OR FILE_INFO_VALID)\<rparr>,
     to\<lparr>packets := packets to @ [[GLC_MESSAGE_CLOSE]]\<rparr>,
     glc_log GLC_ERROR ''unexpected EOF'' [] w)"
  using assms
  by (simp add: file_read_send_eof_def file_read_finish_def ps_packet_open_def ps_packet_write_def
      ps_packet_close_def next_fault_nil)

lemma file_read_round_frames:
  assumes "faults w = []" "\<not> cancelled to" "\<forall>fr\<in>set frs. data_frame fr"
    "\<forall>k<length frs. \<not> cancel_seq w (polls w + k)"
    "unread h = concat (map (frame_bytes ver) frs) @ rest"
  shows "file_read_round (length frs) ver h pkt to w =
           Some (advance (length (concat (map (frame_bytes ver) frs))) h,
             (if frs = [] then pkt else pkt\<lparr>is_open := False, pdata := []\<rparr>),
             to\<lparr>packets := packets to @ map packet_of frs\<rparr>,
             w\<lparr>polls := polls w + length frs\<rparr>)"
  using assms
proof (induction frs arbitrary: h pkt to w)
  case Nil
  then show ?case by (simp add: advance_def)
next
  case (Cons fr frs)
  let ?h1 = "advance (length (frame_bytes ver fr)) h"
  let ?pkt1 = "pkt\<lparr>is_open := False, pdata := []\<rparr>"
  let ?to1 = "to\<lparr>packets := packets to @ [packet_of fr]\<rparr>"
  let ?w1 = "w\<lparr>polls := Suc (polls w)\<rparr>"
  from Cons.prems(3) have df: "data_frame fr" by simp
  have u: "unread h = frame_bytes ver fr @ (concat (map (frame_bytes ver) frs) @ rest)"
    using Cons.prems(5) by simp
  have fr: "file_read_frame ver h pkt to w = (Completed (header_type fr), ?h1, ?pkt1, ?to1, w)"
    using file_read_frame_ok[OF Cons.prems(1,2) u] df by (simp add: data_frame_def)
  have nc: "\<not> cancel_seq w (polls w)"
    using Cons.prems(4) by auto
  have step: "file_read_round (length (fr # frs)) ver h pkt to w =
      file_read_round (length frs) ver ?h1 ?pkt1 ?to1 ?w1"
    using fr df nc by (simp add: data_frame_def glc_state_test_cancel_def)
  have c: "\<forall>k<length frs. \<not> cancel_seq ?w1 (polls ?w1 + k)"
  proof (intro allI impI)
    fix k assume "k < length frs"
    then have "Suc k < length (fr # frs)" by simp
    with Cons.prems(4) have "\<not> cancel_seq w (polls w + Suc k)" by blast
    then show "\<not> cancel_seq ?w1 (polls ?w1 + k)" by simp
  qed
  have u1: "unread ?h1 = concat (map (frame_bytes ver) frs) @ rest"
    using u by (simp add: unread_advance)
  have ih: "file_read_round (length frs) ver ?h1 ?pkt1 ?to1 ?w1 =
           Some (advance (length (concat (map (frame_bytes ver) frs))) ?h1,
             (if frs = [] then ?pkt1 else ?pkt1\<lparr>is_open := False, pdata := []\<rparr>),
             ?to1\<lparr>packets := packets ?to1 @ map packet_of frs\<rparr>,
             ?w1\<lparr>polls := polls ?w1 + length frs\<rparr>)"
    by (rule Cons.IH) (use Cons.prems c u1 in simp_all)
  show ?case
    unfolding step ih by (simp add: advance_advance)
qed

section \<open>The read pump: a file that ends inside a frame\<close>

text \<open>
  C1, as amended. Take a read that has passed the state checks and reaches round \<open>k\<close> of
  its loop with no failure injected from there on and the buffer not cancelled.
  \<^item> When fewer than 9 bytes of the file are left (the file ends inside the length and
    tag fields, or at a frame boundary), \<open>file_read\<close> forwards exactly one close frame,
    logs "unexpected EOF" and nothing else, does not cancel the buffer and returns 0.
  \<^item> When the length and tag fields are there but fewer payload bytes are left than the
    length announces, \<open>file_read\<close> forwards no close frame, cancels the buffer, logs the
    error \<open>EBADMSG\<close> and the packet size, and returns \<open>EBADMSG\<close>.
  The \<open>k\<close> packets forwarded before that round are data frames. A file that holds
  complete data frames with non-empty payloads and then a tail reaches, in a quiet
  environment, the round after the last frame with the frames forwarded and the tail
  unread.
\<close>
theorem file_read_truncated:
  assumes "handle file = Some h" and "flags file AND FILE_READING \<noteq> 0"
    and "flags file AND FILE_INFO_READ \<noteq> 0" and "flags file AND FILE_INFO_VALID \<noteq> 0"
    and "file_read_round k (stream_version file) h ps_packet_init to w = Some (hk, pk, tok, wk)"
    and "faults wk = []" and "\<not> cancelled tok"
    and "file_read file to w = (ret, file1, to1, w1)"
  shows "(length (unread hk) < 9 \<longrightarrow>
            ret = 0 \<and> packets to1 = packets tok @ [[GLC_MESSAGE_CLOSE]] \<and> \<not> cancelled to1 \<and>
            logged w1 = logged w @ [(GLC_ERROR, ''unexpected EOF'', [])]) \<and>
         (\<forall>t sz part. unread hk = frame_header (stream_version file) t sz @ part \<and> length part < unat sz \<longrightarrow>
            ret = EBADMSG \<and> packets to1 = packets tok \<and> cancelled to1 \<and>
            logged w1 = logged w @
              [(GLC_ERROR, ''%s (%d)'', [EBADMSG]), (GLC_DEBUG, ''packet size is %zd'', [int (unat sz)])]) \<and>
         (\<exists>ps. packets tok = packets to @ ps \<and> length ps = k \<and> (\<forall>p\<in>set ps. is_data_frame p)) \<and>
         (\<forall>frs tail. faults w = [] \<and> \<not> cancelled to \<and> (\<forall>fr\<in>set frs. data_frame fr) \<and>
            (\<forall>j<length frs. \<not> cancel_seq w (polls w + j)) \<and>
            unread h = concat (map (frame_bytes (stream_version file)) frs) @ tail \<longrightarrow>
            (\<exists>p. file_read_round (length frs) (stream_version file) h ps_packet_init to w =
               Some (advance (length (concat (map (frame_bytes (stream_version file)) frs))) h, p,
                     to\<lparr>packets := packets to @ map packet_of frs\<rparr>,
                     w\<lparr>polls := polls w + length frs\<rparr>) \<and>
                 unread (advance (length (concat (map (frame_bytes (stream_version file)) frs))) h) = tail))"
proof -
  let ?ver = "stream_version file"
  note eff = file_read_round_effect[OF assms(5)]
  from eff have lg: "logged wk = logged w" by simp
  have a: "ret = 0 \<and> packets to1 = packets tok @ [[GLC_MESSAGE_CLOSE]] \<and> \<not> cancelled to1 \<and>
            logged w1 = logged w @ [(GLC_ERROR, ''unexpected EOF'', [])]"
    if "length (unread hk) < 9"
  proof -
    from file_read_header_short[OF assms(6) that, of "?ver"]
    obtain h2 where "file_read_header ?ver hk wk = (None, h2, wk)" by blast
    from file_read_round_eof[OF assms(1-5) this]
    have "file_read file to w = file_read_send_eof file h2 pk tok wk" .
    moreover have "file_read_send_eof file h2 pk tok wk =
      (0, file\<lparr>handle := Some h2, flags := flags file AND NOT (FILE_INFO_READ OR FILE_INFO_VALID)\<rparr>,
       tok\<lparr>packets := packets tok @ [[GLC_MESSAGE_CLOSE]]\<rparr>,
       glc_log GLC_ERROR ''unexpected EOF'' [] wk)"
      by (rule send_eof_ok[OF assms(6,7)])
    ultimately show ?thesis
      using assms(8) assms(7) lg by (simp add: glc_log_def)
  qed
  have b: "ret = EBADMSG \<and> packets to1 = packets tok \<and> cancelled to1 \<and>
            logged w1 = logged w @
              [(GLC_ERROR, ''%s (%d)'', [EBADMSG]), (GLC_DEBUG, ''packet size is %zd'', [int (unat sz)])]"
    if "unread hk = frame_header ?ver t sz @ part" "length part < unat sz" for t sz part
  proof -
    from file_read_frame_short_payload[OF assms(6,7) that, of pk]
    obtain h2 pkt2 where "file_read_frame ?ver hk pk tok wk = (Err EBADMSG (unat sz), h2, pkt2, tok, wk)"
      by auto
    from file_read_round_err[OF assms(1-5) this] assms(8)
    show ?thesis
      by (simp add: read_failed_def read_ret_def read_buffer_def read_world_def)
  qed
  have c: "\<exists>ps. packets tok = packets to @ ps \<and> length ps = k \<and> (\<forall>p\<in>set ps. is_data_frame p)"
    using eff by simp
  have d: "\<exists>p. file_read_round (length frs) ?ver h ps_packet_init to w =
               Some (advance (length (concat (map (frame_bytes ?ver) frs))) h, p,
                     to\<lparr>packets := packets to @ map packet_of frs\<rparr>,
                     w\<lparr>polls := polls w + length frs\<rparr>) \<and>
                 unread (advance (length (concat (map (frame_bytes ?ver) frs))) h) = tail"
    if "faults w = []" "\<not> cancelled to" "\<forall>fr\<in>set frs. data_frame fr"
       "\<forall>j<length frs. \<not> cancel_seq w (polls w + j)"
       "unread h = concat (map (frame_bytes ?ver) frs) @ tail" for frs tail
    using file_read_round_frames[OF that, of ps_packet_init] that(5)
    by (simp add: unread_advance)
  from a b c d show ?thesis by blast
qed

theorem file_read_truncated_witness:
  "read_ret (file_read (reader GLC_STREAM_VERSION truncated_header_file) empty_buffer quiet_world) = 0
   \<and> packets (read_buffer (file_read (reader GLC_STREAM_VERSION truncated_header_file) empty_buffer quiet_world))
       = [[2, 0xAA], [GLC_MESSAGE_CLOSE]]
   \<and> logged (read_world (file_read (reader GLC_STREAM_VERSION truncated_header_file) empty_buffer quiet_world))
       = [(GLC_ERROR, ''unexpected EOF'', [])]"
proof -
  let ?F = "reader GLC_STREAM_VERSION truncated_header_file"
  let ?R = "file_read ?F empty_buffer quiet_world"
  let ?h = "\<lparr>fd = disk_file truncated_header_file, wbuf = []\<rparr>"
  let ?frs = "[picture]"
  let ?n = "length (concat (map (frame_bytes (stream_version ?F)) ?frs))"
  let ?tok = "empty_buffer\<lparr>packets := packets empty_buffer @ map packet_of ?frs\<rparr>"
  let ?wk = "quiet_world\<lparr>polls := polls quiet_world + length ?frs\<rparr>"
  have 1: "faults quiet_world = []" "\<not> cancelled empty_buffer"
    by (simp_all add: quiet_world_def empty_buffer_def)
  have 2: "\<forall>fr\<in>set ?frs. data_frame fr"
    by (simp add: data_frame_def picture_def GLC_MESSAGE_CLOSE_def)
  have 3: "\<forall>k<length ?frs. \<not> cancel_seq quiet_world (polls quiet_world + k)"
    by (simp add: quiet_world_def)
  have 4: "unread ?h = concat (map (frame_bytes (stream_version ?F)) ?frs) @ [1, 0, 0]"
    by (simp add: unread_def disk_file_def truncated_header_file_def picture_frame_def picture_def
        frame_bytes_def reader_def GLC_STREAM_VERSION_def le64_def)
  have rnd: "file_read_round 1 (stream_version ?F) ?h ps_packet_init empty_buffer quiet_world =
      Some (advance ?n ?h, ps_packet_init\<lparr>is_open := False, pdata := []\<rparr>, ?tok, ?wk)"
    using file_read_round_frames[OF 1 2 3 4, of ps_packet_init] by simp
  have 5: "faults ?wk = []" "\<not> cancelled ?tok"
    by (simp_all add: quiet_world_def empty_buffer_def)
  have 6: "length (unread (advance ?n ?h)) < 9"
    unfolding unread_advance 4 by simp
  from file_read_truncated[OF reader_pre rnd 5 read_result[of "?R"]] 6
  have "read_ret ?R = 0 \<and> packets (read_buffer ?R) = packets ?tok @ [[GLC_MESSAGE_CLOSE]] \<and>
        \<not> cancelled (read_buffer ?R) \<and>
        logged (read_world ?R) = logged quiet_world @ [(GLC_ERROR, ''unexpected EOF'', [])]"
    by blast
  then show ?thesis
    by (simp add: empty_buffer_def quiet_world_def packet_of_def picture_def)
qed

theorem file_read_truncated_counterexample:
  "read_ret (file_read (reader GLC_STREAM_VERSION truncated_payload_file) empty_buffer quiet_world) = EBADMSG
   \<and> cancelled (read_buffer (file_read (reader GLC_STREAM_VERSION truncated_payload_file) empty_buffer quiet_world))
   \<and> packets (read_buffer (file_read (reader GLC_STREAM_VERSION truncated_payload_file) empty_buffer quiet_world)) = []"
  by code_simp

lemma flag_nonzero [simp]:
  "FILE_READING \<noteq> 0" "FILE_WRITING \<noteq> 0" "FILE_RUNNING \<noteq> 0"
  "FILE_INFO_WRITTEN \<noteq> 0" "FILE_INFO_READ \<noteq> 0" "FILE_INFO_VALID \<noteq> 0"
  by (simp_all add: flag_defs)

lemma info_result: "r = (info_ret r, fst (snd r), info_file r, snd (snd (snd r)))"
  by (simp add: info_ret_def info_file_def)

lemma fread_take:
  assumes "faults w = []" "0 < n" "n \<le> length (unread h)"
  shows "fread_unlocked n h w = (Some (take n (unread h)), advance n h, w)"
proof -
  have "unread h = take n (unread h) @ drop n (unread h)" by simp
  moreover have "take n (unread h) \<noteq> []" using assms(2,3) by auto
  ultimately show ?thesis
    using fread_prefix[OF assms(1), of "take n (unread h)" h "drop n (unread h)"] assms(3)
    by simp
qed

lemma read_info_block_ok:
  assumes "faults w = []" "unat n \<le> length (unread h)"
  shows "\<exists>blk. read_info_block n h w = (True, blk, advance (unat n) h, w)"
proof (cases "n = 0")
  case True
  then show ?thesis by (simp add: read_info_block_def advance_def)
next
  case False
  then have "0 < unat n" by (simp add: unat_gt_0)
  from fread_take[OF assms(1) this assms(2)] False show ?thesis
    by (simp add: read_info_block_def word_greater_zero_iff)
qed

lemma file_test_stream_version_iff:
  "file_test_stream_version v = 0 \<longleftrightarrow> v = GLC_STREAM_VERSION \<or> v = 0x03"
  by (simp add: file_test_stream_version_def)

lemma read_info_block_short:
  assumes "faults w = []" "length (unread h) < unat n"
  shows "\<exists>blk h'. read_info_block n h w = (False, blk, h', w)"
proof -
  from assms(2) have "0 < unat n" by arith
  then have n: "0 < n" by (simp add: word_greater_zero_iff unat_gt_0)
  from fread_short[OF assms] obtain h' where "fread_unlocked (unat n) h w = (None, h', w)" by blast
  with n show ?thesis by (simp add: read_info_block_def)
qed

section \<open>The version gate of the stream info\<close>

text \<open>
  C6, as amended. \<open>file_test_stream_version\<close> returns 0 for \<open>GLC_STREAM_VERSION\<close> and for
  0x03, and \<open>ENOTSUP\<close> for every other version. Take a controller attached for reading, no
  injected failure, and a file that holds the 32 bytes of the header.
  \<^item> A wrong signature makes \<open>file_read_info\<close> return \<open>EINVAL\<close>, whatever the version: the
    signature is compared first.
  \<^item> The right signature with a version other than \<open>GLC_STREAM_VERSION\<close> and 0x03 makes
    it return \<open>ENOTSUP\<close>.
  \<^item> The right signature and one of the two versions, in a file that holds the name and
    date blocks the header announces, makes it return 0, set the info-valid flag and
    cache the version.
  \<^item> The right signature and one of the two versions, in a file that ends before the
    announced blocks do, makes it return \<open>errno\<close>.
  In every case but the third the call leaves the info-valid flag as it was.
\<close>
theorem file_read_info_version_gate:
  assumes "handle file = Some h" and "flags file AND FILE_READING \<noteq> 0" and "faults w = []"
    and "32 \<le> length (unread h)"
    and "info = info_of_bytes (take 32 (unread h))"
    and "file_read_info file w = (ret, out, file1, w1)"
  shows "file_test_stream_version v = (if v = GLC_STREAM_VERSION \<or> v = 0x03 then 0 else ENOTSUP) \<and>
         (signature info \<noteq> GLC_SIGNATURE \<longrightarrow>
            ret = EINVAL \<and> (flags file1 AND FILE_INFO_VALID = 0) = (flags file AND FILE_INFO_VALID = 0)) \<and>
         (signature info = GLC_SIGNATURE \<and> version info \<noteq> GLC_STREAM_VERSION \<and> version info \<noteq> 0x03 \<longrightarrow>
            ret = ENOTSUP \<and> (flags file1 AND FILE_INFO_VALID = 0) = (flags file AND FILE_INFO_VALID = 0)) \<and>
         (signature info = GLC_SIGNATURE \<and> (version info = GLC_STREAM_VERSION \<or> version info = 0x03) \<and>
          32 + unat (name_size info) + unat (date_size info) \<le> length (unread h) \<longrightarrow>
            ret = 0 \<and> flags file1 AND FILE_INFO_VALID \<noteq> 0 \<and> stream_version file1 = version info) \<and>
         (signature info = GLC_SIGNATURE \<and> (version info = GLC_STREAM_VERSION \<or> version info = 0x03) \<and>
          length (unread h) < 32 + unat (name_size info) + unat (date_size info) \<longrightarrow>
            ret = errno w \<and> (flags file1 AND FILE_INFO_VALID = 0) = (flags file AND FILE_INFO_VALID = 0))"
proof -
  have gate: "file_test_stream_version v = (if v = GLC_STREAM_VERSION \<or> v = 0x03 then 0 else ENOTSUP)"
    by (simp add: file_test_stream_version_def)
  have hdr: "fread_unlocked GLC_STREAM_INFO_SIZE h w = (Some (take 32 (unread h)), advance 32 h, w)"
    using fread_take[OF assms(3), of 32 h] assms(4) by (simp add: GLC_STREAM_INFO_SIZE_def)
  let ?keeps = "(flags file1 AND FILE_INFO_VALID = 0) = (flags file AND FILE_INFO_VALID = 0)"
  have sg: "ret = EINVAL \<and> ?keeps" if "signature info \<noteq> GLC_SIGNATURE"
  proof -
    from that assms(1,2,5,6) hdr
    have "ret = EINVAL \<and> flags file1 = flags file OR FILE_INFO_READ"
      by (auto simp: file_read_info_def Let_def)
    then show ?thesis by (simp add: flag_simps)
  qed
  have vs: "ret = ENOTSUP \<and> ?keeps"
    if "signature info = GLC_SIGNATURE" "version info \<noteq> GLC_STREAM_VERSION" "version info \<noteq> 0x03"
  proof -
    from that have "file_test_stream_version (version info) \<noteq> 0"
      by (simp add: file_test_stream_version_def)
    with that assms(1,2,5,6) hdr
    have "ret = ENOTSUP \<and> flags file1 = flags file OR FILE_INFO_READ"
      by (auto simp: file_read_info_def Let_def)
    then show ?thesis by (simp add: flag_simps)
  qed
  let ?w2 = "glc_log GLC_INFORMATION ''stream version 0x%02x'' [uint (version info)] w"
  have fw: "faults ?w2 = []" using assms(3) by (simp add: glc_log_def)
  have ew: "errno ?w2 = errno w" by (simp add: glc_log_def)
  have ok: "ret = 0 \<and> flags file1 AND FILE_INFO_VALID \<noteq> 0 \<and> stream_version file1 = version info"
    if s: "signature info = GLC_SIGNATURE" and v: "version info = GLC_STREAM_VERSION \<or> version info = 0x03"
      and b: "32 + unat (name_size info) + unat (date_size info) \<le> length (unread h)"
  proof -
    from v have t: "file_test_stream_version (version info) = 0"
      by (auto simp: file_test_stream_version_def)
    have "unat (name_size info) \<le> length (unread (advance 32 h))"
      using b by (simp add: unread_advance)
    from read_info_block_ok[OF fw this]
    obtain nm where nm: "read_info_block (name_size info) (advance 32 h) ?w2 =
        (True, nm, advance (unat (name_size info)) (advance 32 h), ?w2)" by blast
    have "unat (date_size info) \<le> length (unread (advance (unat (name_size info)) (advance 32 h)))"
      using b by (simp add: unread_advance)
    from read_info_block_ok[OF fw this]
    obtain dt where dt: "read_info_block (date_size info) (advance (unat (name_size info)) (advance 32 h)) ?w2 =
        (True, dt, advance (unat (date_size info)) (advance (unat (name_size info)) (advance 32 h)), ?w2)"
      by blast
    from s t assms(1,2,5,6) hdr nm dt
    have "ret = 0 \<and> flags file1 = (flags file OR FILE_INFO_READ) OR FILE_INFO_VALID \<and>
        stream_version file1 = version info"
      by (auto simp: file_read_info_def Let_def)
    then show ?thesis by (simp add: flag_simps)
  qed
  have cut: "ret = errno w \<and> ?keeps"
    if s: "signature info = GLC_SIGNATURE" and v: "version info = GLC_STREAM_VERSION \<or> version info = 0x03"
      and b: "length (unread h) < 32 + unat (name_size info) + unat (date_size info)"
  proof -
    from v have t: "file_test_stream_version (version info) = 0"
      by (auto simp: file_test_stream_version_def)
    have "ret = errno w \<and> flags file1 = flags file OR FILE_INFO_READ"
    proof (cases "length (unread (advance 32 h)) < unat (name_size info)")
      case True
      from read_info_block_short[OF fw True]
      obtain blk h' where "read_info_block (name_size info) (advance 32 h) ?w2 = (False, blk, h', ?w2)"
        by blast
      with s t assms(1,2,5,6) hdr ew show ?thesis
        by (auto simp: file_read_info_def Let_def)
    next
      case False
      then have "unat (name_size info) \<le> length (unread (advance 32 h))" by simp
      from read_info_block_ok[OF fw this]
      obtain nm where nm: "read_info_block (name_size info) (advance 32 h) ?w2 =
          (True, nm, advance (unat (name_size info)) (advance 32 h), ?w2)" by blast
      have "length (unread (advance (unat (name_size info)) (advance 32 h))) < unat (date_size info)"
        using b False assms(4) by (simp add: unread_advance)
      from read_info_block_short[OF fw this]
      obtain blk h' where "read_info_block (date_size info) (advance (unat (name_size info)) (advance 32 h)) ?w2 =
          (False, blk, h', ?w2)"
        by blast
      with s t assms(1,2,5,6) hdr nm ew show ?thesis
        by (auto simp: file_read_info_def Let_def)
    qed
    then show ?thesis by (simp add: flag_simps)
  qed
  from gate sg vs ok cut show ?thesis by (intro conjI impI) (simp, blast+)
qed

theorem file_read_info_version_gate_witness:
  "info_ret (file_read_info (source legacy_info_file) quiet_world) = 0
   \<and> flags (info_file (file_read_info (source legacy_info_file) quiet_world)) AND FILE_INFO_VALID \<noteq> 0
   \<and> stream_version (info_file (file_read_info (source legacy_info_file) quiet_world)) = 3"
proof -
  let ?R = "file_read_info (source legacy_info_file) quiet_world"
  let ?h = "\<lparr>fd = disk_file legacy_info_file, wbuf = []\<rparr>"
  let ?info = "info_of_bytes (take 32 (unread ?h))"
  have u: "unread ?h = legacy_info_file" by (simp add: unread_def disk_file_def)
  have i: "signature ?info = GLC_SIGNATURE" "version ?info = 3" "unat (name_size ?info) = 2" "unat (date_size ?info) = 1"
    unfolding u by (simp_all add: info_of_bytes_def legacy_info_file_def GLC_SIGNATURE_def)
  have 1: "handle (source legacy_info_file) = Some ?h" "flags (source legacy_info_file) AND FILE_READING \<noteq> 0"
    "faults quiet_world = []"
    by (simp_all add: source_def quiet_world_def flag_defs)
  have 2: "32 \<le> length (unread ?h)"
    unfolding u by (simp add: legacy_info_file_def)
  have 3: "32 + unat (name_size ?info) + unat (date_size ?info) \<le> length (unread ?h)"
    unfolding i unfolding u by (simp add: legacy_info_file_def)
  from file_read_info_version_gate[OF 1 2 refl info_result[of ?R]] i 3
  have "info_ret ?R = 0 \<and> flags (info_file ?R) AND FILE_INFO_VALID \<noteq> 0 \<and> stream_version (info_file ?R) = 3"
    by simp
  then show ?thesis by simp
qed

theorem file_read_info_version_gate_counterexample:
  "signature (info_of_bytes info_without_blocks) = GLC_SIGNATURE
   \<and> version (info_of_bytes info_without_blocks) = GLC_STREAM_VERSION
   \<and> info_ret (file_read_info (source info_without_blocks) (quiet_world\<lparr>errno := 2\<rparr>)) = 2
   \<and> flags (info_file (file_read_info (source info_without_blocks) (quiet_world\<lparr>errno := 2\<rparr>))) AND FILE_INFO_VALID = 0"
  by code_simp

section \<open>A failing read of the stream info\<close>

text \<open>
  C3, as amended. Take a controller attached for reading whose info-valid flag is
  clear, and a call of \<open>file_read_info\<close> that fails on the header: the 32 header bytes
  cannot be read, or the signature is wrong, or the version is not supported. Then the
  info-valid flag is clear afterwards; the flags are unchanged when the header could
  not be read, and otherwise the info-read flag has been set and the call returns
  \<open>EINVAL\<close> or \<open>ENOTSUP\<close>; and a following \<open>file_read\<close> returns \<open>EAGAIN\<close> or \<open>EINVAL\<close>
  without touching the destination buffer or the handle.
\<close>

theorem file_read_info_failure:
  assumes "handle file = Some h" and "flags file AND FILE_READING \<noteq> 0"
    and "flags file AND FILE_INFO_VALID = 0"
    and "fread_unlocked GLC_STREAM_INFO_SIZE h w = (r, h1, w0)"
    and "case r of None \<Rightarrow> True
         | Some bs \<Rightarrow> signature (info_of_bytes bs) \<noteq> GLC_SIGNATURE \<or>
                     file_test_stream_version (version (info_of_bytes bs)) \<noteq> 0"
    and "file_read_info file w = (ret, out, file1, w1)"
  shows "flags file1 AND FILE_INFO_VALID = 0 \<and>
         (case r of None \<Rightarrow> flags file1 = flags file
          | Some bs \<Rightarrow> flags file1 = flags file OR FILE_INFO_READ \<and> (ret = EINVAL \<or> ret = ENOTSUP)) \<and>
         (\<forall>to w'. \<exists>ret2 file2 w2. file_read file1 to w' = (ret2, file2, to, w2) \<and>
            (ret2 = EAGAIN \<or> ret2 = EINVAL) \<and> handle file2 = handle file1)"
proof -
  have fl: "(case r of None \<Rightarrow> flags file1 = flags file
          | Some bs \<Rightarrow> flags file1 = flags file OR FILE_INFO_READ \<and> (ret = EINVAL \<or> ret = ENOTSUP))"
    using assms(1,2,4,5,6)
    by (cases r) (auto simp: file_read_info_def Let_def split: if_splits)
  with assms(3) have v: "flags file1 AND FILE_INFO_VALID = 0"
    by (cases r) (auto simp: flag_simps)
  have "\<exists>ret2 file2 w2. file_read file1 to w' = (ret2, file2, to, w2) \<and>
            (ret2 = EAGAIN \<or> ret2 = EINVAL) \<and> handle file2 = handle file1" for to w'
  proof -
    obtain ret2 file2 to2 w2 where rd: "file_read file1 to w' = (ret2, file2, to2, w2)"
      by (metis prod_cases4)
    from file_read_cases[OF rd] v have "to2 = to \<and> (ret2 = EAGAIN \<or> ret2 = EINVAL) \<and> handle file2 = handle file1"
      by auto
    with rd show ?thesis by blast
  qed
  with fl v show ?thesis by blast
qed

theorem file_read_info_failure_witness:
  "flags (info_file (file_read_info (source bad_magic_file) quiet_world)) AND FILE_INFO_VALID = 0
   \<and> flags (info_file (file_read_info (source bad_magic_file) quiet_world)) = FILE_READING OR FILE_INFO_READ
   \<and> info_ret (file_read_info (source bad_magic_file) quiet_world) = EINVAL"
proof -
  let ?R = "file_read_info (source bad_magic_file) quiet_world"
  let ?h = "\<lparr>fd = disk_file bad_magic_file, wbuf = []\<rparr>"
  have 1: "handle (source bad_magic_file) = Some ?h" "flags (source bad_magic_file) AND FILE_READING \<noteq> 0"
    "flags (source bad_magic_file) AND FILE_INFO_VALID = 0"
    by (simp_all add: source_def flag_defs)
  have 2: "fread_unlocked GLC_STREAM_INFO_SIZE ?h quiet_world = (Some bad_magic_file, advance 32 ?h, quiet_world)"
    using fread_take[of quiet_world 32 ?h]
    by (simp add: quiet_world_def unread_def disk_file_def bad_magic_file_def GLC_STREAM_INFO_SIZE_def)
  have s: "signature (info_of_bytes bad_magic_file) \<noteq> GLC_SIGNATURE"
    by (simp add: info_of_bytes_def GLC_SIGNATURE_def bad_magic_file_def)
  then have 3: "case Some bad_magic_file of None \<Rightarrow> True
         | Some bs \<Rightarrow> signature (info_of_bytes bs) \<noteq> GLC_SIGNATURE \<or>
                     file_test_stream_version (version (info_of_bytes bs)) \<noteq> 0"
    by simp
  have r: "info_ret ?R = EINVAL"
    using 1 2 s by (simp add: file_read_info_def info_ret_def Let_def)
  have f: "flags (source bad_magic_file) = FILE_READING"
    by (simp add: source_def)
  from file_read_info_failure[OF 1 2 3 info_result[of ?R]] r
  show ?thesis by (simp add: f flag_defs)
qed

theorem file_read_info_failure_counterexample:
  "info_ret (file_read_info (source bad_magic_file) quiet_world) = EINVAL
   \<and> flags (info_file (file_read_info (source bad_magic_file) quiet_world)) AND FILE_INFO_READ = FILE_INFO_READ
   \<and> FILE_INFO_READ = 0x10"
  by code_simp

lemma op_result: "r = (op_ret r, op_file r, op_world r)"
  by (simp add: op_ret_def op_file_def op_world_def)

lemma fwrite_ok:
  "faults w = [] \<Longrightarrow> bs \<noteq> [] \<Longrightarrow> fwrite_unlocked bs h w = (1, h\<lparr>wbuf := wbuf h @ bs\<rparr>, w)"
  by (simp add: fwrite_unlocked_def next_fault_nil)

lemma fflush_ok:
  "faults w = [] \<Longrightarrow> fflush_unlocked h w = (0, h\<lparr>fd := os_write (wbuf h) (fd h), wbuf := []\<rparr>, w)"
  by (simp add: fflush_unlocked_def next_fault_nil)

lemma info_bytes_nonempty: "info_bytes info \<noteq> []"
  by (simp add: info_bytes_def le32_def)

section \<open>Writing the stream info\<close>

text \<open>
  C4, as amended. \<open>file_write_info\<close> returns \<open>EAGAIN\<close> and changes nothing whenever the
  controller has no handle, is running, or is not attached for writing; the
  info-written flag is not consulted. When the controller is attached for writing and
  not running, the environment injects no failure and both blocks are non-empty, the
  call appends the 32 header bytes, then the name bytes, then the date bytes, in that
  order, to the stream; in sync mode it flushes the stream to the descriptor, otherwise
  the bytes stay buffered; it sets the info-written flag and returns 0.
\<close>

theorem file_write_info_effect:
  "(handle file = None \<or> flags file AND FILE_RUNNING \<noteq> 0 \<or> flags file AND FILE_WRITING = 0 \<longrightarrow>
      file_write_info file info info_name info_date w = (EAGAIN, file, w)) \<and>
   (handle file = Some h \<and> flags file AND FILE_RUNNING = 0 \<and> flags file AND FILE_WRITING \<noteq> 0 \<and>
    faults w = [] \<and> name_size info \<noteq> 0 \<and> date_size info \<noteq> 0 \<and>
    unat (name_size info) \<le> length info_name \<and> unat (date_size info) \<le> length info_date \<longrightarrow>
      file_write_info file info info_name info_date w =
        (0,
         file\<lparr>handle := Some
                (if sync file \<noteq> 0
                 then h\<lparr>fd := os_write (wbuf h @ info_bytes info @ take (unat (name_size info)) info_name @
                                 take (unat (date_size info)) info_date) (fd h), wbuf := []\<rparr>
                 else h\<lparr>wbuf := wbuf h @ info_bytes info @ take (unat (name_size info)) info_name @
                                 take (unat (date_size info)) info_date\<rparr>),
              flags := flags file OR FILE_INFO_WRITTEN\<rparr>,
         w))"
proof -
  have a: "file_write_info file info info_name info_date w = (EAGAIN, file, w)"
    if "handle file = None \<or> flags file AND FILE_RUNNING \<noteq> 0 \<or> flags file AND FILE_WRITING = 0"
    using that by (auto simp: file_write_info_def split: option.splits)
  have b: "file_write_info file info info_name info_date w =
        (0,
         file\<lparr>handle := Some
                (if sync file \<noteq> 0
                 then h\<lparr>fd := os_write (wbuf h @ info_bytes info @ take (unat (name_size info)) info_name @
                                 take (unat (date_size info)) info_date) (fd h), wbuf := []\<rparr>
                 else h\<lparr>wbuf := wbuf h @ info_bytes info @ take (unat (name_size info)) info_name @
                                 take (unat (date_size info)) info_date\<rparr>),
              flags := flags file OR FILE_INFO_WRITTEN\<rparr>,
         w)"
    if "handle file = Some h" "flags file AND FILE_RUNNING = 0" "flags file AND FILE_WRITING \<noteq> 0"
      "faults w = []" "name_size info \<noteq> 0" "date_size info \<noteq> 0"
      "unat (name_size info) \<le> length info_name" "unat (date_size info) \<le> length info_date"
  proof -
    have n: "take (unat (name_size info)) info_name \<noteq> []"
      using that(5,7) by (auto simp: unat_eq_zero)
    have d: "take (unat (date_size info)) info_date \<noteq> []"
      using that(6,8) by (auto simp: unat_eq_zero)
    show ?thesis
      using that(1-4) n d
      by (simp add: file_write_info_def fwrite_ok fflush_ok info_bytes_nonempty)
  qed
  from a b show ?thesis by blast
qed

theorem file_write_info_effect_witness:
  "op_ret (file_write_info (target FILE_WRITING 1) demo_info [0x61, 0] [0x62, 0] quiet_world) = 0
   \<and> map_option (contents \<circ> fd) (handle (op_file (file_write_info (target FILE_WRITING 1) demo_info [0x61, 0] [0x62, 0] quiet_world)))
       = Some (info_bytes demo_info @ [0x61, 0] @ [0x62, 0])
   \<and> flags (op_file (file_write_info (target FILE_WRITING 1) demo_info [0x61, 0] [0x62, 0] quiet_world))
       = FILE_WRITING OR FILE_INFO_WRITTEN
   \<and> op_ret (file_write_info (target FILE_RUNNING 1) demo_info [0x61, 0] [0x62, 0] quiet_world) = EAGAIN"
proof -
  let ?h = "\<lparr>fd = (disk_file [])\<lparr>locked := True\<rparr>, wbuf = []\<rparr>"
  have 1: "handle (target FILE_WRITING 1) = Some ?h \<and> flags (target FILE_WRITING 1) AND FILE_RUNNING = 0 \<and>
    flags (target FILE_WRITING 1) AND FILE_WRITING \<noteq> 0 \<and>
    faults quiet_world = [] \<and> name_size demo_info \<noteq> 0 \<and> date_size demo_info \<noteq> 0 \<and>
    unat (name_size demo_info) \<le> length [0x61, 0 :: byte] \<and> unat (date_size demo_info) \<le> length [0x62, 0 :: byte]"
    by (simp add: target_def quiet_world_def demo_info_def flag_defs)
  have 2: "handle (target FILE_RUNNING 1) = None \<or> flags (target FILE_RUNNING 1) AND FILE_RUNNING \<noteq> 0 \<or>
    flags (target FILE_RUNNING 1) AND FILE_WRITING = 0"
    by (simp add: target_def flag_defs)
  have s: "sync (target FILE_WRITING 1) \<noteq> 0" "flags (target FILE_WRITING 1) = FILE_WRITING"
    "unat (name_size demo_info) = 2" "unat (date_size demo_info) = 2"
    by (simp_all add: target_def demo_info_def)
  from file_write_info_effect[of "target FILE_WRITING 1" demo_info "[0x61, 0]" "[0x62, 0]" quiet_world ?h] 1
  have a: "file_write_info (target FILE_WRITING 1) demo_info [0x61, 0] [0x62, 0] quiet_world =
        (0,
         (target FILE_WRITING 1)\<lparr>handle := Some
                (?h\<lparr>fd := os_write (wbuf ?h @ info_bytes demo_info @ [0x61, 0] @ [0x62, 0]) (fd ?h), wbuf := []\<rparr>),
              flags := FILE_WRITING OR FILE_INFO_WRITTEN\<rparr>,
         quiet_world)"
    by (simp add: s)
  from file_write_info_effect[of "target FILE_RUNNING 1" demo_info "[0x61, 0]" "[0x62, 0]" quiet_world ?h] 2
  have b: "file_write_info (target FILE_RUNNING 1) demo_info [0x61, 0] [0x62, 0] quiet_world =
      (EAGAIN, target FILE_RUNNING 1, quiet_world)"
    by blast
  show ?thesis
    unfolding a b by (simp add: op_ret_def op_file_def os_write_def disk_file_def)
qed

theorem file_write_info_effect_counterexample:
  "flags (target (FILE_WRITING OR FILE_INFO_WRITTEN) 0) AND FILE_INFO_WRITTEN = FILE_INFO_WRITTEN
   \<and> op_ret (file_write_info (target (FILE_WRITING OR FILE_INFO_WRITTEN) 0) demo_info [0x61, 0] [0x62, 0] quiet_world) = 0
   \<and> map_option wbuf (handle (op_file (file_write_info (target (FILE_WRITING OR FILE_INFO_WRITTEN) 0) demo_info [0x61, 0] [0x62, 0] quiet_world)))
       = Some (info_bytes demo_info @ [0x61, 0, 0x62, 0])"
  by code_simp

section \<open>Callback requests in the write pump\<close>

text \<open>
  C7, as amended. Take a frame of the callback-request type handed to the read callback
  of the write pump. When a callback is installed, the result of the call is the result
  of one call of the callback, with the request's argument, on a controller that has
  the running flag clear and the handle as it was (nothing was written) and on the
  environment as it was; the running flag is set in the controller the callback hands
  back, and the status is 0. When no callback is installed, no call is made: the frame
  only reaches the state tracker, and the status is 0.
\<close>

theorem file_read_callback_request:
  assumes "header_type state = creq"
  shows "(\<forall>cb. callback file = Some cb \<longrightarrow>
           (\<exists>file0. flags file0 AND FILE_RUNNING = 0 \<and> handle file0 = handle file \<and>
              file_read_callback invoke creq file state w =
                (0, (fst (invoke cb (callback_request_arg (read_data state)) file0 w))
                      \<lparr>flags := flags (fst (invoke cb (callback_request_arg (read_data state)) file0 w))
                                 OR FILE_RUNNING\<rparr>,
                 snd (invoke cb (callback_request_arg (read_data state)) file0 w)) \<and>
              flags (op_file (file_read_callback invoke creq file state w)) AND FILE_RUNNING \<noteq> 0)) \<and>
         (callback file = None \<longrightarrow>
            file_read_callback invoke creq file state w = (0, tracker_submit file state, w))"
proof -
  let ?file0 = "(tracker_submit file state)\<lparr>flags := flags (tracker_submit file state) AND NOT FILE_RUNNING\<rparr>"
  have a: "flags ?file0 AND FILE_RUNNING = 0 \<and> handle ?file0 = handle file"
    by (simp add: tracker_submit_def flag_simps)
  have b: "file_read_callback invoke creq file state w =
                (0, (fst (invoke cb (callback_request_arg (read_data state)) ?file0 w))
                      \<lparr>flags := flags (fst (invoke cb (callback_request_arg (read_data state)) ?file0 w))
                                 OR FILE_RUNNING\<rparr>,
                 snd (invoke cb (callback_request_arg (read_data state)) ?file0 w))"
    if "callback file = Some cb" for cb
    using that assms
    by (simp add: file_read_callback_def Let_def tracker_submit_def split: prod.splits)
  have c: "flags (op_file (file_read_callback invoke creq file state w)) AND FILE_RUNNING \<noteq> 0"
    if "callback file = Some cb" for cb
    unfolding b[OF that] by (simp add: op_file_def flag_simps)
  have d: "file_read_callback invoke creq file state w = (0, tracker_submit file state, w)"
    if "callback file = None"
    using that assms by (simp add: file_read_callback_def Let_def tracker_submit_def)
  from a b c d show ?thesis by blast
qed

theorem file_read_callback_request_witness:
  "logged (op_world (file_read_callback noting_callback 0x0b
      ((target (FILE_WRITING OR FILE_INFO_WRITTEN OR FILE_RUNNING) 0)\<lparr>callback := Some ()\<rparr>)
      (callback_request 0x0b) quiet_world)) = [(GLC_INFORMATION, ''callback'', [7, 0])]
   \<and> flags (op_file (file_read_callback noting_callback 0x0b
      ((target (FILE_WRITING OR FILE_INFO_WRITTEN OR FILE_RUNNING) 0)\<lparr>callback := Some ()\<rparr>)
      (callback_request 0x0b) quiet_world)) AND FILE_RUNNING \<noteq> 0"
proof -
  let ?file = "(target (FILE_WRITING OR FILE_INFO_WRITTEN OR FILE_RUNNING) 0)\<lparr>callback := Some ()\<rparr>"
  let ?R = "file_read_callback noting_callback 0x0b ?file (callback_request 0x0b) quiet_world"
  have 1: "header_type (callback_request 0x0b) = 0x0b" by (simp add: callback_request_def)
  have 2: "callback ?file = Some ()" by simp
  from file_read_callback_request[OF 1, of ?file noting_callback quiet_world] 2
  obtain file0 where f0: "flags file0 AND FILE_RUNNING = 0"
    and r: "?R = (0, (fst (noting_callback () (callback_request_arg (read_data (callback_request 0x0b))) file0 quiet_world))
                      \<lparr>flags := flags (fst (noting_callback () (callback_request_arg (read_data (callback_request 0x0b))) file0 quiet_world))
                                 OR FILE_RUNNING\<rparr>,
                 snd (noting_callback () (callback_request_arg (read_data (callback_request 0x0b))) file0 quiet_world))"
    and g: "flags (op_file ?R) AND FILE_RUNNING \<noteq> 0"
    by blast
  have "logged (op_world ?R) = [(GLC_INFORMATION, ''callback'', [7, 0])]"
    unfolding r using f0
    by (simp add: op_world_def noting_callback_def glc_log_def quiet_world_def callback_request_def
        callback_request_arg_def)
  with g show ?thesis by simp
qed

theorem file_read_callback_request_counterexample:
  "callback (target (FILE_WRITING OR FILE_INFO_WRITTEN OR FILE_RUNNING) 0) = None
   \<and> op_ret (file_read_callback noting_callback 0x0b
      (target (FILE_WRITING OR FILE_INFO_WRITTEN OR FILE_RUNNING) 0) (callback_request 0x0b) quiet_world) = 0
   \<and> logged (op_world (file_read_callback noting_callback 0x0b
      (target (FILE_WRITING OR FILE_INFO_WRITTEN OR FILE_RUNNING) 0) (callback_request 0x0b) quiet_world)) = []"
  by code_simp

lemma next_fault_Cons: "faults w = e # es \<Longrightarrow> next_fault w = (e, w\<lparr>faults := es\<rparr>)"
  by (simp add: next_fault_def)

lemma lockfile_returns: "\<exists>r. lockfile f w = Some r"
  by (simp add: lockfile_def lock_reg_def split: prod.splits)

section \<open>Attaching a target\<close>

text \<open>
  C8, as amended. \<open>file_set_target\<close> always returns (it never waits for a lock). It
  returns \<open>EBUSY\<close> when a handle is attached. Otherwise, with no failure injected and no
  conflicting lock, it sets the mode to the old mode with group-execute cleared and
  set-group-ID set, takes the write lock, rewinds, truncates, wraps the descriptor in a
  stream with an empty buffer, sets \<open>FILE_WRITING\<close> and returns 0. With a conflicting lock
  it returns \<open>EAGAIN\<close> at once, the contents untouched and nothing attached. A failure of
  \<open>fstat\<close>, \<open>fchmod\<close>, the lock or \<open>fdopen\<close> ends the call with that error and nothing
  attached. The results of \<open>lseek\<close> and \<open>ftruncate\<close> are not looked at: when they fail the
  attach goes on, and after a failed truncation the old contents are still there.
\<close>

theorem file_set_target_steps:
  "(\<exists>r. file_set_target file f w = Some r) \<and>
   (handle file \<noteq> None \<longrightarrow> file_set_target file f w = Some (EBUSY, f, file, w)) \<and>
   (handle file = None \<and> faults w = [] \<and> \<not> lock_conflict f \<longrightarrow>
      file_set_target file f w =
        Some (0, f\<lparr>st_mode := lock_mode (st_mode f), locked := True, offset := 0, contents := []\<rparr>,
              file\<lparr>handle := Some \<lparr>fd = f\<lparr>st_mode := lock_mode (st_mode f), locked := True, offset := 0,
                                           contents := []\<rparr>, wbuf = []\<rparr>,
                   flags := flags file OR FILE_WRITING\<rparr>, w)) \<and>
   (handle file = None \<and> faults w = [] \<and> lock_conflict f \<longrightarrow>
      (\<exists>w1. file_set_target file f w = Some (EAGAIN, f\<lparr>st_mode := lock_mode (st_mode f)\<rparr>, file, w1))) \<and>
   (\<forall>e es. handle file = None \<and> e \<noteq> 0 \<and> faults w = e # es \<longrightarrow>
      (\<exists>w1. file_set_target file f w = Some (e, f, file, w1))) \<and>
   (\<forall>e es. handle file = None \<and> e \<noteq> 0 \<and> faults w = 0 # e # es \<longrightarrow>
      (\<exists>w1. file_set_target file f w = Some (e, f, file, w1))) \<and>
   (\<forall>e es. handle file = None \<and> e \<noteq> 0 \<and> faults w = 0 # 0 # e # es \<longrightarrow>
      (\<exists>w1. file_set_target file f w = Some (e, f\<lparr>st_mode := lock_mode (st_mode f)\<rparr>, file, w1))) \<and>
   (\<forall>a b e es. handle file = None \<and> e \<noteq> 0 \<and> \<not> lock_conflict f \<and> faults w = 0 # 0 # 0 # a # b # e # es \<longrightarrow>
      (\<exists>f1 w1. file_set_target file f w = Some (e, f1, file, w1))) \<and>
   (\<forall>a b es. handle file = None \<and> \<not> lock_conflict f \<and> faults w = 0 # 0 # 0 # a # b # 0 # es \<longrightarrow>
      (\<exists>f1 w1. file_set_target file f w =
         Some (0, f1, file\<lparr>handle := Some \<lparr>fd = f1, wbuf = []\<rparr>, flags := flags file OR FILE_WRITING\<rparr>, w1) \<and>
         locked f1 \<and> st_mode f1 = lock_mode (st_mode f) \<and>
         (a = 0 \<longrightarrow> offset f1 = 0) \<and> (b = 0 \<longrightarrow> contents f1 = []) \<and> (b \<noteq> 0 \<longrightarrow> contents f1 = contents f)))"
proof -
  have 2: "handle file \<noteq> None \<longrightarrow> file_set_target file f w = Some (EBUSY, f, file, w)"
    by (simp add: file_set_target_def)
  have 1: "\<exists>r. file_set_target file f w = Some r"
  proof (cases "handle file")
    case (Some h)
    with 2 show ?thesis by simp
  next
    case None
    obtain r1 m w1 where a: "fstat f w = (r1, m, w1)" by (metis prod_cases3)
    obtain r2 f2 w2 where b: "fchmod f (lock_mode m) w1 = (r2, f2, w2)" by (metis prod_cases3)
    obtain r3 f3 w3 where c: "lockfile f2 w2 = Some (r3, f3, w3)"
      using lockfile_returns[of f2 w2] by (metis prod_cases3)
    obtain r4 f4 w4 where d: "lseek_set0 f3 w3 = (r4, f4, w4)" by (metis prod_cases3)
    obtain r5 f5 w5 where e: "ftruncate0 f4 w4 = (r5, f5, w5)" by (metis prod_cases3)
    obtain ho w6 where g: "fdopen f5 w5 = (ho, w6)" by (metis prod.exhaust)
    from None a b c d e g show ?thesis
      by (cases ho) (simp_all add: file_set_target_def lock_mode_def)
  qed
  have 3: "handle file = None \<and> faults w = [] \<and> \<not> lock_conflict f \<longrightarrow>
      file_set_target file f w =
        Some (0, f\<lparr>st_mode := lock_mode (st_mode f), locked := True, offset := 0, contents := []\<rparr>,
              file\<lparr>handle := Some \<lparr>fd = f\<lparr>st_mode := lock_mode (st_mode f), locked := True, offset := 0,
                                           contents := []\<rparr>, wbuf = []\<rparr>,
                   flags := flags file OR FILE_WRITING\<rparr>, w)"
    by (simp add: file_set_target_def fstat_def fchmod_def lockfile_def lock_reg_def lseek_set0_def
        ftruncate0_def fdopen_def next_fault_nil lock_mode_def)
  have 4: "handle file = None \<and> faults w = [] \<and> lock_conflict f \<longrightarrow>
      (\<exists>w1. file_set_target file f w = Some (EAGAIN, f\<lparr>st_mode := lock_mode (st_mode f)\<rparr>, file, w1))"
    by (simp add: file_set_target_def fstat_def fchmod_def lockfile_def lock_reg_def
        next_fault_nil lock_mode_def)
  have 5: "\<forall>e es. handle file = None \<and> e \<noteq> 0 \<and> faults w = e # es \<longrightarrow>
      (\<exists>w1. file_set_target file f w = Some (e, f, file, w1))"
    by (simp add: file_set_target_def fstat_def next_fault_Cons)
  have 6: "\<forall>e es. handle file = None \<and> e \<noteq> 0 \<and> faults w = 0 # e # es \<longrightarrow>
      (\<exists>w1. file_set_target file f w = Some (e, f, file, w1))"
    by (simp add: file_set_target_def fstat_def fchmod_def next_fault_Cons)
  have 7: "\<forall>e es. handle file = None \<and> e \<noteq> 0 \<and> faults w = 0 # 0 # e # es \<longrightarrow>
      (\<exists>w1. file_set_target file f w = Some (e, f\<lparr>st_mode := lock_mode (st_mode f)\<rparr>, file, w1))"
    by (simp add: file_set_target_def fstat_def fchmod_def lockfile_def lock_reg_def
        next_fault_Cons lock_mode_def)
  have 8: "\<forall>a b e es. handle file = None \<and> e \<noteq> 0 \<and> \<not> lock_conflict f \<and> faults w = 0 # 0 # 0 # a # b # e # es \<longrightarrow>
      (\<exists>f1 w1. file_set_target file f w = Some (e, f1, file, w1))"
    by (simp add: file_set_target_def fstat_def fchmod_def lockfile_def lock_reg_def lseek_set0_def
        ftruncate0_def fdopen_def next_fault_Cons lock_mode_def)
  have 9: "\<forall>a b es. handle file = None \<and> \<not> lock_conflict f \<and> faults w = 0 # 0 # 0 # a # b # 0 # es \<longrightarrow>
      (\<exists>f1 w1. file_set_target file f w =
         Some (0, f1, file\<lparr>handle := Some \<lparr>fd = f1, wbuf = []\<rparr>, flags := flags file OR FILE_WRITING\<rparr>, w1) \<and>
         locked f1 \<and> st_mode f1 = lock_mode (st_mode f) \<and>
         (a = 0 \<longrightarrow> offset f1 = 0) \<and> (b = 0 \<longrightarrow> contents f1 = []) \<and> (b \<noteq> 0 \<longrightarrow> contents f1 = contents f))"
    by (simp add: file_set_target_def fstat_def fchmod_def lockfile_def lock_reg_def lseek_set0_def
        ftruncate0_def fdopen_def next_fault_Cons lock_mode_def)
  show ?thesis
    by (rule conjI[OF 1 conjI[OF 2 conjI[OF 3 conjI[OF 4 conjI[OF 5 conjI[OF 6 conjI[OF 7 conjI[OF 8 9]]]]]]]])
qed

theorem file_set_target_steps_witness:
  "map_option attach_ret (file_set_target fresh_file (disk_file [1, 2, 3]) quiet_world) = Some 0
   \<and> map_option (contents \<circ> attach_fd) (file_set_target fresh_file (disk_file [1, 2, 3]) quiet_world) = Some []
   \<and> map_option (locked \<circ> attach_fd) (file_set_target fresh_file (disk_file [1, 2, 3]) quiet_world) = Some True
   \<and> map_option attach_ret (file_set_target fresh_file ((disk_file [1, 2, 3])\<lparr>lock_conflict := True\<rparr>) quiet_world)
        = Some EAGAIN
   \<and> map_option (contents \<circ> attach_fd)
        (file_set_target fresh_file ((disk_file [1, 2, 3])\<lparr>lock_conflict := True\<rparr>) quiet_world) = Some [1, 2, 3]
   \<and> map_option attach_ret (file_set_target fresh_file (disk_file [1, 2, 3]) (quiet_world\<lparr>faults := [0, 13]\<rparr>))
        = Some 13"
proof -
  have h: "handle fresh_file = None" by (simp add: fresh_file_def file_init_def)
  have q: "faults quiet_world = []" by (simp add: quiet_world_def)
  have n: "\<not> lock_conflict (disk_file [1, 2, 3])" by (simp add: disk_file_def)
  have c: "lock_conflict ((disk_file [1, 2, 3])\<lparr>lock_conflict := True\<rparr>)" by simp
  have f: "faults (quiet_world\<lparr>faults := [0, 13]\<rparr>) = 0 # 13 # []" "(13::int) \<noteq> 0" by simp_all
  from file_set_target_steps[of fresh_file "disk_file [1, 2, 3]" quiet_world] h q n
  have a: "file_set_target fresh_file (disk_file [1, 2, 3]) quiet_world =
        Some (0, (disk_file [1, 2, 3])\<lparr>st_mode := lock_mode (st_mode (disk_file [1, 2, 3])), locked := True, offset := 0, contents := []\<rparr>,
              fresh_file\<lparr>handle := Some \<lparr>fd = (disk_file [1, 2, 3])\<lparr>st_mode := lock_mode (st_mode (disk_file [1, 2, 3])), locked := True, offset := 0,
                                           contents := []\<rparr>, wbuf = []\<rparr>,
                   flags := flags fresh_file OR FILE_WRITING\<rparr>, quiet_world)"
    by blast
  from file_set_target_steps[of fresh_file "(disk_file [1, 2, 3])\<lparr>lock_conflict := True\<rparr>" quiet_world] h q c
  obtain w1 where b: "file_set_target fresh_file ((disk_file [1, 2, 3])\<lparr>lock_conflict := True\<rparr>) quiet_world =
      Some (EAGAIN, ((disk_file [1, 2, 3])\<lparr>lock_conflict := True\<rparr>)\<lparr>st_mode := lock_mode (st_mode ((disk_file [1, 2, 3])\<lparr>lock_conflict := True\<rparr>))\<rparr>, fresh_file, w1)"
    by blast
  from file_set_target_steps[of fresh_file "disk_file [1, 2, 3]" "quiet_world\<lparr>faults := [0, 13]\<rparr>"] h f
  obtain w2 where d: "file_set_target fresh_file (disk_file [1, 2, 3]) (quiet_world\<lparr>faults := [0, 13]\<rparr>) =
      Some (13, disk_file [1, 2, 3], fresh_file, w2)"
    by blast
  show ?thesis
    unfolding a b d by (simp add: attach_ret_def attach_fd_def disk_file_def)
qed

theorem file_set_target_steps_counterexample:
  "map_option attach_ret
     (file_set_target fresh_file (disk_file [1, 2, 3]) (quiet_world\<lparr>faults := [0, 0, 0, 0, 28]\<rparr>)) = Some 0
   \<and> map_option (contents \<circ> attach_fd)
     (file_set_target fresh_file (disk_file [1, 2, 3]) (quiet_world\<lparr>faults := [0, 0, 0, 0, 28]\<rparr>)) = Some [1, 2, 3]
   \<and> map_option (map_option (contents \<circ> fd) \<circ> handle \<circ> attach_file)
     (file_set_target fresh_file (disk_file [1, 2, 3]) (quiet_world\<lparr>faults := [0, 0, 0, 0, 28]\<rparr>)) = Some (Some [1, 2, 3])"
  by code_simp

lemma stream_image_append [simp]: "stream_image (h\<lparr>wbuf := wbuf h @ bs\<rparr>) = stream_image h @ bs"
  by (simp add: stream_image_def)

lemma at_end_append [simp]: "at_end (h\<lparr>wbuf := bs\<rparr>) = at_end h"
  by (simp add: at_end_def)

lemma os_write_at_end:
  "length (contents f) \<le> offset f \<Longrightarrow>
     contents (os_write bs f) = contents f @ bs \<and> offset (os_write bs f) = offset f + length bs"
  by (simp add: os_write_def)

lemma flush_image:
  assumes "at_end h"
  shows "stream_image (h\<lparr>fd := os_write (wbuf h) (fd h), wbuf := []\<rparr>) = stream_image h"
    and "at_end (h\<lparr>fd := os_write (wbuf h) (fd h), wbuf := []\<rparr>)"
  using assms os_write_at_end[of "fd h" "wbuf h"]
  by (simp_all add: stream_image_def at_end_def)

lemma frame_bytes_current:
  "frame_bytes GLC_STREAM_VERSION fr = le64 (word_of_nat (length (read_data fr))) @ [header_type fr] @ read_data fr"
  by (simp add: frame_bytes_def GLC_STREAM_VERSION_def)

lemma file_read_callback_sync_ok:
  assumes "faults w = []" "at_end h"
  shows "\<exists>h'. file_read_callback_sync file h w = (0, file\<lparr>handle := Some h'\<rparr>, w) \<and>
           at_end h' \<and> stream_image h' = stream_image h"
proof (cases "sync file = 0")
  case True
  with assms show ?thesis by (intro exI[of _ h]) (simp add: file_read_callback_sync_def)
next
  case False
  let ?h1 = "h\<lparr>fd := os_write (wbuf h) (fd h), wbuf := []\<rparr>"
  from False assms(1) have "file_read_callback_sync file h w = (0, file\<lparr>handle := Some ?h1\<rparr>, w)"
    by (simp add: file_read_callback_sync_def fflush_ok)
  with flush_image[OF assms(2)] show ?thesis by blast
qed

lemma file_read_callback_data:
  assumes "handle file = Some h" "at_end h" "faults w = []" "plain_frame creq fr"
  shows "\<exists>h'. file_read_callback invoke creq file fr w = (0, (tracker_submit file fr)\<lparr>handle := Some h'\<rparr>, w) \<and>
           at_end h' \<and> stream_image h' = stream_image h @ frame_bytes GLC_STREAM_VERSION fr"
proof -
  let ?file = "tracker_submit file fr"
  let ?h3 = "h\<lparr>wbuf := wbuf h @ le64 (word_of_nat (length (read_data fr))) @ [header_type fr] @ read_data fr\<rparr>"
  from assms(4) have pf: "header_type fr \<noteq> creq" "header_type fr \<noteq> GLC_MESSAGE_CONTAINER" "read_data fr \<noteq> []"
    by (simp_all add: plain_frame_def data_frame_def)
  have hf: "handle ?file = Some h" using assms(1) by (simp add: tracker_submit_def)
  have e: "file_read_callback invoke creq file fr w = file_read_callback_sync ?file ?h3 w"
    using hf pf assms(3)
    by (simp add: file_read_callback_def Let_def fwrite_ok le64_nonempty read_size_def)
  have "at_end ?h3" using assms(2) by simp
  from file_read_callback_sync_ok[OF assms(3) this, of ?file]
  obtain h' where "file_read_callback_sync ?file ?h3 w = (0, ?file\<lparr>handle := Some h'\<rparr>, w)"
    "at_end h'" "stream_image h' = stream_image ?h3" by blast
  with e show ?thesis by (auto simp: frame_bytes_current)
qed

lemma file_write_pump_data:
  assumes "handle file = Some h" "at_end h" "faults w = []" "\<forall>fr\<in>set frs. plain_frame creq fr"
  shows "\<exists>file' h'. file_write_pump invoke creq file frs w = (0, file', w) \<and> handle file' = Some h' \<and>
           flags file' = flags file \<and> sync file' = sync file \<and> at_end h' \<and>
           stream_image h' = stream_image h @ concat (map (frame_bytes GLC_STREAM_VERSION) frs)"
  using assms
proof (induction frs arbitrary: "file" h)
  case Nil
  then show ?case by simp
next
  case (Cons fr frs)
  from Cons.prems(4) have pf: "plain_frame creq fr" by simp
  from file_read_callback_data[OF Cons.prems(1,2,3) pf, of invoke]
  obtain h1 where s: "file_read_callback invoke creq file fr w = (0, (tracker_submit file fr)\<lparr>handle := Some h1\<rparr>, w)"
    "at_end h1" "stream_image h1 = stream_image h @ frame_bytes GLC_STREAM_VERSION fr" by blast
  let ?file1 = "(tracker_submit file fr)\<lparr>handle := Some h1\<rparr>"
  have "handle ?file1 = Some h1" by simp
  from Cons.IH[OF this s(2) Cons.prems(3)] Cons.prems(4)
  obtain file' h' where r: "file_write_pump invoke creq ?file1 frs w = (0, file', w)" "handle file' = Some h'"
    "flags file' = flags ?file1" "sync file' = sync ?file1" "at_end h'"
    "stream_image h' = stream_image h1 @ concat (map (frame_bytes GLC_STREAM_VERSION) frs)"
    by auto
  from s r show ?case by (simp add: tracker_submit_def)
qed

lemma file_write_eof_ok:
  assumes "handle file = Some h" "at_end h" "faults w = []"
    "flags file AND FILE_RUNNING = 0" "flags file AND FILE_WRITING \<noteq> 0"
  shows "\<exists>h'. file_write_eof file w = (0, file\<lparr>handle := Some h'\<rparr>, w) \<and> at_end h' \<and>
           stream_image h' = stream_image h @ frame_header GLC_STREAM_VERSION GLC_MESSAGE_CLOSE 0"
proof -
  let ?h2 = "h\<lparr>wbuf := wbuf h @ le64 0 @ [GLC_MESSAGE_CLOSE]\<rparr>"
  have fh: "frame_header GLC_STREAM_VERSION GLC_MESSAGE_CLOSE 0 = le64 0 @ [GLC_MESSAGE_CLOSE]"
    by (simp add: frame_header_def GLC_STREAM_VERSION_def)
  show ?thesis
  proof (cases "sync file = 0")
    case True
    with assms have "file_write_eof file w = (0, file\<lparr>handle := Some ?h2\<rparr>, w)"
      by (simp add: file_write_eof_def file_write_message_def fwrite_ok le64_nonempty)
    with assms(2) fh show ?thesis by (intro exI[of _ "?h2"]) simp
  next
    case False
    let ?h3 = "?h2\<lparr>fd := os_write (wbuf ?h2) (fd ?h2), wbuf := []\<rparr>"
    from False assms have "file_write_eof file w = (0, file\<lparr>handle := Some ?h3\<rparr>, w)"
      by (simp add: file_write_eof_def file_write_message_def fwrite_ok fflush_ok le64_nonempty)
    moreover have "at_end ?h2" using assms(2) by simp
    note flush_image[OF this]
    ultimately show ?thesis using fh by (metis stream_image_append)
  qed
qed

lemma file_write_info_ok:
  assumes "handle file = Some h" "at_end h" "faults w = []"
    "flags file AND FILE_RUNNING = 0" "flags file AND FILE_WRITING \<noteq> 0"
    "info_name \<noteq> []" "info_date \<noteq> []"
    "length info_name = unat (name_size info)" "length info_date = unat (date_size info)"
  shows "\<exists>h'. file_write_info file info info_name info_date w =
           (0, file\<lparr>handle := Some h', flags := flags file OR FILE_INFO_WRITTEN\<rparr>, w) \<and> at_end h' \<and>
           stream_image h' = stream_image h @ info_bytes info @ info_name @ info_date"
proof -
  let ?h3 = "h\<lparr>wbuf := wbuf h @ info_bytes info @ info_name @ info_date\<rparr>"
  show ?thesis
  proof (cases "sync file = 0")
    case True
    with assms have "file_write_info file info info_name info_date w =
        (0, file\<lparr>handle := Some ?h3, flags := flags file OR FILE_INFO_WRITTEN\<rparr>, w)"
      by (simp add: file_write_info_def fwrite_ok info_bytes_nonempty)
    with assms(2) show ?thesis by (intro exI[of _ "?h3"]) simp
  next
    case False
    let ?h4 = "?h3\<lparr>fd := os_write (wbuf ?h3) (fd ?h3), wbuf := []\<rparr>"
    from False assms have "file_write_info file info info_name info_date w =
        (0, file\<lparr>handle := Some ?h4, flags := flags file OR FILE_INFO_WRITTEN\<rparr>, w)"
      by (simp add: file_write_info_def fwrite_ok fflush_ok info_bytes_nonempty)
    moreover have "at_end ?h3" using assms(2) by simp
    note flush_image[OF this]
    ultimately show ?thesis by (metis stream_image_append)
  qed
qed

lemma file_close_target_ok:
  assumes "handle file = Some h" "at_end h" "faults w = []"
    "flags file AND FILE_RUNNING = 0" "flags file AND FILE_WRITING \<noteq> 0"
  shows "\<exists>f'. file_close_target file w =
           (0, file\<lparr>handle := None, flags := flags file AND NOT (FILE_RUNNING OR FILE_WRITING OR FILE_INFO_WRITTEN)\<rparr>,
            w\<lparr>released := released w @ [f']\<rparr>) \<and> contents f' = stream_image h"
  using assms os_write_at_end[of "fd h" "wbuf h"]
  by (intro exI[of _ "(os_write (wbuf h) (fd h))\<lparr>locked := False\<rparr>"])
     (simp add: file_close_target_def fclose_def next_fault_nil stream_image_def at_end_def)

lemma length_info_bytes [simp]: "length (info_bytes info) = 32"
  by (simp add: info_bytes_def)

lemma info_of_bytes_info_bytes: "info_of_bytes (info_bytes info @ rest) = info"
  by (cases info)
     (simp add: info_of_bytes_def info_bytes_def word_of_le_le32 word_of_le_le64 del: word_of_le.simps)

lemma file_set_target_ok:
  assumes "handle file = None" "faults w = []" "\<not> lock_conflict f"
  shows "\<exists>f' h'. file_set_target file f w =
           Some (0, f', file\<lparr>handle := Some h', flags := flags file OR FILE_WRITING\<rparr>, w) \<and>
           at_end h' \<and> stream_image h' = []"
  using assms
  by (intro exI[of _ "f\<lparr>st_mode := lock_mode (st_mode f), locked := True, offset := 0, contents := []\<rparr>"]
        exI[of _ "\<lparr>fd = f\<lparr>st_mode := lock_mode (st_mode f), locked := True, offset := 0, contents := []\<rparr>, wbuf = []\<rparr>"])
     (simp add: file_set_target_def fstat_def fchmod_def lockfile_def lock_reg_def lseek_set0_def
        ftruncate0_def fdopen_def next_fault_nil lock_mode_def at_end_def stream_image_def)

lemma file_set_source_ok:
  assumes "handle file = None" "faults w = []"
  shows "\<exists>h'. file_set_source file f w =
           (0, f\<lparr>offset := 0\<rparr>, file\<lparr>handle := Some h', flags := flags file OR FILE_READING\<rparr>, w) \<and>
           unread h' = contents f"
  using assms
  by (intro exI[of _ "\<lparr>fd = f\<lparr>offset := 0\<rparr>, wbuf = []\<rparr>"])
     (simp add: file_set_source_def lseek_set0_def fdopen_def next_fault_nil unread_def)

lemma file_read_info_ok:
  assumes "handle file = Some h" "flags file AND FILE_READING \<noteq> 0" "faults w = []"
    "unread h = info_bytes info @ nm @ dt @ rest"
    "signature info = GLC_SIGNATURE" "file_test_stream_version (version info) = 0"
    "length nm = unat (name_size info)" "length dt = unat (date_size info)"
  shows "\<exists>out h' w'. file_read_info file w =
           (0, out, file\<lparr>handle := Some h', flags := (flags file OR FILE_INFO_READ) OR FILE_INFO_VALID,
                         stream_version := version info\<rparr>, w') \<and>
           unread h' = rest \<and> faults w' = [] \<and> cancel_seq w' = cancel_seq w \<and> polls w' = polls w"
proof -
  let ?w2 = "glc_log GLC_INFORMATION ''stream version 0x%02x'' [uint (version info)] w"
  let ?h1 = "advance 32 h"
  let ?h2 = "advance (unat (name_size info)) ?h1"
  let ?h3 = "advance (unat (date_size info)) ?h2"
  have t: "take 32 (unread h) = info_bytes info" using assms(4) by simp
  have hdr: "fread_unlocked GLC_STREAM_INFO_SIZE h w = (Some (info_bytes info), ?h1, w)"
    using fread_take[OF assms(3), of 32 h] assms(4) t by (simp add: GLC_STREAM_INFO_SIZE_def)
  have i: "info_of_bytes (info_bytes info) = info"
    using info_of_bytes_info_bytes[of info "[]"] by simp
  have fw: "faults ?w2 = []" using assms(3) by (simp add: glc_log_def)
  have u1: "unread ?h1 = nm @ dt @ rest" using assms(4) by (simp add: unread_advance)
  then have "unat (name_size info) \<le> length (unread ?h1)" using assms(7) by simp
  from read_info_block_ok[OF fw this]
  obtain b1 where nmr: "read_info_block (name_size info) ?h1 ?w2 = (True, b1, ?h2, ?w2)" by blast
  have u2: "unread ?h2 = dt @ rest" using u1 assms(7) by (simp add: unread_advance)
  then have "unat (date_size info) \<le> length (unread ?h2)" using assms(8) by simp
  from read_info_block_ok[OF fw this]
  obtain b2 where dtr: "read_info_block (date_size info) ?h2 ?w2 = (True, b2, ?h3, ?w2)" by blast
  have u3: "unread ?h3 = rest" using u2 assms(8) by (simp add: unread_advance)
  have "file_read_info file w =
           (0, (Some info, b1, b2), file\<lparr>handle := Some ?h3, flags := (flags file OR FILE_INFO_READ) OR FILE_INFO_VALID,
                         stream_version := version info\<rparr>, ?w2)"
    using assms(1,2,5,6) hdr i nmr dtr by (simp add: file_read_info_def Let_def)
  moreover have "cancel_seq ?w2 = cancel_seq w \<and> polls ?w2 = polls w" by (simp add: glc_log_def)
  ultimately show ?thesis using u3 fw by blast
qed

lemma file_read_send_eof_packets:
  "file_read_send_eof file h pkt to w = (ret, file1, to1, w1) \<Longrightarrow> \<exists>ex. packets to1 = packets to @ ex"
proof -
  assume a: "file_read_send_eof file h pkt to w = (ret, file1, to1, w1)"
  obtain r1 pkt1 wa where o: "ps_packet_open pkt to w = (r1, pkt1, wa)" by (metis prod_cases3)
  obtain r2 pkt2 wb where wr: "ps_packet_write pkt1 [GLC_MESSAGE_CLOSE] to wa = (r2, pkt2, wb)"
    by (metis prod_cases3)
  obtain r3 pkt3 to3 wc where cl: "ps_packet_close pkt2 to wb = (r3, pkt3, to3, wc)"
    by (metis prod_cases4)
  from a o wr cl have "to1 = to3" by (simp add: file_read_send_eof_def file_read_finish_def)
  with ps_packet_close_keeps[OF cl] show ?thesis by (cases "r3 = 0") auto
qed

lemma file_read_frames_prefix:
  assumes "handle file = Some h" "flags file AND FILE_READING \<noteq> 0"
    "flags file AND FILE_INFO_READ \<noteq> 0" "flags file AND FILE_INFO_VALID \<noteq> 0"
    "faults w = []" "\<not> cancelled to" "\<forall>fr\<in>set frs. data_frame fr" "\<forall>k. \<not> cancel_seq w k"
    "unread h = concat (map (frame_bytes (stream_version file)) frs) @ rest"
    "file_read file to w = (ret, file1, to1, w1)"
  shows "\<exists>extra. packets to1 = packets to @ map packet_of frs @ extra"
proof -
  let ?ver = "stream_version file"
  let ?h' = "advance (length (concat (map (frame_bytes ?ver) frs))) h"
  let ?pkt' = "if frs = [] then ps_packet_init else ps_packet_init\<lparr>is_open := False, pdata := []\<rparr>"
  let ?to' = "to\<lparr>packets := packets to @ map packet_of frs\<rparr>"
  let ?w' = "w\<lparr>polls := polls w + length frs\<rparr>"
  have nc: "\<forall>k<length frs. \<not> cancel_seq w (polls w + k)" using assms(8) by simp
  have lp: "file_read_loop ?ver h ps_packet_init to w = file_read_loop ?ver ?h' ?pkt' ?to' ?w'"
    by (rule file_read_loop_frames[OF assms(5,6,7) nc assms(9)])
  obtain r h2 pkt2 to2 w2 where rest: "file_read_loop ?ver ?h' ?pkt' ?to' ?w' = (r, h2, pkt2, to2, w2)"
    by (cases "file_read_loop ?ver ?h' ?pkt' ?to' ?w'") blast
  have "\<exists>ps. packets to2 = packets ?to' @ ps"
    using file_read_loop_effect[OF rest] by (elim conjE exE, intro exI)
  then obtain ps where ps: "packets to2 = packets ?to' @ ps" ..
  have rd: "file_read file to w =
    (case r of Completed _ \<Rightarrow> file_read_finish file h2 to2 w2
     | SendEof \<Rightarrow> file_read_send_eof file h2 pkt2 to2 w2
     | Err e n \<Rightarrow> file_read_err file e n h2 to2 w2)"
    using file_read_pump[OF assms(1-4), of to w] lp rest by (simp split: frame_result.splits)
  have "\<exists>ex. packets to1 = packets to2 @ ex"
  proof (cases r)
    case (Completed t)
    with rd assms(10) have "file_read_finish file h2 to2 w2 = (ret, file1, to1, w1)" by simp
    then have "packets to1 = packets to2" by (auto simp: file_read_finish_def)
    then show ?thesis by simp
  next
    case SendEof
    with rd assms(10) have "file_read_send_eof file h2 pkt2 to2 w2 = (ret, file1, to1, w1)" by simp
    then show ?thesis by (rule file_read_send_eof_packets)
  next
    case (Err e n)
    with rd assms(10) have "file_read_err file e n h2 to2 w2 = (ret, file1, to1, w1)" by simp
    then have "packets to1 = packets to2"
      by (cases "e = EINTR") (auto simp: file_read_err_def file_read_finish_def ps_buffer_cancel_def)
    then show ?thesis by simp
  qed
  then obtain ex where "packets to1 = packets to2 @ ex" by blast
  with ps have "packets to1 = packets to @ map packet_of frs @ (ps @ ex)" by simp
  then show ?thesis by (rule exI)
qed

lemma file_write_process_start_ok:
  assumes "handle file = Some h" "faults w = []" "flags file AND FILE_RUNNING = 0"
    "flags file AND FILE_WRITING \<noteq> 0" "flags file AND FILE_INFO_WRITTEN \<noteq> 0"
  shows "file_write_process_start file w = (0, file\<lparr>flags := flags file OR FILE_RUNNING\<rparr>, w)"
  using assms by (simp add: file_write_process_start_def glc_thread_create_def next_fault_nil)

lemma file_write_process_wait_ok:
  assumes "handle file = Some h" "flags file AND FILE_RUNNING \<noteq> 0"
    "flags file AND FILE_WRITING \<noteq> 0" "flags file AND FILE_INFO_WRITTEN \<noteq> 0"
  shows "file_write_process_wait file w =
           (0, file\<lparr>flags := flags file AND NOT (FILE_RUNNING OR FILE_INFO_WRITTEN)\<rparr>, w)"
  using assms by (simp add: file_write_process_wait_def)

lemma record_session:
  fixes invoke :: "'cb \<Rightarrow> 64 word \<Rightarrow> 'cb file_s \<Rightarrow> world \<Rightarrow> 'cb file_s \<times> world"
  assumes quiet: "faults w = []" "\<not> lock_conflict f"
    and info: "info_name \<noteq> []" "info_date \<noteq> []"
      "length info_name = unat (name_size info)" "length info_date = unat (date_size info)"
    and frames: "\<forall>fr\<in>set frs. plain_frame creq fr"
    and s0: "file_set_sync (file_init :: 'cb file_s) snc = (r0, file0)"
    and s1: "file_set_target file0 f w = Some (r1, f1, file1, w1)"
    and s2: "file_write_info file1 info info_name info_date w1 = (r2, file2, w2)"
    and s3: "file_write_process_start file2 w2 = (r3, file3, w3)"
    and s4: "file_write_pump invoke creq file3 frs w3 = (r4, file4, w4)"
    and s5: "file_write_process_wait file4 w4 = (r5, file5, w5)"
    and s6: "file_write_eof file5 w5 = (r6, file6, w6)"
    and s7: "file_close_target file6 w6 = (r7, file7, w7)"
  shows "r1 = 0 \<and> r2 = 0 \<and> r3 = 0 \<and> r4 = 0 \<and> r5 = 0 \<and> r6 = 0 \<and> r7 = 0 \<and>
         faults w7 = [] \<and> cancel_seq w7 = cancel_seq w \<and>
         contents (last (released w7)) =
           info_bytes info @ info_name @ info_date @
           concat (map (frame_bytes GLC_STREAM_VERSION) frs) @
           frame_header GLC_STREAM_VERSION GLC_MESSAGE_CLOSE 0"
proof -
  let ?frames = "concat (map (frame_bytes GLC_STREAM_VERSION) frs)"
  let ?eof = "frame_header GLC_STREAM_VERSION GLC_MESSAGE_CLOSE 0"
  from s0 have f0: "handle file0 = None" "flags file0 = 0"
    by (auto simp: file_set_sync_def file_init_def)
  from file_set_target_ok[OF f0(1) quiet(1,2)] s1
  obtain h1 where a1: "r1 = 0" "w1 = w" "handle file1 = Some h1" "flags file1 = flags file0 OR FILE_WRITING"
    "at_end h1" "stream_image h1 = []"
    by auto
  have fl1: "flags file1 AND FILE_RUNNING = 0" "flags file1 AND FILE_WRITING \<noteq> 0"
    using a1(4) f0(2) by (simp_all add: flag_simps)
  from file_write_info_ok[OF a1(3,5) quiet(1) fl1 info(1,2,3,4)] s2 a1(2)
  obtain h2 where a2: "r2 = 0" "w2 = w" "handle file2 = Some h2"
    "flags file2 = flags file1 OR FILE_INFO_WRITTEN" "at_end h2"
    "stream_image h2 = stream_image h1 @ info_bytes info @ info_name @ info_date"
    by auto
  have fl2: "flags file2 AND FILE_RUNNING = 0" "flags file2 AND FILE_WRITING \<noteq> 0"
    "flags file2 AND FILE_INFO_WRITTEN \<noteq> 0"
    using a2(4) a1(4) f0(2) by (simp_all add: flag_simps)
  from file_write_process_start_ok[OF a2(3) quiet(1) fl2] s3 a2(2)
  have a3: "r3 = 0" "w3 = w" "handle file3 = Some h2" "flags file3 = flags file2 OR FILE_RUNNING"
    using a2(3) by auto
  from file_write_pump_data[OF a3(3) a2(5) quiet(1) frames, of invoke] s4 a3(2)
  obtain h4 where a4: "r4 = 0" "w4 = w" "handle file4 = Some h4" "flags file4 = flags file3" "at_end h4"
    "stream_image h4 = stream_image h2 @ ?frames"
    by auto
  have fl4: "flags file4 AND FILE_RUNNING \<noteq> 0" "flags file4 AND FILE_WRITING \<noteq> 0"
    "flags file4 AND FILE_INFO_WRITTEN \<noteq> 0"
    using a4(4) a3(4) a2(4) a1(4) f0(2) by (simp_all add: flag_simps)
  from file_write_process_wait_ok[OF a4(3) fl4, of w] s5 a4(2)
  have a5: "r5 = 0" "w5 = w" "handle file5 = Some h4"
    "flags file5 = flags file4 AND NOT (FILE_RUNNING OR FILE_INFO_WRITTEN)"
    using a4(3) by auto
  have fl5: "flags file5 AND FILE_RUNNING = 0" "flags file5 AND FILE_WRITING \<noteq> 0"
    using a5(4) a4(4) a3(4) a2(4) a1(4) f0(2) by (simp_all add: flag_simps)
  from file_write_eof_ok[OF a5(3) a4(5) quiet(1) fl5] s6 a5(2)
  obtain h6 where a6: "r6 = 0" "w6 = w" "handle file6 = Some h6" "flags file6 = flags file5" "at_end h6"
    "stream_image h6 = stream_image h4 @ ?eof"
    by auto
  have fl6: "flags file6 AND FILE_RUNNING = 0" "flags file6 AND FILE_WRITING \<noteq> 0"
    using a6(4) fl5 by simp_all
  from file_close_target_ok[OF a6(3,5) quiet(1) fl6] s7 a6(2)
  obtain fz where a7: "r7 = 0" "w7 = w\<lparr>released := released w @ [fz]\<rparr>" "contents fz = stream_image h6"
    by auto
  have img: "contents fz = info_bytes info @ info_name @ info_date @ ?frames @ ?eof"
    using a7(3) a6(6) a4(6) a2(6) a1(6) by simp
  have l7: "last (released w7) = fz" "faults w7 = []" "cancel_seq w7 = cancel_seq w"
    using a7(2) quiet(1) by simp_all
  with a1(1) a2(1) a3(1) a4(1) a5(1) a6(1) a7(1) img show ?thesis
    by simp
qed

lemma replay_header:
  assumes "faults w7 = []"
    and "contents fz = info_bytes info @ info_name @ info_date @ rest"
    and "signature info = GLC_SIGNATURE" "file_test_stream_version (version info) = 0"
    and "length info_name = unat (name_size info)" "length info_date = unat (date_size info)"
    and s8: "file_set_source (file_init :: 'cb file_s) fz w7 = (r8, f8, file8, w8)"
    and s9: "file_read_info file8 w8 = (r9, out, file9, w9)"
  shows "r8 = 0 \<and> r9 = 0 \<and> stream_version file9 = version info \<and>
         flags file9 AND FILE_READING \<noteq> 0 \<and> flags file9 AND FILE_INFO_READ \<noteq> 0 \<and>
         flags file9 AND FILE_INFO_VALID \<noteq> 0 \<and> faults w9 = [] \<and> cancel_seq w9 = cancel_seq w7 \<and>
         (\<exists>h9. handle file9 = Some h9 \<and> unread h9 = rest)"
proof -
  have i0: "handle (file_init :: 'cb file_s) = None" "flags (file_init :: 'cb file_s) = 0"
    by (simp_all add: file_init_def)
  from file_set_source_ok[OF i0(1) assms(1), of fz] s8
  obtain h8 where a8: "r8 = 0" "w8 = w7" "handle file8 = Some h8" "flags file8 = 0 OR FILE_READING"
    "unread h8 = contents fz"
    using i0(2) by auto
  have fl8: "flags file8 AND FILE_READING \<noteq> 0"
    using a8(4) by (simp add: flag_simps)
  have u8: "unread h8 = info_bytes info @ info_name @ info_date @ rest"
    using a8(5) assms(2) by simp
  have fw8: "faults w8 = []" using a8(2) assms(1) by simp
  from file_read_info_ok[OF a8(3) fl8 fw8 u8 assms(3,4,5,6)] s9
  obtain h9 where a9: "r9 = 0" "handle file9 = Some h9"
    "flags file9 = (flags file8 OR FILE_INFO_READ) OR FILE_INFO_VALID"
    "stream_version file9 = version info" "unread h9 = rest" "faults w9 = []"
    "cancel_seq w9 = cancel_seq w8"
    by auto
  have fl9: "flags file9 AND FILE_READING \<noteq> 0" "flags file9 AND FILE_INFO_READ \<noteq> 0"
    "flags file9 AND FILE_INFO_VALID \<noteq> 0"
    using a9(3) a8(4) by (simp_all add: flag_simps)
  from a8(1,2) a9 fl9 show ?thesis by simp
qed

section \<open>Recording a stream and reading it back\<close>

text \<open>
  C5, as amended. In a quiet environment a caller records a list of plain frames (data
  frames, that is a type other than close and a non-empty payload, that are neither
  callback requests nor containers): it sets the sync mode, attaches a target, writes
  the stream info with the current version, starts the pump, lets it take the frames,
  joins it, writes the end of the stream and closes the target. Every step returns 0,
  and the file left on disk is the info header, the name and date blocks, the frames
  in the layout length, tag, payload (the only layout the pump writes), and the close
  frame. When a fresh controller is attached to that file, reads the stream info and
  reads the frames, the first packets it forwards to the destination buffer are the
  recorded frames: same types, same payloads, same order.
\<close>

theorem write_read_round_trip:
  fixes invoke :: "'cb \<Rightarrow> 64 word \<Rightarrow> 'cb file_s \<Rightarrow> world \<Rightarrow> 'cb file_s \<times> world"
  assumes quiet: "faults w = []" "\<forall>k. \<not> cancel_seq w k" "\<not> lock_conflict f" "\<not> cancelled to"
    and info: "signature info = GLC_SIGNATURE" "version info = GLC_STREAM_VERSION"
      "info_name \<noteq> []" "info_date \<noteq> []"
      "length info_name = unat (name_size info)" "length info_date = unat (date_size info)"
    and frames: "\<forall>fr\<in>set frs. plain_frame creq fr"
    and s0: "file_set_sync (file_init :: 'cb file_s) snc = (r0, file0)"
    and s1: "file_set_target file0 f w = Some (r1, f1, file1, w1)"
    and s2: "file_write_info file1 info info_name info_date w1 = (r2, file2, w2)"
    and s3: "file_write_process_start file2 w2 = (r3, file3, w3)"
    and s4: "file_write_pump invoke creq file3 frs w3 = (r4, file4, w4)"
    and s5: "file_write_process_wait file4 w4 = (r5, file5, w5)"
    and s6: "file_write_eof file5 w5 = (r6, file6, w6)"
    and s7: "file_close_target file6 w6 = (r7, file7, w7)"
    and s8: "file_set_source (file_init :: 'cb file_s) (last (released w7)) w7 = (r8, f8, file8, w8)"
    and s9: "file_read_info file8 w8 = (r9, out, file9, w9)"
    and s10: "file_read file9 to w9 = (r10, file10, to10, w10)"
  shows "r1 = 0 \<and> r2 = 0 \<and> r3 = 0 \<and> r4 = 0 \<and> r5 = 0 \<and> r6 = 0 \<and> r7 = 0 \<and> r8 = 0 \<and> r9 = 0 \<and>
         contents (last (released w7)) =
           info_bytes info @ info_name @ info_date @
           concat (map (frame_bytes GLC_STREAM_VERSION) frs) @
           frame_header GLC_STREAM_VERSION GLC_MESSAGE_CLOSE 0 \<and>
         (\<exists>extra. packets to10 = packets to @ map packet_of frs @ extra)"
proof -
  let ?frames = "concat (map (frame_bytes GLC_STREAM_VERSION) frs)"
  let ?eof = "frame_header GLC_STREAM_VERSION GLC_MESSAGE_CLOSE 0"
  note rec = record_session[OF quiet(1,3) info(3-6) frames s0 s1 s2 s3 s4 s5 s6 s7]
  then have img: "contents (last (released w7)) = info_bytes info @ info_name @ info_date @ (?frames @ ?eof)"
    and fw: "faults w7 = []" and cs: "cancel_seq w7 = cancel_seq w"
    by simp_all
  have tv: "file_test_stream_version (version info) = 0"
    using info(2) by (simp add: file_test_stream_version_def)
  note rep = replay_header[OF fw img info(1) tv info(5,6) s8 s9]
  then obtain h9 where h9: "handle file9 = Some h9" "unread h9 = ?frames @ ?eof"
    by (elim conjE exE)
  from rep have fl9: "flags file9 AND FILE_READING \<noteq> 0" "flags file9 AND FILE_INFO_READ \<noteq> 0"
    "flags file9 AND FILE_INFO_VALID \<noteq> 0" and fw9: "faults w9 = []"
    and sv: "stream_version file9 = version info" and cs9: "cancel_seq w9 = cancel_seq w7"
    by simp_all
  have df: "\<forall>fr\<in>set frs. data_frame fr" using frames by (simp add: plain_frame_def)
  have nc: "\<forall>k. \<not> cancel_seq w9 k" using cs9 cs quiet(2) by simp
  have u9: "unread h9 = concat (map (frame_bytes (stream_version file9)) frs) @ ?eof"
    using h9(2) sv info(2) by simp
  have "\<exists>extra. packets to10 = packets to @ map packet_of frs @ extra"
    by (rule file_read_frames_prefix[OF h9(1) fl9 fw9 quiet(4) df nc u9 s10])
  with rec rep show ?thesis
    by simp
qed

lemma attach_result: "r = (attach_ret r, attach_fd r, attach_file r, attach_world r)"
  by (simp add: attach_ret_def attach_fd_def attach_file_def attach_world_def)

lemma file_set_target_returns: "\<exists>r. file_set_target file f w = Some r"
proof (cases "handle file")
  case (Some h)
  then show ?thesis by (simp add: file_set_target_def)
next
  case None
  obtain r1 m w1 where a: "fstat f w = (r1, m, w1)" by (metis prod_cases3)
  obtain r2 f2 w2 where b: "fchmod f (lock_mode m) w1 = (r2, f2, w2)" by (metis prod_cases3)
  obtain r3 f3 w3 where c: "lockfile f2 w2 = Some (r3, f3, w3)"
    using lockfile_returns[of f2 w2] by (metis prod_cases3)
  obtain r4 f4 w4 where d: "lseek_set0 f3 w3 = (r4, f4, w4)" by (metis prod_cases3)
  obtain r5 f5 w5 where e: "ftruncate0 f4 w4 = (r5, f5, w5)" by (metis prod_cases3)
  obtain ho w6 where g: "fdopen f5 w5 = (ho, w6)" by (metis prod.exhaust)
  from None a b c d e g show ?thesis
    by (cases ho) (simp_all add: file_set_target_def lock_mode_def)
qed

lemma demo_steps:
  "file_set_sync (file_init :: unit file_s) 0 = (0, snd (file_set_sync (file_init :: unit file_s) 0))"
  "file_set_target (snd (file_set_sync (file_init :: unit file_s) 0)) (disk_file [9, 9, 9]) quiet_world =
     Some (attach_ret demo_attached, attach_fd demo_attached, attach_file demo_attached, attach_world demo_attached)"
  "file_write_info (attach_file demo_attached) (demo_info\<lparr>version := v\<rparr>) [0x61, 0] [0x62, 0] (attach_world demo_attached) =
     (op_ret (demo_info_written v), op_file (demo_info_written v), op_world (demo_info_written v))"
  "file_write_process_start (op_file (demo_info_written v)) (op_world (demo_info_written v)) =
     (op_ret (demo_started v), op_file (demo_started v), op_world (demo_started v))"
  "file_write_pump noting_callback 0x0b (op_file (demo_started v)) [picture] (op_world (demo_started v)) =
     (op_ret (demo_pumped v), op_file (demo_pumped v), op_world (demo_pumped v))"
  "file_write_process_wait (op_file (demo_pumped v)) (op_world (demo_pumped v)) =
     (op_ret (demo_waited v), op_file (demo_waited v), op_world (demo_waited v))"
  "file_write_eof (op_file (demo_waited v)) (op_world (demo_waited v)) =
     (op_ret (demo_eof v), op_file (demo_eof v), op_world (demo_eof v))"
  "file_close_target (op_file (demo_eof v)) (op_world (demo_eof v)) =
     (op_ret (demo_closed v), op_file (demo_closed v), op_world (demo_closed v))"
  "file_set_source (file_init :: unit file_s) (last (released (op_world (demo_closed v)))) (op_world (demo_closed v)) =
     (attach_ret (demo_source v), attach_fd (demo_source v), attach_file (demo_source v), attach_world (demo_source v))"
  "file_read_info (attach_file (demo_source v)) (attach_world (demo_source v)) =
     (info_ret (demo_info_read v), fst (snd (demo_info_read v)), info_file (demo_info_read v), info_world (demo_info_read v))"
  "file_read (info_file (demo_info_read v)) empty_buffer (info_world (demo_info_read v)) =
     (read_ret (demo_read v), read_file (demo_read v), read_buffer (demo_read v), read_world (demo_read v))"
proof -
  show "file_set_sync (file_init :: unit file_s) 0 = (0, snd (file_set_sync (file_init :: unit file_s) 0))"
    by (simp add: file_set_sync_def)
  from file_set_target_returns obtain r where
    r: "file_set_target (snd (file_set_sync (file_init :: unit file_s) 0)) (disk_file [9, 9, 9]) quiet_world = Some r"
    by blast
  then have "demo_attached = r" by (simp add: demo_attached_def)
  with r attach_result[of r]
  show "file_set_target (snd (file_set_sync (file_init :: unit file_s) 0)) (disk_file [9, 9, 9]) quiet_world =
     Some (attach_ret demo_attached, attach_fd demo_attached, attach_file demo_attached, attach_world demo_attached)"
    by simp
  show "file_write_info (attach_file demo_attached) (demo_info\<lparr>version := v\<rparr>) [0x61, 0] [0x62, 0] (attach_world demo_attached) =
     (op_ret (demo_info_written v), op_file (demo_info_written v), op_world (demo_info_written v))"
    unfolding demo_info_written_def[symmetric] by (rule op_result)
  show "file_write_process_start (op_file (demo_info_written v)) (op_world (demo_info_written v)) =
     (op_ret (demo_started v), op_file (demo_started v), op_world (demo_started v))"
    unfolding demo_started_def[symmetric] by (rule op_result)
  show "file_write_pump noting_callback 0x0b (op_file (demo_started v)) [picture] (op_world (demo_started v)) =
     (op_ret (demo_pumped v), op_file (demo_pumped v), op_world (demo_pumped v))"
    unfolding demo_pumped_def[symmetric] by (rule op_result)
  show "file_write_process_wait (op_file (demo_pumped v)) (op_world (demo_pumped v)) =
     (op_ret (demo_waited v), op_file (demo_waited v), op_world (demo_waited v))"
    unfolding demo_waited_def[symmetric] by (rule op_result)
  show "file_write_eof (op_file (demo_waited v)) (op_world (demo_waited v)) =
     (op_ret (demo_eof v), op_file (demo_eof v), op_world (demo_eof v))"
    unfolding demo_eof_def[symmetric] by (rule op_result)
  show "file_close_target (op_file (demo_eof v)) (op_world (demo_eof v)) =
     (op_ret (demo_closed v), op_file (demo_closed v), op_world (demo_closed v))"
    unfolding demo_closed_def[symmetric] by (rule op_result)
  show "file_set_source (file_init :: unit file_s) (last (released (op_world (demo_closed v)))) (op_world (demo_closed v)) =
     (attach_ret (demo_source v), attach_fd (demo_source v), attach_file (demo_source v), attach_world (demo_source v))"
    unfolding demo_source_def[symmetric] by (rule attach_result)
  show "file_read_info (attach_file (demo_source v)) (attach_world (demo_source v)) =
     (info_ret (demo_info_read v), fst (snd (demo_info_read v)), info_file (demo_info_read v), info_world (demo_info_read v))"
    unfolding demo_info_read_def[symmetric] by (rule info_result4)
  show "file_read (info_file (demo_info_read v)) empty_buffer (info_world (demo_info_read v)) =
     (read_ret (demo_read v), read_file (demo_read v), read_buffer (demo_read v), read_world (demo_read v))"
    unfolding demo_read_def[symmetric] by (rule read_result)
qed

lemma demo_pre:
  "faults quiet_world = []" "\<forall>k. \<not> cancel_seq quiet_world k" "\<not> lock_conflict (disk_file [9, 9, 9])"
  "\<not> cancelled empty_buffer"
  "signature (demo_info\<lparr>version := v\<rparr>) = GLC_SIGNATURE" "version (demo_info\<lparr>version := v\<rparr>) = v"
  "[0x61, 0 :: byte] \<noteq> []" "[0x62, 0 :: byte] \<noteq> []"
  "length [0x61, 0 :: byte] = unat (name_size (demo_info\<lparr>version := v\<rparr>))"
  "length [0x62, 0 :: byte] = unat (date_size (demo_info\<lparr>version := v\<rparr>))"
  "\<forall>fr\<in>set [picture]. plain_frame 0x0b fr"
  by (simp_all add: quiet_world_def disk_file_def empty_buffer_def demo_info_def picture_def
      plain_frame_def data_frame_def GLC_MESSAGE_CLOSE_def GLC_MESSAGE_CONTAINER_def)

theorem write_read_round_trip_witness:
  "op_ret (demo_closed GLC_STREAM_VERSION) = 0
   \<and> info_ret (demo_info_read GLC_STREAM_VERSION) = 0
   \<and> contents (last (released (op_world (demo_closed GLC_STREAM_VERSION)))) =
       info_bytes (demo_info\<lparr>version := GLC_STREAM_VERSION\<rparr>) @ [0x61, 0] @ [0x62, 0] @
       frame_bytes GLC_STREAM_VERSION picture @ frame_header GLC_STREAM_VERSION GLC_MESSAGE_CLOSE 0
   \<and> take 1 (packets (read_buffer (demo_read GLC_STREAM_VERSION))) = [[2, 0xAA]]"
proof -
  let ?v = GLC_STREAM_VERSION
  note t = write_read_round_trip[OF demo_pre(1-5) demo_pre(6)[of ?v] demo_pre(7-11)
      demo_steps(1,2) demo_steps(3-11)[of ?v]]
  then obtain extra where "packets (read_buffer (demo_read ?v)) = packets empty_buffer @ map packet_of [picture] @ extra"
    by (elim conjE exE)
  then have "take 1 (packets (read_buffer (demo_read ?v))) = [[2, 0xAA]]"
    by (simp add: empty_buffer_def packet_of_def picture_def)
  with t show ?thesis by simp
qed

lemma file_read_short_payload:
  assumes "handle file = Some h" "flags file AND FILE_READING \<noteq> 0"
    "flags file AND FILE_INFO_READ \<noteq> 0" "flags file AND FILE_INFO_VALID \<noteq> 0"
    "faults w = []" "\<not> cancelled to"
    "unread h = frame_header (stream_version file) t sz @ part" "length part < unat sz"
    "file_read file to w = (ret, file1, to1, w1)"
  shows "ret = EBADMSG \<and> packets to1 = packets to \<and> cancelled to1"
proof -
  from file_read_frame_short_payload[OF assms(5,6,7,8), of ps_packet_init]
  obtain h2 pkt2 where "file_read_frame (stream_version file) h ps_packet_init to w =
      (Err EBADMSG (unat sz), h2, pkt2, to, w)"
    by blast
  then have "file_read_loop (stream_version file) h ps_packet_init to w = (Err EBADMSG (unat sz), h2, pkt2, to, w)"
    by (subst file_read_loop.simps) simp
  with file_read_pump[OF assms(1-4), of to w]
  have "file_read file to w = file_read_err file EBADMSG (unat sz) h2 to w" by simp
  with assms(9) show ?thesis
    by (auto simp: file_read_err_def ps_buffer_cancel_def)
qed

theorem write_read_round_trip_counterexample:
  "info_ret (demo_info_read 3) = 0
   \<and> stream_version (info_file (demo_info_read 3)) = 3
   \<and> contents (last (released (op_world (demo_closed 3)))) =
       info_bytes (demo_info\<lparr>version := 3\<rparr>) @ [0x61, 0, 0x62, 0] @
       [1, 0, 0, 0, 0, 0, 0, 0, 2, 0xAA] @ [0, 0, 0, 0, 0, 0, 0, 0, 1]
   \<and> frame_bytes 3 picture = [2, 1, 0, 0, 0, 0, 0, 0, 0, 0xAA]
   \<and> read_ret (demo_read 3) = EBADMSG
   \<and> packets (read_buffer (demo_read 3)) = []"
proof -
  let ?v = "3 :: 32 word"
  let ?rest = "concat (map (frame_bytes GLC_STREAM_VERSION) [picture]) @ frame_header GLC_STREAM_VERSION GLC_MESSAGE_CLOSE 0"
  note rec = record_session[OF demo_pre(1,3) demo_pre(7-11) demo_steps(1,2) demo_steps(3-8)[of ?v]]
  then have img: "contents (last (released (op_world (demo_closed ?v)))) =
      info_bytes (demo_info\<lparr>version := ?v\<rparr>) @ [0x61, 0] @ [0x62, 0] @ ?rest"
    and fw: "faults (op_world (demo_closed ?v)) = []"
    by simp_all
  have tv: "file_test_stream_version (version (demo_info\<lparr>version := ?v\<rparr>)) = 0"
    by (simp add: file_test_stream_version_def)
  note rep = replay_header[OF fw img demo_pre(5) tv demo_pre(9,10) demo_steps(9,10)[of ?v]]
  then obtain h9 where h9: "handle (info_file (demo_info_read ?v)) = Some h9" "unread h9 = ?rest"
    by (elim conjE exE)
  from rep have fl9: "flags (info_file (demo_info_read ?v)) AND FILE_READING \<noteq> 0"
    "flags (info_file (demo_info_read ?v)) AND FILE_INFO_READ \<noteq> 0"
    "flags (info_file (demo_info_read ?v)) AND FILE_INFO_VALID \<noteq> 0"
    and fw9: "faults (info_world (demo_info_read ?v)) = []"
    and sv: "stream_version (info_file (demo_info_read ?v)) = 3"
    and r9: "info_ret (demo_info_read ?v) = 0"
    by simp_all
  have bytes: "?rest = [1, 0, 0, 0, 0, 0, 0, 0, 2, 0xAA] @ [0, 0, 0, 0, 0, 0, 0, 0, 1]"
    by (simp add: frame_bytes_def frame_header_def picture_def GLC_STREAM_VERSION_def le64_def
        GLC_MESSAGE_CLOSE_def)
  have legacy: "frame_bytes 3 picture = [2, 1, 0, 0, 0, 0, 0, 0, 0, 0xAA]"
    by (simp add: frame_bytes_def picture_def le64_def)
  have u: "unread h9 = frame_header (stream_version (info_file (demo_info_read ?v))) 1 0x0200000000000000 @
      [0xAA, 0, 0, 0, 0, 0, 0, 0, 0, 1]"
    unfolding h9(2) sv bytes by (simp add: frame_header_def le64_def)
  have len: "length [0xAA, 0, 0, 0, 0, 0, 0, 0, 0, 1 :: byte] < unat (0x0200000000000000 :: 64 word)"
    by simp
  from file_read_short_payload[OF h9(1) fl9 fw9 demo_pre(4) u len demo_steps(11)[of ?v]]
  have "read_ret (demo_read ?v) = EBADMSG \<and> packets (read_buffer (demo_read ?v)) = []"
    by (simp add: empty_buffer_def)
  with r9 sv img bytes legacy show ?thesis by simp
qed

end
